(* ===== verification/Prelude.thy ===== *)
theory Prelude
  imports Main "HOL-Library.Word"
begin

text \<open>
  The shared ground of the development: the model's basic types, Rust's
  \<^verbatim>\<open>Result\<close> as a sum, the byte-string operations of the standard library the
  sources use, and the generic lemmas on lists and options the component proofs
  draw on.

  A Rust \<^verbatim>\<open>String\<close> or byte slice is a \<open>string\<close>: a list of \<open>char\<close>, which in HOL are
  exactly the 256 bytes, so a non-ASCII character is its UTF-8 byte sequence.
\<close>

section \<open>Basic types\<close>

type_synonym bytes = string
type_synonym u16 = "16 word"
type_synonym u32 = "32 word"
type_synonym ('e, 'a) result = "'e + 'a"

abbreviation Ok :: "'a \<Rightarrow> ('e, 'a) result" where
  "Ok \<equiv> Inr"

abbreviation Err :: "'e \<Rightarrow> ('e, 'a) result" where
  "Err \<equiv> Inl"

text \<open>\<^verbatim>\<open>u32::try_from(i).unwrap_or(u32::MAX)\<close> and the truncating \<^verbatim>\<open>i as u32\<close> of a \<^verbatim>\<open>usize\<close>.\<close>

definition u32_max :: nat where
  "u32_max = 4294967295"

definition clamp_u32 :: "nat \<Rightarrow> u32" where
  "clamp_u32 i = (if int i \<le> 4294967295 then word_of_nat i else 4294967295)"

definition as_u32 :: "nat \<Rightarrow> u32" where
  "as_u32 i = word_of_nat i"

named_theorems step_defs "definitions of the pure decision steps"
named_theorems fs_simps "how a directory operation changes the directory"
named_theorems invar_intros "preservation of a component's invariant"

section \<open>Option and result\<close>

definition ok :: "('e, 'a) result \<Rightarrow> 'a option" where
  "ok r = (case r of Err _ \<Rightarrow> None | Ok a \<Rightarrow> Some a)"

lemma ok_simps [simp]: "ok (Ok a) = Some a" "ok (Err e) = None"
  by (simp_all add: ok_def)

lemma ok_eq_Some [simp]: "ok r = Some a \<longleftrightarrow> r = Ok a"
  by (cases r) simp_all

definition map_ok :: "('a \<Rightarrow> 'b) \<Rightarrow> ('e, 'a) result \<Rightarrow> ('e, 'b) result" where
  "map_ok f r = (case r of Err e \<Rightarrow> Err e | Ok a \<Rightarrow> Ok (f a))"

lemma map_ok_simps [simp]: "map_ok f (Ok a) = Ok (f a)" "map_ok f (Err e) = Err e"
  by (simp_all add: map_ok_def)

lemma map_ok_eq_Ok [simp]: "map_ok f r = Ok b \<longleftrightarrow> (\<exists>a. r = Ok a \<and> b = f a)"
  by (cases r) auto

lemma map_ok_eq_Err [simp]: "map_ok f r = Err e \<longleftrightarrow> r = Err e"
  by (cases r) auto

section \<open>Byte strings\<close>

text \<open>ASCII case folding, as \<^verbatim>\<open>u8::to_ascii_lowercase\<close>: bytes \<^verbatim>\<open>A\<close> to \<^verbatim>\<open>Z\<close> only.\<close>

definition lower_byte :: "char \<Rightarrow> char" where
  "lower_byte c = (let n = of_char c :: int in if 65 \<le> n \<and> n \<le> 90 then char_of (n + 32) else c)"

definition to_ascii_lowercase :: "bytes \<Rightarrow> bytes" where
  "to_ascii_lowercase s = map lower_byte s"

definition eq_ignore_ascii_case :: "bytes \<Rightarrow> bytes \<Rightarrow> bool" where
  "eq_ignore_ascii_case a b \<longleftrightarrow> to_ascii_lowercase a = to_ascii_lowercase b"

text \<open>\<^verbatim>\<open>str::trim_end_matches(c)\<close> for one character.\<close>

definition trim_end_char :: "char \<Rightarrow> bytes \<Rightarrow> bytes" where
  "trim_end_char c s = rev (dropWhile (\<lambda>x. x = c) (rev s))"

definition starts_with :: "bytes \<Rightarrow> bytes \<Rightarrow> bool" where
  "starts_with s p \<longleftrightarrow> take (length p) s = p"

text \<open>\<^verbatim>\<open>iter().position(p)\<close>.\<close>

fun position :: "('a \<Rightarrow> bool) \<Rightarrow> 'a list \<Rightarrow> nat option" where
  "position p [] = None"
| "position p (x # xs) = (if p x then Some 0 else map_option Suc (position p xs))"

lemma of_char_bounds [simp]: "0 \<le> (of_char c :: int)" "(of_char c :: int) < 256"
proof -
  have "(of_char c :: int) = int (of_char c)" by (simp add: of_nat_of_char)
  then show "0 \<le> (of_char c :: int)" "(of_char c :: int) < 256"
    using nat_of_char_less_256 [of c] by linarith+
qed

lemma of_char_lower_byte:
  "(of_char (lower_byte c) :: int) =
     (if 65 \<le> (of_char c :: int) \<and> (of_char c :: int) \<le> 90 then of_char c + 32 else of_char c)"
  by (auto simp: lower_byte_def Let_def of_char_of)

lemma lower_byte_idem [simp]: "lower_byte (lower_byte c) = lower_byte c"
  by (subst (1) lower_byte_def) (auto simp: Let_def of_char_lower_byte split: if_splits)

lemma to_ascii_lowercase_idem [simp]: "to_ascii_lowercase (to_ascii_lowercase s) = to_ascii_lowercase s"
  by (simp add: to_ascii_lowercase_def)

lemma to_ascii_lowercase_append [simp]:
  "to_ascii_lowercase (a @ b) = to_ascii_lowercase a @ to_ascii_lowercase b"
  by (simp add: to_ascii_lowercase_def)

lemma to_ascii_lowercase_Nil_iff [simp]: "to_ascii_lowercase s = [] \<longleftrightarrow> s = []"
  by (simp add: to_ascii_lowercase_def)

lemma length_to_ascii_lowercase [simp]: "length (to_ascii_lowercase s) = length s"
  by (simp add: to_ascii_lowercase_def)

lemma eq_ignore_ascii_case_refl [simp]: "eq_ignore_ascii_case a a"
  by (simp add: eq_ignore_ascii_case_def)

lemma eq_ignore_ascii_case_length: "eq_ignore_ascii_case a b \<Longrightarrow> length a = length b"
  by (metis eq_ignore_ascii_case_def length_to_ascii_lowercase)

lemma trim_end_char_last: "trim_end_char c s = [] \<or> last (trim_end_char c s) \<noteq> c"
proof (cases "dropWhile (\<lambda>x. x = c) (rev s)")
  case Nil
  then show ?thesis by (simp add: trim_end_char_def)
next
  case (Cons y ys)
  then have "y \<noteq> c"
    using hd_dropWhile [of "\<lambda>x. x = c" "rev s"] by force
  with Cons show ?thesis by (simp add: trim_end_char_def)
qed

lemma trim_end_char_id: "s = [] \<or> last s \<noteq> c \<Longrightarrow> trim_end_char c s = s"
  by (cases s rule: rev_cases) (auto simp: trim_end_char_def)

lemma trim_end_char_idem [simp]: "trim_end_char c (trim_end_char c s) = trim_end_char c s"
  by (rule trim_end_char_id) (rule trim_end_char_last)

lemma trim_end_char_snoc [simp]: "trim_end_char c (s @ [c]) = trim_end_char c s"
  by (simp add: trim_end_char_def)

lemma position_Some_iff:
  "position p xs = Some i \<longleftrightarrow> i < length xs \<and> p (xs ! i) \<and> (\<forall>j < i. \<not> p (xs ! j))"
proof (induction xs arbitrary: i)
  case Nil
  then show ?case by simp
next
  case (Cons x xs)
  then show ?case by (cases i) (auto simp: All_less_Suc2)
qed

lemma position_None_iff: "position p xs = None \<longleftrightarrow> (\<forall>x \<in> set xs. \<not> p x)"
  by (induction xs) auto

section \<open>UTF-8 validity\<close>

text \<open>
  \<^verbatim>\<open>std::str::from_utf8\<close> succeeds exactly on the well-formed UTF-8 byte sequences
  (no overlong forms, no surrogates, nothing above U+10FFFF).
\<close>

definition utf8_cont :: "int \<Rightarrow> bool" where
  "utf8_cont b \<longleftrightarrow> 128 \<le> b \<and> b \<le> 191"

fun utf8_ok :: "int list \<Rightarrow> bool" where
  "utf8_ok [] = True"
| "utf8_ok (b # bs) =
     (if b < 128 then utf8_ok bs
      else if 194 \<le> b \<and> b \<le> 223 then
        (case bs of c # r \<Rightarrow> utf8_cont c \<and> utf8_ok r | _ \<Rightarrow> False)
      else if 224 \<le> b \<and> b \<le> 239 then
        (case bs of c # d # r \<Rightarrow>
           (if b = 224 then 160 \<le> c \<and> c \<le> 191
            else if b = 237 then 128 \<le> c \<and> c \<le> 159 else utf8_cont c)
           \<and> utf8_cont d \<and> utf8_ok r
         | _ \<Rightarrow> False)
      else if 240 \<le> b \<and> b \<le> 244 then
        (case bs of c # d # e # r \<Rightarrow>
           (if b = 240 then 144 \<le> c \<and> c \<le> 191
            else if b = 244 then 128 \<le> c \<and> c \<le> 143 else utf8_cont c)
           \<and> utf8_cont d \<and> utf8_cont e \<and> utf8_ok r
         | _ \<Rightarrow> False)
      else False)"

definition from_utf8 :: "bytes \<Rightarrow> bytes option" where
  "from_utf8 s = (if utf8_ok (map of_char s) then Some s else None)"

lemma from_utf8_Some [simp]: "from_utf8 s = Some t \<longleftrightarrow> t = s \<and> utf8_ok (map of_char s)"
  by (auto simp: from_utf8_def)

lemma utf8_ok_ascii: "(\<And>b. b \<in> set bs \<Longrightarrow> b < 128) \<Longrightarrow> utf8_ok bs"
  by (induction bs) auto

lemma snd_eqD: "snd p = b \<Longrightarrow> p = (fst p, b)"
  by (cases p) simp

end
