(* ===== verification/Net_Addr.thy ===== *)
theory Net_Addr
  imports Prelude
begin

text \<open>
  The address types of \<^verbatim>\<open>std::net\<close> the bridge uses: \<^verbatim>\<open>IpAddr\<close> and \<^verbatim>\<open>SocketAddr\<close>, the
  IPv4-mapped view of an IPv6 address, and the textual parser behind
  \<^verbatim>\<open>IpAddr::from_str\<close>. This is the standard library, so it is modelled here and has no
  counterpart under src/.
\<close>

section \<open>Addresses\<close>

type_synonym ipv4 = "32 word"
type_synonym ipv6 = "128 word"

datatype ip_addr = V4 ipv4 | V6 ipv6

record socket_addr =
  sa_ip :: ip_addr
  sa_port :: u16

definition is_ipv6 :: "socket_addr \<Rightarrow> bool" where
  "is_ipv6 a = (case sa_ip a of V6 _ \<Rightarrow> True | V4 _ \<Rightarrow> False)"

text \<open>\<^verbatim>\<open>Ipv6Addr::to_ipv4_mapped\<close>: \<^verbatim>\<open>::ffff:a.b.c.d\<close> only.\<close>

definition to_ipv4_mapped :: "ipv6 \<Rightarrow> ipv4 option" where
  "to_ipv4_mapped a = (if uint a div 2 ^ 32 = 65535 then Some (word_of_int (uint a mod 2 ^ 32)) else None)"

definition ipv4_mapped :: "ipv4 \<Rightarrow> ipv6" where
  "ipv4_mapped a = word_of_int (65535 * 2 ^ 32 + uint a)"

lemma uint_ipv4_less [simp]: "uint (a :: ipv4) < 4294967296"
  using uint_lt2p [of a] by simp

lemma uint_ipv4_mapped: "uint (ipv4_mapped a) = 281470681743360 + uint a"
proof -
  have b: "uint a < 4294967296" "0 \<le> uint a" by simp_all
  have "uint (ipv4_mapped a) = (65535 * 2 ^ 32 + uint a) mod 2 ^ LENGTH(128)"
    unfolding ipv4_mapped_def by (rule uint_word_of_int)
  also have "\<dots> = 65535 * 2 ^ 32 + uint a"
  proof (rule mod_pos_pos_trivial)
    show "65535 * 2 ^ 32 + uint a < 2 ^ LENGTH(128)"
      by (rule order_less_trans [of _ "281474976710656"]) (use b in simp_all)
  qed simp
  finally show ?thesis by simp
qed

lemma to_ipv4_mapped_ipv4_mapped [simp]: "to_ipv4_mapped (ipv4_mapped a) = Some a"
proof -
  have e: "uint (ipv4_mapped a) = uint a + 65535 * 4294967296"
    by (simp add: uint_ipv4_mapped)
  have q: "(uint a + 65535 * 4294967296) div 4294967296 = 65535"
    by (subst div_mult_self1) (simp_all add: div_pos_pos_trivial)
  have r: "(uint a + 65535 * 4294967296) mod 4294967296 = uint a"
    by (subst mod_mult_self1) (simp add: mod_pos_pos_trivial)
  show ?thesis
    unfolding to_ipv4_mapped_def e using q r by simp
qed

lemma to_ipv4_mapped_Some: "to_ipv4_mapped v = Some a \<longleftrightarrow> v = ipv4_mapped a"
proof
  assume L: "to_ipv4_mapped v = Some a"
  then have q: "uint v div 4294967296 = 65535" and a: "a = word_of_int (uint v mod 4294967296)"
    by (simp_all add: to_ipv4_mapped_def split: if_splits)
  have "uint a = uint v mod 4294967296"
    unfolding a by (simp add: uint_word_of_int)
  with q have "uint v = uint (ipv4_mapped a)"
    using div_mult_mod_eq [of "uint v" 4294967296] by (simp add: uint_ipv4_mapped)
  then show "v = ipv4_mapped a" by (simp only: word_uint_eq_iff)
qed simp

lemma ipv4_mapped_inj [simp]: "ipv4_mapped a = ipv4_mapped b \<longleftrightarrow> a = b"
  by (metis option.inject to_ipv4_mapped_ipv4_mapped)

section \<open>Parsing an address literal\<close>

text \<open>
  The recursive-descent parser of \<^verbatim>\<open>core::net::parser\<close>. Every reader takes the remaining
  input and gives the value with the rest, or \<open>None\<close> with the input untouched
  (\<^verbatim>\<open>read_atomically\<close>).
\<close>

definition digit_of :: "int \<Rightarrow> char \<Rightarrow> int option" where
  "digit_of radix c =
     (let n = of_char c :: int;
          d = (if 48 \<le> n \<and> n \<le> 57 then n - 48
               else if 97 \<le> n \<and> n \<le> 122 then n - 87
               else if 65 \<le> n \<and> n \<le> 90 then n - 55 else 36)
      in if d < radix then Some d else None)"

fun read_digits :: "int \<Rightarrow> nat \<Rightarrow> nat \<Rightarrow> int \<Rightarrow> bytes \<Rightarrow> (int \<times> nat \<times> bytes) option" where
  "read_digits radix max_digits count acc [] = Some (acc, count, [])"
| "read_digits radix max_digits count acc (c # cs) =
     (case digit_of radix c of
        None \<Rightarrow> Some (acc, count, c # cs)
      | Some d \<Rightarrow>
          if Suc count > max_digits then None
          else read_digits radix max_digits (Suc count) (acc * radix + d) cs)"

definition read_number :: "int \<Rightarrow> nat \<Rightarrow> bool \<Rightarrow> int \<Rightarrow> bytes \<Rightarrow> (int \<times> bytes) option" where
  "read_number radix max_digits allow_zero_prefix limit s =
     (case read_digits radix max_digits 0 0 s of
        None \<Rightarrow> None
      | Some (v, count, rest) \<Rightarrow>
          if count = 0 then None
          else if \<not> allow_zero_prefix \<and> take 1 s = ''0'' \<and> count > 1 then None
          else if v < limit then Some (v, rest) else None)"

definition read_given_char :: "char \<Rightarrow> bytes \<Rightarrow> bytes option" where
  "read_given_char c s = (case s of x # xs \<Rightarrow> if x = c then Some xs else None | [] \<Rightarrow> None)"

definition read_separator :: "char \<Rightarrow> nat \<Rightarrow> (bytes \<Rightarrow> ('a \<times> bytes) option) \<Rightarrow> bytes \<Rightarrow> ('a \<times> bytes) option" where
  "read_separator sep index inner s =
     (if index > 0 then Option.bind (read_given_char sep s) inner else inner s)"

fun read_octets :: "nat \<Rightarrow> nat \<Rightarrow> bytes \<Rightarrow> (int list \<times> bytes) option" where
  "read_octets 0 i s = Some ([], s)"
| "read_octets (Suc n) i s =
     (case read_separator (CHR ''.'') i (read_number 10 3 False 256) s of
        None \<Rightarrow> None
      | Some (v, rest) \<Rightarrow> map_option (\<lambda>(vs, r). (v # vs, r)) (read_octets n (Suc i) rest))"

definition fold_be :: "int \<Rightarrow> int list \<Rightarrow> int" where
  "fold_be base vs = foldl (\<lambda>acc v. acc * base + v) 0 vs"

definition read_ipv4_addr :: "bytes \<Rightarrow> (int \<times> bytes) option" where
  "read_ipv4_addr s = map_option (\<lambda>(vs, r). (fold_be 256 vs, r)) (read_octets 4 0 s)"

text \<open>
  \<^verbatim>\<open>read_groups\<close>: up to \<open>n\<close> 16-bit groups, the first of them at index \<open>i\<close>; gives the
  groups read, whether they end in an embedded IPv4 address, and the rest.
\<close>

fun read_groups :: "nat \<Rightarrow> nat \<Rightarrow> bytes \<Rightarrow> int list \<times> bool \<times> bytes" where
  "read_groups 0 i s = ([], False, s)"
| "read_groups (Suc n) i s =
     (case (if n > 0 then read_separator (CHR '':'') i read_ipv4_addr s else None) of
        Some (v, rest) \<Rightarrow> ([v div 65536, v mod 65536], True, rest)
      | None \<Rightarrow>
          (case read_separator (CHR '':'') i (read_number 16 4 True 65536) s of
             None \<Rightarrow> ([], False, s)
           | Some (g, rest) \<Rightarrow>
               (let (gs, v4, r) = read_groups n (Suc i) rest in (g # gs, v4, r))))"

definition read_ipv6_addr :: "bytes \<Rightarrow> (int \<times> bytes) option" where
  "read_ipv6_addr s =
     (let (head, head_ipv4, rest) = read_groups 8 0 s in
      if length head = 8 then Some (fold_be 65536 head, rest)
      else if head_ipv4 then None
      else
        (case Option.bind (read_given_char (CHR '':'') rest) (read_given_char (CHR '':'')) of
           None \<Rightarrow> None
         | Some rest2 \<Rightarrow>
             (let (tail, _, rest3) = read_groups (8 - (length head + 1)) 0 rest2 in
              Some (fold_be 65536 (head @ replicate (8 - length head - length tail) 0 @ tail), rest3))))"

definition ip_addr_from_str :: "bytes \<Rightarrow> ip_addr option" where
  "ip_addr_from_str s =
     (case (case read_ipv4_addr s of
              Some (v, r) \<Rightarrow> Some (V4 (word_of_int v), r)
            | None \<Rightarrow> map_option (\<lambda>(v, r). (V6 (word_of_int v), r)) (read_ipv6_addr s)) of
        Some (a, []) \<Rightarrow> Some a
      | _ \<Rightarrow> None)"

lemma ip_addr_from_str_Nil [simp]: "ip_addr_from_str [] = None"
  by code_simp

end
