(* ===== verification/Filter_Engine.thy ===== *)
theory Filter_Engine
  imports Net_Addr
begin

text \<open>
  The filter engine of the bridge, crates/bridge/src/filter: the compiled matchers
  (matcher.rs), the rule set (rules.rs) and the decision loop (engine.rs), with the
  rule types of crates/common/src/config.rs.

  Three third-party crates are parameters, gathered in \<open>filter_deps\<close>: \<^verbatim>\<open>idna\<close>
  (\<^verbatim>\<open>domain_to_ascii\<close>), \<^verbatim>\<open>regex\<close> (\<^verbatim>\<open>Regex::new\<close>, \<^verbatim>\<open>is_match\<close>) and \<^verbatim>\<open>ipnet\<close>
  (\<^verbatim>\<open>IpNet::from_str\<close>, \<^verbatim>\<open>trunc\<close>, \<^verbatim>\<open>contains\<close>). The text of a \<^verbatim>\<open>CompileError\<close> is represented
  by the place it comes from: one constructor per message, with the payload the message
  prints.
\<close>

section \<open>Rules as the user writes them\<close>

datatype match_type = Exactly | WithSubdomains | Wildcard | Subnet

datatype filter_action = Proxy | Bypass | Block

record filter_rule =
  address :: string
  matching :: match_type
  fr_action :: filter_action

record ('re, 'net) filter_deps =
  idna_to_ascii :: "string \<Rightarrow> (string, string) result"
  regex_new :: "string \<Rightarrow> (string, 're) result"
  regex_is_match :: "'re \<Rightarrow> string \<Rightarrow> bool"
  ipnet_from_str :: "string \<Rightarrow> (string, 'net) result"
  ipnet_trunc :: "'net \<Rightarrow> 'net"
  ipnet_contains :: "'net \<Rightarrow> ip_addr \<Rightarrow> bool"

section \<open>Matchers\<close>

datatype compile_error =
    NotACidr string
  | EmptyAddress
  | SubdomainsOfIp
  | InvalidWildcard string
  | EmptyDomain
  | NotADomain string
  | IdnaFailed string

datatype ('re, 'net) matcher =
    ExactDomain string
  | SubdomainDomain string
  | WildcardDomain 're
  | ExactIp ip_addr
  | SubnetIp 'net

datatype l4_proto = Tcp | Udp

record conn_info =
  ci_dst :: socket_addr
  ci_domain :: "string option"
  ci_proto :: l4_proto

definition canonicalize_ip :: "ip_addr \<Rightarrow> ip_addr" where
  "canonicalize_ip ip =
     (case ip of
        V6 v6 \<Rightarrow> (case to_ipv4_mapped v6 of Some v4 \<Rightarrow> V4 v4 | None \<Rightarrow> ip)
      | V4 _ \<Rightarrow> ip)"

definition canonicalize_domain :: "('re, 'net) filter_deps \<Rightarrow> string \<Rightarrow> (compile_error, string) result" where
  "canonicalize_domain D input =
     (let trimmed = trim_end_char (CHR ''.'') input in
      if trimmed = [] then Err EmptyDomain
      else if CHR '' '' \<in> set trimmed \<or> CHR 0x09 \<in> set trimmed then Err (NotADomain input)
      else
        (case idna_to_ascii D trimmed of
           Err e \<Rightarrow> Err (IdnaFailed e)
         | Ok ascii \<Rightarrow> if ascii = [] then Err (NotADomain input) else Ok ascii))"

definition canonicalize_for_match :: "('re, 'net) filter_deps \<Rightarrow> string \<Rightarrow> string" where
  "canonicalize_for_match D domain =
     (let trimmed = trim_end_char (CHR ''.'') domain in
      if trimmed = [] then []
      else
        (case idna_to_ascii D trimmed of
           Ok ascii \<Rightarrow> if ascii \<noteq> [] then ascii else to_ascii_lowercase trimmed
         | Err _ \<Rightarrow> to_ascii_lowercase trimmed))"

definition domain_matches_with_subdomains :: "string \<Rightarrow> string \<Rightarrow> bool" where
  "domain_matches_with_subdomains got want =
     (if eq_ignore_ascii_case got want then True
      else if length got \<le> length want + 1 then False
      else
        (let suffix_start = length got - length want in
         if got ! (suffix_start - 1) \<noteq> CHR ''.'' then False
         else eq_ignore_ascii_case (drop suffix_start got) want))"

definition regex_metachars :: string where
  "regex_metachars = ''.+()|[]{}^$'' @ [CHR 0x5C]"

fun glob_char :: "char \<Rightarrow> string" where
  "glob_char c =
     (if c = CHR ''*'' then ''.*''
      else if c = CHR ''?'' then ''.''
      else if c \<in> set regex_metachars then [CHR 0x5C, c]
      else [c])"

definition glob_to_regex :: "string \<Rightarrow> string" where
  "glob_to_regex glob = ''(?i)^'' @ concat (map glob_char glob) @ ''$''"

definition parse_subnet :: "('re, 'net) filter_deps \<Rightarrow> string \<Rightarrow> (compile_error, ('re, 'net) matcher) result" where
  "parse_subnet D addr =
     (case ipnet_from_str D addr of
        Err e \<Rightarrow> Err (NotACidr e)
      | Ok net \<Rightarrow> Ok (SubnetIp (ipnet_trunc D net)))"

definition parse_exact :: "('re, 'net) filter_deps \<Rightarrow> string \<Rightarrow> (compile_error, ('re, 'net) matcher) result" where
  "parse_exact D addr =
     (if addr = [] then Err EmptyAddress
      else
        (case ip_addr_from_str addr of
           Some ip \<Rightarrow> Ok (ExactIp (canonicalize_ip ip))
         | None \<Rightarrow> map_ok ExactDomain (canonicalize_domain D addr)))"

definition parse_with_subdomains :: "('re, 'net) filter_deps \<Rightarrow> string \<Rightarrow> (compile_error, ('re, 'net) matcher) result" where
  "parse_with_subdomains D addr =
     (if addr = [] then Err EmptyAddress
      else if ip_addr_from_str addr \<noteq> None then Err SubdomainsOfIp
      else map_ok SubdomainDomain (canonicalize_domain D addr))"

definition parse_wildcard :: "('re, 'net) filter_deps \<Rightarrow> string \<Rightarrow> (compile_error, ('re, 'net) matcher) result" where
  "parse_wildcard D addr =
     (if addr = [] then Err EmptyAddress
      else
        (case regex_new D (glob_to_regex addr) of
           Err e \<Rightarrow> Err (InvalidWildcard e)
         | Ok re \<Rightarrow> Ok (WildcardDomain re)))"

definition matcher_compile :: "('re, 'net) filter_deps \<Rightarrow> string \<Rightarrow> match_type \<Rightarrow> (compile_error, ('re, 'net) matcher) result" where
  "matcher_compile D addr m =
     (case m of
        Subnet \<Rightarrow> parse_subnet D addr
      | Exactly \<Rightarrow> parse_exact D addr
      | WithSubdomains \<Rightarrow> parse_with_subdomains D addr
      | Wildcard \<Rightarrow> parse_wildcard D addr)"

definition matches :: "('re, 'net) filter_deps \<Rightarrow> ('re, 'net) matcher \<Rightarrow> conn_info \<Rightarrow> bool" where
  "matches D m conn =
     (case m of
        ExactDomain want \<Rightarrow>
          (case ci_domain conn of None \<Rightarrow> False
           | Some got \<Rightarrow> canonicalize_for_match D got = want)
      | SubdomainDomain want \<Rightarrow>
          (case ci_domain conn of None \<Rightarrow> False
           | Some got \<Rightarrow> domain_matches_with_subdomains (canonicalize_for_match D got) want)
      | WildcardDomain re \<Rightarrow>
          (case ci_domain conn of None \<Rightarrow> False
           | Some got \<Rightarrow> regex_is_match D re (canonicalize_for_match D got))
      | ExactIp want \<Rightarrow> canonicalize_ip (sa_ip (ci_dst conn)) = want
      | SubnetIp net \<Rightarrow> ipnet_contains D net (canonicalize_ip (sa_ip (ci_dst conn))))"

definition is_domain :: "('re, 'net) matcher \<Rightarrow> bool" where
  "is_domain m =
     (case m of
        ExactDomain _ \<Rightarrow> True | SubdomainDomain _ \<Rightarrow> True | WildcardDomain _ \<Rightarrow> True
      | _ \<Rightarrow> False)"

section \<open>Rule sets\<close>

record ('re, 'net) compiled_rule =
  cr_matcher :: "('re, 'net) matcher"
  cr_action :: filter_action
  original_index :: nat

record invalid_filter =
  if_index :: u32
  if_error :: compile_error

record ('re, 'net) rule_set =
  rules :: "('re, 'net) compiled_rule list"
  has_domain_rules :: bool
  dropped :: "invalid_filter list"

text \<open>The loop of \<^verbatim>\<open>from_user_rules\<close>, from position \<open>i\<close> on.\<close>

fun compile_rules ::
  "('re, 'net) filter_deps \<Rightarrow> nat \<Rightarrow> filter_rule list \<Rightarrow> ('re, 'net) compiled_rule list \<times> invalid_filter list" where
  "compile_rules D i [] = ([], [])"
| "compile_rules D i (r # rs) =
     (let (compiled, bad) = compile_rules D (Suc i) rs in
      case matcher_compile D (address r) (matching r) of
        Ok m \<Rightarrow> (\<lparr>cr_matcher = m, cr_action = fr_action r, original_index = i\<rparr> # compiled, bad)
      | Err e \<Rightarrow> (compiled, \<lparr>if_index = clamp_u32 i, if_error = e\<rparr> # bad))"

definition from_user_rules :: "('re, 'net) filter_deps \<Rightarrow> filter_rule list \<Rightarrow> ('re, 'net) rule_set" where
  "from_user_rules D rs =
     (let (compiled, bad) = compile_rules D 0 rs in
      \<lparr>rules = compiled,
       has_domain_rules = list_ex (\<lambda>r. is_domain (cr_matcher r)) compiled,
       dropped = bad\<rparr>)"

section \<open>The decision loop\<close>

record decision =
  d_action :: filter_action
  rule_index :: "nat option"

fun scan_first ::
  "(('re, 'net) compiled_rule \<Rightarrow> bool) \<Rightarrow> ('re, 'net) compiled_rule list \<Rightarrow> decision" where
  "scan_first pred [] = \<lparr>d_action = Proxy, rule_index = None\<rparr>"
| "scan_first pred (r # rs) =
     (if pred r then \<lparr>d_action = cr_action r, rule_index = Some (original_index r)\<rparr>
      else scan_first pred rs)"

definition first_match :: "('re, 'net) rule_set \<Rightarrow> (('re, 'net) compiled_rule \<Rightarrow> bool) \<Rightarrow> decision" where
  "first_match rs pred = scan_first pred (rev (rules rs))"

definition decide :: "('re, 'net) filter_deps \<Rightarrow> ('re, 'net) rule_set \<Rightarrow> conn_info \<Rightarrow> decision" where
  "decide D rs conn = first_match rs (\<lambda>r. matches D (cr_matcher r) conn)"

datatype test_input = TestDomain string | TestIp ip_addr

definition decide_test :: "('re, 'net) filter_deps \<Rightarrow> ('re, 'net) rule_set \<Rightarrow> test_input \<Rightarrow> decision" where
  "decide_test D rs input =
     (case input of
        TestIp a \<Rightarrow>
          (let conn = \<lparr>ci_dst = \<lparr>sa_ip = a, sa_port = 0\<rparr>, ci_domain = None, ci_proto = Tcp\<rparr>
           in first_match rs (\<lambda>r. matches D (cr_matcher r) conn))
      | TestDomain name \<Rightarrow>
          (let conn = \<lparr>ci_dst = \<lparr>sa_ip = V4 0, sa_port = 0\<rparr>, ci_domain = Some name, ci_proto = Tcp\<rparr>
           in first_match rs (\<lambda>r. is_domain (cr_matcher r) \<and> matches D (cr_matcher r) conn)))"


section \<open>Lemmas on the matchers\<close>

lemma canonicalize_ip_idem [simp]: "canonicalize_ip (canonicalize_ip a) = canonicalize_ip a"
  by (auto simp: canonicalize_ip_def split: ip_addr.splits option.splits)

lemma canonicalize_ip_V4 [simp]: "canonicalize_ip (V4 a) = V4 a"
  by (simp add: canonicalize_ip_def)

lemma canonicalize_ip_mapped [simp]: "canonicalize_ip (V6 (ipv4_mapped a)) = V4 a"
  by (simp add: canonicalize_ip_def)

lemma matches_ip_only:
  "\<not> is_domain m \<Longrightarrow> sa_ip (ci_dst c) = sa_ip (ci_dst c') \<Longrightarrow> matches D m c = matches D m c'"
  by (auto simp: is_domain_def matches_def split: matcher.splits)

lemma matches_domain_only:
  "is_domain m \<Longrightarrow> ci_domain c = ci_domain c' \<Longrightarrow> matches D m c = matches D m c'"
  by (auto simp: is_domain_def matches_def split: matcher.splits)

lemma matches_no_domain: "is_domain m \<Longrightarrow> ci_domain c = None \<Longrightarrow> \<not> matches D m c"
  by (auto simp: is_domain_def matches_def split: matcher.splits)

lemma drop_eq_split: "k \<le> length xs \<Longrightarrow> drop k xs = ys \<longleftrightarrow> (\<exists>p. xs = p @ ys \<and> length p = k)"
  by (metis append_eq_conv_conj append_take_drop_id length_take min.absorb2)

lemma suffix_split:
  assumes "length want + 1 < length got" "got ! (length got - length want - 1) = c"
  shows "\<exists>p. got = p @ [c] @ drop (length got - length want) got \<and> p \<noteq> []"
proof -
  let ?k = "length got - length want"
  have k: "?k - 1 < length got" "0 < ?k - 1" "?k = Suc (?k - 1)" using assms(1) by auto
  then have "got = take (?k - 1) got @ got ! (?k - 1) # drop ?k got"
    using id_take_nth_drop [OF k(1)] by metis
  moreover have "take (?k - 1) got \<noteq> []" using k by auto
  ultimately show ?thesis using assms(2) by (metis append_Cons append_Nil)
qed

section \<open>Lemmas on the scan\<close>

lemma scan_first_none: "(\<And>r. r \<in> set rs \<Longrightarrow> \<not> pred r) \<Longrightarrow> scan_first pred rs = \<lparr>d_action = Proxy, rule_index = None\<rparr>"
  by (induction rs) auto

lemma scan_first_append:
  "scan_first pred (xs @ ys) =
     (if \<exists>r \<in> set xs. pred r then scan_first pred xs else scan_first pred ys)"
  by (induction xs) auto

lemma scan_first_cong:
  "(\<And>r. r \<in> set rs \<Longrightarrow> pred r = pred' r) \<Longrightarrow> scan_first pred rs = scan_first pred' rs"
  by (induction rs) auto

lemma scan_first_filter: "scan_first (\<lambda>r. p r \<and> q r) rs = scan_first q (filter p rs)"
  by (induction rs) auto

lemma scan_first_hit:
  "\<exists>r \<in> set rs. pred r \<Longrightarrow>
   \<exists>pre r post. rs = pre @ r # post \<and> pred r \<and> (\<forall>x \<in> set pre. \<not> pred x) \<and>
     scan_first pred rs = \<lparr>d_action = cr_action r, rule_index = Some (original_index r)\<rparr>"
proof (induction rs)
  case Nil
  then show ?case by simp
next
  case (Cons a rs)
  show ?case
  proof (cases "pred a")
    case True
    then show ?thesis by (intro exI [of _ "[]"] exI [of _ a] exI [of _ rs]) simp
  next
    case False
    with Cons obtain pre r post where "rs = pre @ r # post" "pred r" "\<forall>x \<in> set pre. \<not> pred x"
      "scan_first pred rs = \<lparr>d_action = cr_action r, rule_index = Some (original_index r)\<rparr>"
      by auto
    with False show ?thesis
      by (intro exI [of _ "a # pre"] exI [of _ r] exI [of _ post]) simp
  qed
qed

lemma first_match_cong:
  "(\<And>r. r \<in> set (rules rs) \<Longrightarrow> pred r = pred' r) \<Longrightarrow> first_match rs pred = first_match rs pred'"
  unfolding first_match_def by (rule scan_first_cong) simp

lemma first_match_hit:
  assumes "r \<in> set (rules rs)" "pred r"
  shows "\<exists>pre r post. rules rs = pre @ r # post \<and> pred r \<and> (\<forall>x \<in> set post. \<not> pred x) \<and>
     first_match rs pred = \<lparr>d_action = cr_action r, rule_index = Some (original_index r)\<rparr>"
proof -
  from assms have "\<exists>r \<in> set (rev (rules rs)). pred r" by auto
  from scan_first_hit [OF this] obtain pre r post where
    s: "rev (rules rs) = pre @ r # post" "pred r" "\<forall>x \<in> set pre. \<not> pred x"
      "scan_first pred (rev (rules rs)) = \<lparr>d_action = cr_action r, rule_index = Some (original_index r)\<rparr>"
    by blast
  from s(1) have "rules rs = rev post @ r # rev pre"
    by (metis append_assoc append_Cons append_Nil rev_append rev_rev_ident rev.simps(2))
  with s show ?thesis
    by (intro exI [of _ "rev post"] exI [of _ r] exI [of _ "rev pre"]) (simp add: first_match_def)
qed

lemma first_match_none:
  "(\<And>r. r \<in> set (rules rs) \<Longrightarrow> \<not> pred r) \<Longrightarrow> first_match rs pred = \<lparr>d_action = Proxy, rule_index = None\<rparr>"
  unfolding first_match_def by (rule scan_first_none) simp

lemma first_match_cases:
  obtains (none) "\<forall>r \<in> set (rules rs). \<not> pred r" "first_match rs pred = \<lparr>d_action = Proxy, rule_index = None\<rparr>"
  | (hit) pre r post where "rules rs = pre @ r # post" "pred r" "\<forall>x \<in> set post. \<not> pred x"
      "first_match rs pred = \<lparr>d_action = cr_action r, rule_index = Some (original_index r)\<rparr>"
proof (cases "\<exists>r \<in> set (rules rs). pred r")
  case True
  with first_match_hit [of _ rs pred] hit show ?thesis by metis
next
  case False
  with first_match_none [of rs pred] none show ?thesis by blast
qed

section \<open>Lemmas on compilation\<close>

text \<open>The compiled rules and the dropped ones, as comprehensions over the positions of the list.\<close>

lemma compile_rules_fst:
  "fst (compile_rules D i rs) =
     map (\<lambda>(k, r). \<lparr>cr_matcher = projr (matcher_compile D (address r) (matching r)),
                    cr_action = fr_action r, original_index = k\<rparr>)
       (filter (\<lambda>(k, r). \<not> isl (matcher_compile D (address r) (matching r)))
         (zip [i..<i + length rs] rs))"
proof (induction rs arbitrary: i)
  case Nil
  then show ?case by simp
next
  case (Cons r rs)
  have z: "zip [i..<i + length (r # rs)] (r # rs) = (i, r) # zip [Suc i..<Suc i + length rs] rs"
    by (simp add: upt_rec [of i] Suc_le_eq)
  show ?case
    unfolding z using Cons.IH [of "Suc i"]
    by (cases "matcher_compile D (address r) (matching r)"; cases "compile_rules D (Suc i) rs")
       (simp_all del: upt_Suc)
qed

lemma compile_rules_snd:
  "snd (compile_rules D i rs) =
     map (\<lambda>(k, r). \<lparr>if_index = clamp_u32 k, if_error = projl (matcher_compile D (address r) (matching r))\<rparr>)
       (filter (\<lambda>(k, r). isl (matcher_compile D (address r) (matching r)))
         (zip [i..<i + length rs] rs))"
proof (induction rs arbitrary: i)
  case Nil
  then show ?case by simp
next
  case (Cons r rs)
  have z: "zip [i..<i + length (r # rs)] (r # rs) = (i, r) # zip [Suc i..<Suc i + length rs] rs"
    by (simp add: upt_rec [of i] Suc_le_eq)
  show ?case
    unfolding z using Cons.IH [of "Suc i"]
    by (cases "matcher_compile D (address r) (matching r)"; cases "compile_rules D (Suc i) rs")
       (simp_all del: upt_Suc)
qed

lemma from_user_rules_sel:
  "rules (from_user_rules D us) = fst (compile_rules D 0 us)"
  "dropped (from_user_rules D us) = snd (compile_rules D 0 us)"
  "has_domain_rules (from_user_rules D us) \<longleftrightarrow> (\<exists>r \<in> set (rules (from_user_rules D us)). is_domain (cr_matcher r))"
  by (simp_all add: from_user_rules_def list_ex_iff split: prod.splits)

lemma set_zip_upt: "(k, r) \<in> set (zip [0..<length us] us) \<longleftrightarrow> k < length us \<and> r = us ! k"
  by (force simp: set_zip)

lemma compiled_rule_iff:
  "r \<in> set (rules (from_user_rules D us)) \<longleftrightarrow>
     (original_index r < length us \<and>
      matcher_compile D (address (us ! original_index r)) (matching (us ! original_index r)) = Ok (cr_matcher r) \<and>
      cr_action r = fr_action (us ! original_index r) \<and>
      r = \<lparr>cr_matcher = cr_matcher r, cr_action = cr_action r, original_index = original_index r\<rparr>)"
  (is "?L \<longleftrightarrow> ?R")
proof
  assume ?L
  then show ?R
    by (auto simp: from_user_rules_sel compile_rules_fst set_zip_upt)
next
  assume R: ?R
  then have "(original_index r, us ! original_index r) \<in> set (zip [0..<length us] us)"
    by (simp add: set_zip_upt)
  with R show ?L
    by (force simp: from_user_rules_sel compile_rules_fst intro!: image_eqI [where x = "(original_index r, us ! original_index r)"])
qed

lemma zip_upt_map: "zip [0..<length us] us = map (\<lambda>i. (i, us ! i)) [0..<length us]"
  by (rule nth_equalityI) auto

lemma scan_first_map_filter:
  "scan_first pred (map f (filter good xs)) =
     (case filter (\<lambda>x. good x \<and> pred (f x)) xs of
        [] \<Rightarrow> \<lparr>d_action = Proxy, rule_index = None\<rparr>
      | x # _ \<Rightarrow> \<lparr>d_action = cr_action (f x), rule_index = Some (original_index (f x))\<rparr>)"
  by (induction xs) auto

section \<open>What a rule list means\<close>

text \<open>How one rule of the user compiles.\<close>

abbreviation compile_user :: "('re, 'net) filter_deps \<Rightarrow> filter_rule \<Rightarrow> (compile_error, ('re, 'net) matcher) result" where
  "compile_user D r \<equiv> matcher_compile D (address r) (matching r)"


text \<open>
  The meaning of a user's list, with no rule set in between: rule \<open>i\<close> applies to a
  connection when it compiles and its matcher matches, and the highest such \<open>i\<close> decides.
\<close>

definition rule_applies :: "('re, 'net) filter_deps \<Rightarrow> filter_rule list \<Rightarrow> conn_info \<Rightarrow> nat \<Rightarrow> bool" where
  "rule_applies D us conn i \<longleftrightarrow>
     (case compile_user D (us ! i) of
        Ok m \<Rightarrow> matches D m conn
      | Err _ \<Rightarrow> False)"

definition spec_decide :: "('re, 'net) filter_deps \<Rightarrow> filter_rule list \<Rightarrow> conn_info \<Rightarrow> decision" where
  "spec_decide D us conn =
     (case filter (rule_applies D us conn) (rev [0..<length us]) of
        [] \<Rightarrow> \<lparr>d_action = Proxy, rule_index = None\<rparr>
      | i # _ \<Rightarrow> \<lparr>d_action = fr_action (us ! i), rule_index = Some i\<rparr>)"

lemma rule_applies_alt:
  "rule_applies D us conn i \<longleftrightarrow>
     \<not> isl (compile_user D (us ! i)) \<and>
     matches D (projr (compile_user D (us ! i))) conn"
  by (simp add: rule_applies_def split: sum.splits)

lemma rules_from_user_rules:
  "rules (from_user_rules D us) =
     map (\<lambda>i. \<lparr>cr_matcher = projr (compile_user D (us ! i)),
               cr_action = fr_action (us ! i), original_index = i\<rparr>)
       (filter (\<lambda>i. \<not> isl (compile_user D (us ! i))) [0..<length us])"
  by (simp add: from_user_rules_sel compile_rules_fst zip_upt_map filter_map comp_def)

lemma dropped_from_user_rules:
  "dropped (from_user_rules D us) =
     map (\<lambda>i. \<lparr>if_index = clamp_u32 i,
               if_error = projl (compile_user D (us ! i))\<rparr>)
       (filter (\<lambda>i. isl (compile_user D (us ! i))) [0..<length us])"
  by (simp add: from_user_rules_sel compile_rules_snd zip_upt_map filter_map comp_def)

lemma unat_clamp_u32: "i \<le> u32_max \<Longrightarrow> unat (clamp_u32 i) = i"
  by (simp add: clamp_u32_def u32_max_def unat_of_nat)

text \<open>
  The contract the router relies on: a decision names a rule that applies, with its
  action, or is the proxy fallback when none does.
\<close>

locale decision_source =
  fixes decide_on :: "'rs \<Rightarrow> conn_info \<Rightarrow> decision"
    and applies :: "'rs \<Rightarrow> conn_info \<Rightarrow> nat \<Rightarrow> filter_action \<Rightarrow> bool"
  assumes named: "rule_index (decide_on rs c) = Some i \<Longrightarrow> applies rs c i (d_action (decide_on rs c))"
    and fallback: "rule_index (decide_on rs c) = None \<Longrightarrow> d_action (decide_on rs c) = Proxy"
    and decided: "applies rs c i a \<Longrightarrow> rule_index (decide_on rs c) \<noteq> None"
begin

lemma non_proxy_named:
  "d_action (decide_on rs c) \<noteq> Proxy \<Longrightarrow> \<exists>i. applies rs c i (d_action (decide_on rs c))"
  using named fallback by (cases "rule_index (decide_on rs c)") auto

lemma proxy_when_silent:
  "(\<And>i a. \<not> applies rs c i a) \<Longrightarrow> d_action (decide_on rs c) = Proxy \<and> rule_index (decide_on rs c) = None"
  using named fallback by (cases "rule_index (decide_on rs c)") blast+

end

text \<open>Rule \<open>i\<close> of a compiled set applies to a connection, with action \<open>a\<close>.\<close>

definition compiled_applies ::
  "('re, 'net) filter_deps \<Rightarrow> ('re, 'net) rule_set \<Rightarrow> conn_info \<Rightarrow> nat \<Rightarrow> filter_action \<Rightarrow> bool" where
  "compiled_applies D rs conn i a \<longleftrightarrow>
     (\<exists>r \<in> set (rules rs). original_index r = i \<and> cr_action r = a \<and> matches D (cr_matcher r) conn)"

interpretation engine: decision_source "decide D" "compiled_applies D"
  for D :: "('re, 'net) filter_deps"
proof (unfold_locales, goal_cases)
  case (1 rs c i)
  then show ?case
    by (cases rule: first_match_cases [of rs "\<lambda>r. matches D (cr_matcher r) c"])
       (auto simp: decide_def compiled_applies_def)
next
  case (2 rs c)
  then show ?case
    by (cases rule: first_match_cases [of rs "\<lambda>r. matches D (cr_matcher r) c"]) (simp_all add: decide_def)
next
  case (3 rs c i a)
  then show ?case
    by (cases rule: first_match_cases [of rs "\<lambda>r. matches D (cr_matcher r) c"])
       (auto simp: decide_def compiled_applies_def)
qed

section \<open>Properties\<close>

text \<open>
  C1. Last match wins, end to end. Deciding with the rule set compiled from a user's list
  gives exactly what the list means: the highest-numbered rule that compiles and matches
  decides and is reported under the user's own numbering, even when earlier rules were
  dropped as invalid; with no such rule the flow is proxied.
\<close>

theorem decide_refines_spec: "decide D (from_user_rules D us) conn = spec_decide D us conn"
  unfolding decide_def first_match_def spec_decide_def rules_from_user_rules rev_map rev_filter
  by (simp add: scan_first_map_filter rule_applies_alt [abs_def] split: list.splits)

text \<open>
  Every user rule is accounted for exactly once and in order: the compiled rules carry
  the positions of the rules that compile, the dropped list the positions of those that do
  not (in the wire's 32-bit numbering, exact while the list has at most \<open>2^32\<close> rules), and each
  entry has the matcher, the action or the error that its rule gives.
\<close>

theorem from_user_rules_partition:
  assumes "length us \<le> Suc u32_max"
  shows "map (\<lambda>r. (original_index r, cr_action r, Ok (cr_matcher r))) (rules (from_user_rules D us)) =
           map (\<lambda>i. (i, fr_action (us ! i), compile_user D (us ! i))) (filter (\<lambda>i. \<not> isl (compile_user D (us ! i))) [0..<length us])
       \<and> map (\<lambda>b. (unat (if_index b), Err (if_error b))) (dropped (from_user_rules D us)) =
           map (\<lambda>i. (i, compile_user D (us ! i))) (filter (\<lambda>i. isl (compile_user D (us ! i))) [0..<length us])"
proof
  show "map (\<lambda>r. (original_index r, cr_action r, Ok (cr_matcher r))) (rules (from_user_rules D us)) =
      map (\<lambda>i. (i, fr_action (us ! i), compile_user D (us ! i))) (filter (\<lambda>i. \<not> isl (compile_user D (us ! i))) [0..<length us])"
    by (auto simp: rules_from_user_rules sum.collapse)
  show "map (\<lambda>b. (unat (if_index b), Err (if_error b))) (dropped (from_user_rules D us)) =
      map (\<lambda>i. (i, compile_user D (us ! i))) (filter (\<lambda>i. isl (compile_user D (us ! i))) [0..<length us])"
    using assms(1) by (auto simp: dropped_from_user_rules unat_clamp_u32)
qed

text \<open>
  Suffix matching is label-aligned: a name matches a \<^verbatim>\<open>with_subdomains\<close> rule exactly when
  it equals the rule's domain or ends in a dot followed by it, up to ASCII case and with at
  least one byte before the dot, so \<^verbatim>\<open>notexample.com\<close> never matches \<^verbatim>\<open>example.com\<close>.
\<close>

theorem domain_matches_with_subdomains_iff:
  "domain_matches_with_subdomains got want \<longleftrightarrow>
     eq_ignore_ascii_case got want \<or>
     (\<exists>sub suf. sub \<noteq> [] \<and> got = sub @ ''.'' @ suf \<and> eq_ignore_ascii_case suf want)"
  (is "?L \<longleftrightarrow> ?E \<or> ?S")
proof
  assume ?L
  then show "?E \<or> ?S"
    using suffix_split [of want got "CHR ''.''"]
    by (fastforce simp: domain_matches_with_subdomains_def Let_def split: if_splits)
next
  assume "?E \<or> ?S"
  then show ?L
  proof
    assume ?E
    then show ?L by (simp add: domain_matches_with_subdomains_def)
  next
    assume ?S
    then obtain sub suf where s: "sub \<noteq> []" "got = sub @ ''.'' @ suf" "eq_ignore_ascii_case suf want"
      by blast
    then have l: "length suf = length want" by (simp add: eq_ignore_ascii_case_length)
    have n: "got ! (length got - length want - 1) = CHR ''.''" "drop (length got - length want) got = suf"
      using s(2) l by (simp_all add: nth_append)
    from s l have "length got > length want + 1" by (cases sub) simp_all
    with n s(3) show ?L by (simp add: domain_matches_with_subdomains_def Let_def)
  qed
qed

text \<open>
  The sniffer gate is sound: when a compiled rule set says it holds no domain rule, the
  decision for a flow does not depend on the domain, so not peeking at the payload changes
  nothing.
\<close>

theorem no_domain_rules_ignores_domain:
  assumes "\<not> has_domain_rules (from_user_rules D us)" "ci_dst c = ci_dst c'"
  shows "decide D (from_user_rules D us) c = decide D (from_user_rules D us) c'"
  unfolding decide_def
proof (rule first_match_cong, rule matches_ip_only)
  fix r assume "r \<in> set (rules (from_user_rules D us))"
  with assms(1) show "\<not> is_domain (cr_matcher r)" by (auto simp: from_user_rules_sel(3))
qed (simp add: assms(2))

text \<open>
  C40. The test box mirrors the tunnel. A typed IP is decided as any flow to that address with
  no recovered name, whatever its port and protocol; a typed domain as any flow with that
  name would be decided if only the domain rules were there, whatever its destination.
\<close>

theorem decide_test_mirrors_decide:
  "decide_test D rs (TestIp a) =
     decide D rs \<lparr>ci_dst = \<lparr>sa_ip = a, sa_port = p\<rparr>, ci_domain = None, ci_proto = l4\<rparr> \<and>
   decide_test D rs (TestDomain n) =
     decide D (rs\<lparr>rules := filter (\<lambda>r. is_domain (cr_matcher r)) (rules rs)\<rparr>)
       \<lparr>ci_dst = dst, ci_domain = Some n, ci_proto = l4\<rparr>"
proof
  show "decide_test D rs (TestIp a) =
     decide D rs \<lparr>ci_dst = \<lparr>sa_ip = a, sa_port = p\<rparr>, ci_domain = None, ci_proto = l4\<rparr>"
    by (simp add: decide_test_def decide_def Let_def)
       (rule first_match_cong, metis conn_info.select_convs(1,2) matches_ip_only matches_no_domain socket_addr.select_convs(1))
  have m: "matches D m \<lparr>ci_dst = d, ci_domain = Some n, ci_proto = p1\<rparr> =
      matches D m \<lparr>ci_dst = d', ci_domain = Some n, ci_proto = p2\<rparr>" if "is_domain m" for m d d' p1 p2
    by (rule matches_domain_only) (simp_all add: that)
  show "decide_test D rs (TestDomain n) =
     decide D (rs\<lparr>rules := filter (\<lambda>r. is_domain (cr_matcher r)) (rules rs)\<rparr>)
       \<lparr>ci_dst = dst, ci_domain = Some n, ci_proto = l4\<rparr>"
    by (auto simp: decide_test_def decide_def first_match_def Let_def scan_first_filter rev_filter
        intro!: scan_first_cong m)
qed

text \<open>
  An exact-address rule sees through the IPv4-mapped form on both sides: written as an
  IPv4 or as a mapped IPv6 literal it compiles to the same matcher, and it matches a flow
  to either form of the address.
\<close>

theorem exact_ip_mapped:
  assumes "ip_addr_from_str s = Some ip" "canonicalize_ip ip = V4 a"
  shows "matcher_compile D s Exactly = Ok (ExactIp (V4 a)) \<and>
    (matches D (ExactIp (V4 a)) c \<longleftrightarrow>
       sa_ip (ci_dst c) = V4 a \<or> sa_ip (ci_dst c) = V6 (ipv4_mapped a))"
proof
  have "s \<noteq> []" using assms(1) by auto
  with assms show "matcher_compile D s Exactly = Ok (ExactIp (V4 a))"
    by (simp add: matcher_compile_def parse_exact_def)
  show "matches D (ExactIp (V4 a)) c \<longleftrightarrow>
       sa_ip (ci_dst c) = V4 a \<or> sa_ip (ci_dst c) = V6 (ipv4_mapped a)"
    by (auto simp: matches_def canonicalize_ip_def to_ipv4_mapped_Some split: ip_addr.splits option.splits)
qed

section \<open>Witnesses\<close>

text \<open>
  A concrete stand-in for the third-party crates, used by the witnesses only: ASCII names
  are lowercased, a pattern is its own regex and matches equal strings, a network is a
  single address.
\<close>

definition sample_deps :: "(string, ip_addr) filter_deps" where
  "sample_deps =
     \<lparr>idna_to_ascii = (\<lambda>s. Ok (to_ascii_lowercase s)),
      regex_new = Ok,
      regex_is_match = (\<lambda>re s. re = s),
      ipnet_from_str = (\<lambda>s. case ip_addr_from_str s of Some a \<Rightarrow> Ok a | None \<Rightarrow> Err ''invalid''),
      ipnet_trunc = (\<lambda>n. n),
      ipnet_contains = (\<lambda>n a. n = a)\<rparr>"

definition sample_rules :: "filter_rule list" where
  "sample_rules =
     [\<lparr>address = ''1.2.3.4'', matching = Exactly, fr_action = Bypass\<rparr>,
      \<lparr>address = [], matching = Exactly, fr_action = Block\<rparr>]"

theorem from_user_rules_partition_witness:
  "length sample_rules \<le> Suc u32_max \<and>
   map (\<lambda>b. (unat (if_index b), Err (if_error b))) (dropped (from_user_rules sample_deps sample_rules)) =
     [(1, compile_user sample_deps (sample_rules ! 1))]"
proof
  show h: "length sample_rules \<le> Suc u32_max" by (simp add: sample_rules_def u32_max_def)
  have "filter (\<lambda>i. isl (compile_user sample_deps (sample_rules ! i))) [0..<length sample_rules] = [1]"
    by code_simp
  with from_user_rules_partition [OF h, of sample_deps]
  show "map (\<lambda>b. (unat (if_index b), Err (if_error b))) (dropped (from_user_rules sample_deps sample_rules)) =
     [(1, compile_user sample_deps (sample_rules ! 1))]"
    by simp
qed

theorem no_domain_rules_ignores_domain_witness:
  "decide sample_deps (from_user_rules sample_deps sample_rules)
     \<lparr>ci_dst = \<lparr>sa_ip = V4 16909060, sa_port = 443\<rparr>, ci_domain = Some ''a.example'', ci_proto = Tcp\<rparr> =
   decide sample_deps (from_user_rules sample_deps sample_rules)
     \<lparr>ci_dst = \<lparr>sa_ip = V4 16909060, sa_port = 443\<rparr>, ci_domain = None, ci_proto = Udp\<rparr>"
proof -
  have "\<not> has_domain_rules (from_user_rules sample_deps sample_rules)" by code_simp
  then show ?thesis by (rule no_domain_rules_ignores_domain) simp
qed

theorem exact_ip_mapped_witness:
  "matcher_compile sample_deps ''::ffff:1.2.3.4'' Exactly = Ok (ExactIp (V4 16909060)) \<and>
   matches sample_deps (ExactIp (V4 16909060))
     \<lparr>ci_dst = \<lparr>sa_ip = V6 (ipv4_mapped 16909060), sa_port = 53\<rparr>, ci_domain = None, ci_proto = Udp\<rparr>"
proof -
  have "ip_addr_from_str ''::ffff:1.2.3.4'' = Some (V6 281470698652420)" by code_simp
  moreover have "canonicalize_ip (V6 281470698652420) = V4 16909060" by code_simp
  ultimately show ?thesis
    using exact_ip_mapped [of "''::ffff:1.2.3.4''" "V6 281470698652420" 16909060 sample_deps
        "\<lparr>ci_dst = \<lparr>sa_ip = V6 (ipv4_mapped 16909060), sa_port = 53\<rparr>, ci_domain = None, ci_proto = Udp\<rparr>"]
    by simp
qed

end
