(* ===== verification/Sniffer.thy ===== *)
theory Sniffer
  imports Prelude
begin

text \<open>
  The domain sniffer, crates/bridge/src/filter/sniffer.rs and its two submodules: the HTTP
  \<^verbatim>\<open>Host\<close> header (http_host.rs) and the TLS server name (tls_sni.rs).

  The crate \<^verbatim>\<open>tls_parser\<close> is a parameter: \<open>parse_tls_plaintext\<close> gives the messages of the
  record at the head of a buffer, \<open>parse_tls_extensions\<close> the extensions of a ClientHello;
  \<open>None\<close> is a parse error.
\<close>

section \<open>HTTP Host\<close>

definition METHODS :: "bytes list" where
  "METHODS =
     [''GET '', ''POST '', ''PUT '', ''DELETE '', ''HEAD '', ''OPTIONS '', ''PATCH '', ''TRACE '', ''CONNECT '']"

definition MAX_SCAN :: nat where
  "MAX_SCAN = 4096"

abbreviation crlf :: bytes where
  "crlf \<equiv> [CHR 0x0D, CHR 0x0A]"

definition find_subslice :: "bytes \<Rightarrow> bytes \<Rightarrow> nat option" where
  "find_subslice haystack needle =
     (if needle = [] \<or> length needle > length haystack then None
      else position (\<lambda>i. take (length needle) (drop i haystack) = needle)
             [0..<length haystack - length needle + 1])"

definition is_blank :: "char \<Rightarrow> bool" where
  "is_blank c \<longleftrightarrow> c = CHR '' '' \<or> c = CHR 0x09"

definition trim_leading :: "bytes \<Rightarrow> bytes" where
  "trim_leading v = dropWhile is_blank v"

definition trim_trailing :: "bytes \<Rightarrow> bytes" where
  "trim_trailing v = rev (dropWhile (\<lambda>c. is_blank c \<or> c = CHR 0x0D) (rev v))"

definition strip_port :: "bytes \<Rightarrow> bytes option" where
  "strip_port v =
     (if take 1 v = ''['' then
        (case position (\<lambda>b. b = CHR '']'') v of
           Some close \<Rightarrow> if close \<ge> 2 then Some (take (close - 1) (drop 1 v)) else None
         | None \<Rightarrow> None)
      else
        (case position (\<lambda>b. b = CHR '':'') v of
           Some p \<Rightarrow> Some (take p v)
         | None \<Rightarrow> Some v))"

definition parse_host_line :: "bytes \<Rightarrow> bytes option" where
  "parse_host_line line =
     (case position (\<lambda>b. b = CHR '':'') line of
        None \<Rightarrow> None
      | Some colon \<Rightarrow>
          if \<not> eq_ignore_ascii_case (take colon line) ''host'' then None
          else
            (case strip_port (trim_trailing (trim_leading (drop (colon + 1) line))) of
               None \<Rightarrow> None
             | Some host_bytes \<Rightarrow>
                 if host_bytes = [] then None
                 else map_option to_ascii_lowercase (from_utf8 host_bytes)))"

lemma find_subslice_bound: "find_subslice h n = Some i \<Longrightarrow> i + length n \<le> length h"
  by (auto simp: find_subslice_def position_Some_iff split: if_splits)

text \<open>The \<^verbatim>\<open>while cursor < headers_region.len()\<close> loop of \<^verbatim>\<open>extract_host\<close>.\<close>

function host_loop :: "bytes \<Rightarrow> nat \<Rightarrow> bytes option" where
  "host_loop region cursor =
     (if cursor < length region then
        (let line_end = (case find_subslice (drop cursor region) crlf of
                           Some i \<Rightarrow> cursor + i | None \<Rightarrow> length region);
             line = take (line_end - cursor) (drop cursor region)
         in case parse_host_line line of
              Some v \<Rightarrow> Some v
            | None \<Rightarrow> if line_end \<ge> length region then None else host_loop region (line_end + 2))
      else None)"
  by pat_completeness auto
termination
  by (relation "measure (\<lambda>(region, cursor). length region - cursor)") (auto split: option.splits)

declare host_loop.simps [simp del]

definition extract_host :: "bytes \<Rightarrow> bytes option" where
  "extract_host buf =
     (if \<not> list_ex (starts_with buf) METHODS then None
      else
        (let scan = take (min (length buf) MAX_SCAN) buf;
             header_end = (case find_subslice scan (crlf @ crlf) of Some i \<Rightarrow> i | None \<Rightarrow> length scan)
         in host_loop (take header_end scan) 0))"

section \<open>TLS server name\<close>

datatype sni_type = HostName | OtherSniType nat

datatype tls_extension = SNI "(sni_type \<times> bytes) list" | OtherExtension

datatype tls_message = ClientHello "bytes option" | OtherMessage

record tls_parser =
  parse_tls_plaintext :: "bytes \<Rightarrow> tls_message list option"
  parse_tls_extensions :: "bytes \<Rightarrow> tls_extension list option"

fun first_host_name :: "(sni_type \<times> bytes) list \<Rightarrow> bytes option" where
  "first_host_name [] = None"
| "first_host_name ((t, n) # ns) =
     (if t = HostName then
        (case from_utf8 n of
           Some s \<Rightarrow> if s \<noteq> [] then Some (to_ascii_lowercase s) else first_host_name ns
         | None \<Rightarrow> first_host_name ns)
      else first_host_name ns)"

fun first_sni :: "tls_extension list \<Rightarrow> bytes option" where
  "first_sni [] = None"
| "first_sni (SNI names # es) =
     (case first_host_name names of Some s \<Rightarrow> Some s | None \<Rightarrow> first_sni es)"
| "first_sni (OtherExtension # es) = first_sni es"

definition extract_sni_from_extensions :: "tls_parser \<Rightarrow> bytes \<Rightarrow> bytes option" where
  "extract_sni_from_extensions T ext_bytes = Option.bind (parse_tls_extensions T ext_bytes) first_sni"

fun first_client_hello :: "tls_parser \<Rightarrow> tls_message list \<Rightarrow> bytes option" where
  "first_client_hello T [] = None"
| "first_client_hello T (ClientHello ext # ms) = Option.bind ext (extract_sni_from_extensions T)"
| "first_client_hello T (OtherMessage # ms) = first_client_hello T ms"

definition extract_sni :: "tls_parser \<Rightarrow> bytes \<Rightarrow> bytes option" where
  "extract_sni T buf = Option.bind (parse_tls_plaintext T buf) (first_client_hello T)"

section \<open>The sniffer\<close>

definition peek :: "tls_parser \<Rightarrow> bytes \<Rightarrow> bytes option" where
  "peek T buf =
     (case extract_sni T buf of
        Some sni \<Rightarrow> Some sni
      | None \<Rightarrow> (case extract_host buf of Some host \<Rightarrow> Some host | None \<Rightarrow> None))"

section \<open>Lines of a header section\<close>

text \<open>
  The reference the loop is held to: the region cut at every CRLF, and the first line
  that is a \<^verbatim>\<open>Host\<close> header.
\<close>

fun crlf_lines :: "bytes \<Rightarrow> bytes list" where
  "crlf_lines [] = [[]]"
| "crlf_lines [c] = [[c]]"
| "crlf_lines (c # d # cs) =
     (if c = CHR 0x0D \<and> d = CHR 0x0A then [] # crlf_lines cs
      else (case crlf_lines (d # cs) of l # ls \<Rightarrow> (c # l) # ls | [] \<Rightarrow> [[c]]))"

fun first_some :: "('a \<Rightarrow> 'b option) \<Rightarrow> 'a list \<Rightarrow> 'b option" where
  "first_some f [] = None"
| "first_some f (x # xs) = (case f x of Some y \<Rightarrow> Some y | None \<Rightarrow> first_some f xs)"

lemma crlf_lines_not_Nil [simp]: "crlf_lines s \<noteq> []"
  by (induction s rule: crlf_lines.induct) (auto split: list.splits)

lemma position_map: "position p (map f xs) = position (\<lambda>x. p (f x)) xs"
  by (induction xs) auto

lemma position_upt_Suc:
  "position p [0..<Suc n] = (if p 0 then Some 0 else map_option Suc (position (\<lambda>i. p (Suc i)) [0..<n]))"
  by (simp add: upt_conv_Cons position_map del: upt_Suc flip: map_Suc_upt)

lemma find_crlf_short [simp]: "find_subslice [] crlf = None" "find_subslice [c] crlf = None"
  by (simp_all add: find_subslice_def)

lemma find_crlf_Cons:
  "find_subslice (c # d # cs) crlf =
     (if c = CHR 0x0D \<and> d = CHR 0x0A then Some 0 else map_option Suc (find_subslice (d # cs) crlf))"
  by (cases cs) (auto simp: find_subslice_def position_upt_Suc simp del: upt_Suc)

lemma crlf_lines_find:
  "crlf_lines s =
     (case find_subslice s crlf of
        None \<Rightarrow> [s]
      | Some i \<Rightarrow> take i s # crlf_lines (drop (i + 2) s))"
proof (induction s rule: crlf_lines.induct)
  case (3 c d cs)
  show ?case
  proof (cases "c = CHR 0x0D \<and> d = CHR 0x0A")
    case True
    then show ?thesis by (simp add: find_crlf_Cons)
  next
    case False
    with "3.IH"(2) show ?thesis
      by (simp add: find_crlf_Cons split: option.splits)
  qed
qed simp_all

lemma parse_host_line_Nil [simp]: "parse_host_line [] = None"
  by (simp add: parse_host_line_def)

lemma host_loop_lines: "host_loop region cursor = first_some parse_host_line (crlf_lines (drop cursor region))"
proof (induction region cursor rule: host_loop.induct)
  case (1 region cursor)
  show ?case
  proof (cases "cursor < length region")
    case False
    then show ?thesis by (simp add: host_loop.simps [of region cursor])
  next
    case True
    let ?s = "drop cursor region"
    show ?thesis
    proof (cases "find_subslice ?s crlf")
      case None
      with True show ?thesis
        by (simp add: host_loop.simps [of region cursor] crlf_lines_find [of ?s] split: option.splits)
    next
      case (Some i)
      then have b: "cursor + i + 2 \<le> length region"
        using find_subslice_bound [OF Some] True by simp
      show ?thesis
      proof (cases "parse_host_line (take i ?s)")
        case hit: (Some v)
        with True Some show ?thesis
          by (simp add: host_loop.simps [of region cursor] crlf_lines_find [of ?s])
      next
        case miss: None
        have "host_loop region (cursor + i + 2) = first_some parse_host_line (crlf_lines (drop (cursor + i + 2) region))"
          using "1.IH" [OF True refl refl] miss Some b by simp
        with True Some miss b show ?thesis
          by (simp add: host_loop.simps [of region cursor] crlf_lines_find [of ?s] add.commute add.left_commute)
      qed
    qed
  qed
qed

section \<open>What a sniffed name looks like\<close>

definition lower_code :: "int \<Rightarrow> int" where
  "lower_code b = (if 65 \<le> b \<and> b \<le> 90 then b + 32 else b)"

lemma lower_code_less: "lower_code b < 128 \<longleftrightarrow> b < 128"
  by (simp add: lower_code_def)

lemma lower_code_id: "128 \<le> b \<Longrightarrow> lower_code b = b"
  by (simp add: lower_code_def)

lemma lower_code_range: "128 \<le> lo \<Longrightarrow> (lo \<le> lower_code b \<and> lower_code b \<le> hi) = (lo \<le> b \<and> b \<le> hi)"
  by (auto simp: lower_code_def)

lemma utf8_cont_lower: "utf8_cont (lower_code b) = utf8_cont b"
  by (simp add: utf8_cont_def lower_code_range)

lemma utf8_ok_lower_code: "utf8_ok (map lower_code bs) = utf8_ok bs"
proof (induction bs rule: utf8_ok.induct)
  case (2 b bs)
  show ?case
  proof (cases "b < 128")
    case True
    with "2.IH"(1) show ?thesis by (simp add: lower_code_less)
  next
    case False
    then have [simp]: "lower_code b = b" by (simp add: lower_code_id)
    have IH2: "utf8_ok (map lower_code r) = utf8_ok r" if "194 \<le> b \<and> b \<le> 223" "bs = c # r" for c r
      using "2.IH"(2) False that by blast
    have IH3: "utf8_ok (map lower_code r) = utf8_ok r" if "224 \<le> b \<and> b \<le> 239" "bs = c # d # r" for c d r
      using "2.IH"(3) False that by force
    have IH4: "utf8_ok (map lower_code r) = utf8_ok r" if "240 \<le> b \<and> b \<le> 244" "bs = c # d # e # r" for c d e r
      using "2.IH"(4) False that by force
    from False IH2 IH3 IH4 show ?thesis
      by (simp add: lower_code_range utf8_cont_lower split: list.split)
  qed
qed simp

lemma utf8_lower: "utf8_ok (map of_char (to_ascii_lowercase s)) = utf8_ok (map of_char s)"
proof -
  have "map of_char (to_ascii_lowercase s) = map lower_code (map of_char s)"
    by (simp add: to_ascii_lowercase_def of_char_lower_byte lower_code_def comp_def)
  then show ?thesis by (simp only: utf8_ok_lower_code)
qed

definition clean_name :: "bytes \<Rightarrow> bool" where
  "clean_name s \<longleftrightarrow> s \<noteq> [] \<and> to_ascii_lowercase s = s \<and> utf8_ok (map of_char s)"

lemma clean_nameI: "s \<noteq> [] \<Longrightarrow> utf8_ok (map of_char s) \<Longrightarrow> clean_name (to_ascii_lowercase s)"
  by (simp add: clean_name_def utf8_lower)

lemma parse_host_line_clean: "parse_host_line l = Some h \<Longrightarrow> clean_name h"
  by (auto simp: parse_host_line_def intro: clean_nameI split: option.splits if_splits)

lemma first_some_in: "first_some f xs = Some y \<Longrightarrow> \<exists>x \<in> set xs. f x = Some y"
  by (induction xs) (auto split: option.splits)

lemma extract_host_clean: "extract_host buf = Some h \<Longrightarrow> clean_name h"
  by (auto simp: extract_host_def host_loop_lines Let_def dest!: first_some_in
      intro: parse_host_line_clean split: if_splits)

lemma first_host_name_clean: "first_host_name ns = Some h \<Longrightarrow> clean_name h"
  by (induction ns rule: first_host_name.induct)
     (auto intro: clean_nameI split: if_splits option.splits)

lemma first_sni_clean: "first_sni es = Some h \<Longrightarrow> clean_name h"
  by (induction es rule: first_sni.induct) (auto intro: first_host_name_clean split: option.splits)

lemma extract_sni_clean: "extract_sni T buf = Some h \<Longrightarrow> clean_name h"
proof -
  have "clean_name h" if "first_client_hello T ms = Some h" for ms
    using that by (induction T ms rule: first_client_hello.induct)
      (auto simp: extract_sni_from_extensions_def bind_eq_Some_conv intro: first_sni_clean)
  then show "extract_sni T buf = Some h \<Longrightarrow> clean_name h"
    by (auto simp: extract_sni_def bind_eq_Some_conv)
qed

section \<open>Properties\<close>

text \<open>
  The index arithmetic of the header walk is right: on a buffer that starts with a known
  method, \<^verbatim>\<open>extract_host\<close> gives the value of the first line that is a \<^verbatim>\<open>Host\<close> header among the
  CRLF-separated lines of the header section (the part before the first blank line, within
  the scan limit), and nothing otherwise; the walk always ends.
\<close>

theorem extract_host_first_host_line:
  "extract_host buf =
     (if list_ex (starts_with buf) METHODS
      then let scan = take MAX_SCAN buf;
               header = (case find_subslice scan (crlf @ crlf) of Some i \<Rightarrow> take i scan | None \<Rightarrow> scan)
           in first_some parse_host_line (crlf_lines header)
      else None)"
  by (simp add: extract_host_def host_loop_lines Let_def min_def split: option.splits)

text \<open>
  A name the sniffer hands to the matchers is never empty, is valid UTF-8 and has no
  upper-case ASCII letter, whichever of TLS and HTTP it came from.
\<close>

theorem peek_clean:
  assumes "peek T buf = Some h"
  shows "h \<noteq> [] \<and> utf8_ok (map of_char h) \<and> to_ascii_lowercase h = h"
  using assms extract_sni_clean [of T buf h] extract_host_clean [of buf h]
  by (auto simp: peek_def clean_name_def split: option.splits)

definition sample_tls :: tls_parser where
  "sample_tls =
     \<lparr>parse_tls_plaintext = (\<lambda>b. if take 1 b = [CHR 0x16] then Some [ClientHello (Some (drop 1 b))] else None),
      parse_tls_extensions = (\<lambda>b. Some [SNI [(HostName, b)]])\<rparr>"

theorem peek_clean_witness:
  "peek sample_tls (''GET / HTTP/1.1'' @ crlf @ ''Host: EXAMPLE.com:80'' @ crlf @ crlf) = Some ''example.com'' \<and>
   to_ascii_lowercase ''example.com'' = ''example.com''"
proof -
  have p: "peek sample_tls (''GET / HTTP/1.1'' @ crlf @ ''Host: EXAMPLE.com:80'' @ crlf @ crlf) = Some ''example.com''"
    by code_simp
  from p peek_clean [OF p] show ?thesis by blast
qed

end
