(* ===== verification/Router.thy ===== *)
theory Router
  imports Filter_Engine Sniffer
begin

text \<open>
  Per-flow dispatch, crates/bridge/src/hole_router.rs: the cascade that maps a filter
  decision and the shape of a flow to an endpoint or a drop, the drop records
  (drop_sink.rs), and the TCP and UDP dispatchers.

  An endpoint is known to the cascade only by what its trait promises to be constant
  (endpoint.rs): whether it carries UDP, whether it reaches IPv6, its name and plugin.
  Serving a flow is asynchronous I/O; a dispatch that reaches \<^verbatim>\<open>serve_tcp\<close> or \<^verbatim>\<open>serve_udp\<close> is
  the outcome \<open>Served\<close> with the slot that serves it. What \<^verbatim>\<open>flow.peek\<close> returns is an argument
  of the TCP dispatcher: a function of the buffer size, \<open>None\<close> for the error it swallows.
\<close>

section \<open>State\<close>

record endpoint =
  supports_udp :: bool
  supports_ipv6_dst :: bool
  ep_name :: string
  plugin_name :: "string option"

record ('re, 'net) hole_router =
  proxy_ep :: endpoint
  bypass_ep :: endpoint
  local_dns :: "endpoint option"
  router_rules :: "('re, 'net) rule_set"

datatype slot = ProxySlot | BypassSlot | LocalDnsSlot

datatype drop_reason =
    RuleBlock u32
  | UdpProxyUnavailable u32
  | Ipv6BypassUnreachable u32

datatype dispatch = ToEndpoint slot | Drop drop_reason

text \<open>One constructor per method of the \<^verbatim>\<open>DropSink\<close> trait: what the sink is told.\<close>

datatype drop_record =
    rule_block_tcp u32 socket_addr "string option"
  | rule_block_udp u32 socket_addr
  | udp_proxy_unavailable u32 socket_addr "string option"
  | ipv6_bypass_unreachable u32 socket_addr string

section \<open>Construction and rule swap\<close>

definition with_endpoints ::
  "endpoint \<Rightarrow> endpoint \<Rightarrow> endpoint option \<Rightarrow> ('re, 'net) rule_set \<Rightarrow> ('re, 'net) hole_router" where
  "with_endpoints px bp dns rs = \<lparr>proxy_ep = px, bypass_ep = bp, local_dns = dns, router_rules = rs\<rparr>"

definition router_new :: "endpoint \<Rightarrow> endpoint \<Rightarrow> ('re, 'net) rule_set \<Rightarrow> ('re, 'net) hole_router" where
  "router_new px bp rs = with_endpoints px bp None rs"

definition with_local_dns ::
  "endpoint \<Rightarrow> endpoint \<Rightarrow> endpoint option \<Rightarrow> ('re, 'net) rule_set \<Rightarrow> ('re, 'net) hole_router" where
  "with_local_dns px bp dns rs = with_endpoints px bp dns rs"

definition swap_rules :: "('re, 'net) hole_router \<Rightarrow> ('re, 'net) rule_set \<Rightarrow> ('re, 'net) hole_router" where
  "swap_rules R new_rules = R\<lparr>router_rules := new_rules\<rparr>"

definition invalid_filters :: "('re, 'net) hole_router \<Rightarrow> invalid_filter list" where
  "invalid_filters R = dropped (router_rules R)"

section \<open>The cascade\<close>

definition resolve_endpoint ::
  "('re, 'net) hole_router \<Rightarrow> filter_action \<Rightarrow> l4_proto \<Rightarrow> socket_addr \<Rightarrow> u32 option \<Rightarrow> dispatch" where
  "resolve_endpoint R action l4 dst idx =
     (let ri = (case idx of Some i \<Rightarrow> i | None \<Rightarrow> 0) in
      if l4 = Udp \<and> sa_port dst = 53 \<and> local_dns R \<noteq> None then ToEndpoint LocalDnsSlot
      else
        (case action of
           Proxy \<Rightarrow>
             if l4 = Udp \<and> \<not> supports_udp (proxy_ep R) then Drop (UdpProxyUnavailable ri)
             else ToEndpoint ProxySlot
         | Bypass \<Rightarrow>
             if is_ipv6 dst \<and> \<not> supports_ipv6_dst (bypass_ep R) then Drop (Ipv6BypassUnreachable ri)
             else ToEndpoint BypassSlot
         | Block \<Rightarrow> Drop (RuleBlock ri)))"

text \<open>\<open>None\<close> is the branch of \<^verbatim>\<open>log_drop\<close> that only holds a \<^verbatim>\<open>debug_assert!(false)\<close>.\<close>

fun log_drop ::
  "('re, 'net) hole_router \<Rightarrow> drop_reason \<Rightarrow> socket_addr \<Rightarrow> string option \<Rightarrow> l4_proto \<Rightarrow> drop_record option" where
  "log_drop R (RuleBlock ri) dst domain Tcp = Some (rule_block_tcp ri dst domain)"
| "log_drop R (RuleBlock ri) dst domain Udp = Some (rule_block_udp ri dst)"
| "log_drop R (UdpProxyUnavailable ri) dst domain Udp =
     Some (udp_proxy_unavailable ri dst (plugin_name (proxy_ep R)))"
| "log_drop R (UdpProxyUnavailable ri) dst domain Tcp = None"
| "log_drop R (Ipv6BypassUnreachable ri) dst domain l4 =
     Some (ipv6_bypass_unreachable ri dst (case l4 of Tcp \<Rightarrow> ''tcp'' | Udp \<Rightarrow> ''udp''))"

section \<open>Dispatch\<close>

datatype outcome = Served slot | Released "drop_record option"

definition PEEK_BUF_SIZE :: nat where
  "PEEK_BUF_SIZE = 2048"

definition sniff ::
  "tls_parser \<Rightarrow> ('re, 'net) rule_set \<Rightarrow> (nat \<Rightarrow> bytes option) \<Rightarrow> string option" where
  "sniff T rs peek_flow =
     (if has_domain_rules rs then
        (case peek_flow PEEK_BUF_SIZE of
           Some peeked \<Rightarrow> if peeked \<noteq> [] then peek T peeked else None
         | None \<Rightarrow> None)
      else None)"

definition dispatch_tcp ::
  "('re, 'net) filter_deps \<Rightarrow> tls_parser \<Rightarrow> ('re, 'net) hole_router \<Rightarrow> (nat \<Rightarrow> bytes option) \<Rightarrow> socket_addr \<Rightarrow> outcome" where
  "dispatch_tcp D T R peek_flow dst =
     (let domain = sniff T (router_rules R) peek_flow;
          decision = decide D (router_rules R) \<lparr>ci_dst = dst, ci_domain = domain, ci_proto = Tcp\<rparr>
      in case resolve_endpoint R (d_action decision) Tcp dst (map_option as_u32 (rule_index decision)) of
           ToEndpoint s \<Rightarrow> Served s
         | Drop reason \<Rightarrow> Released (log_drop R reason dst domain Tcp))"

definition dispatch_udp ::
  "('re, 'net) filter_deps \<Rightarrow> ('re, 'net) hole_router \<Rightarrow> socket_addr \<Rightarrow> outcome" where
  "dispatch_udp D R dst =
     (let decision = decide D (router_rules R) \<lparr>ci_dst = dst, ci_domain = None, ci_proto = Udp\<rparr>
      in case resolve_endpoint R (d_action decision) Udp dst (map_option as_u32 (rule_index decision)) of
           ToEndpoint s \<Rightarrow> Served s
         | Drop reason \<Rightarrow> Released (log_drop R reason dst None Udp))"

section \<open>Lemmas\<close>

lemma resolve_bypass: "resolve_endpoint R a l4 dst i = ToEndpoint BypassSlot \<Longrightarrow> a = Bypass"
  by (auto simp: resolve_endpoint_def Let_def split: if_splits filter_action.splits)

lemma resolve_udp_reason:
  "resolve_endpoint R a l4 dst i = Drop (UdpProxyUnavailable ri) \<Longrightarrow> l4 = Udp"
  by (auto simp: resolve_endpoint_def Let_def split: if_splits filter_action.splits)

lemma dispatch_udp_bypass:
  "dispatch_udp D R dst = Served BypassSlot \<Longrightarrow>
     d_action (decide D (router_rules R) \<lparr>ci_dst = dst, ci_domain = None, ci_proto = Udp\<rparr>) = Bypass"
  by (auto simp: dispatch_udp_def Let_def dest: resolve_bypass split: dispatch.splits)

lemma dispatch_tcp_bypass:
  "dispatch_tcp D T R pk dst = Served BypassSlot \<Longrightarrow>
     d_action (decide D (router_rules R)
       \<lparr>ci_dst = dst, ci_domain = sniff T (router_rules R) pk, ci_proto = Tcp\<rparr>) = Bypass"
  by (auto simp: dispatch_tcp_def Let_def dest: resolve_bypass split: dispatch.splits)

lemma dispatch_udp_released:
  assumes "dispatch_udp D R dst = Released rec"
  shows "\<exists>ri. rec = Some (rule_block_udp ri dst) \<or> rec = Some (udp_proxy_unavailable ri dst (plugin_name (proxy_ep R)))
         \<or> rec = Some (ipv6_bypass_unreachable ri dst ''udp'')"
proof -
  from assms obtain reason where "rec = log_drop R reason dst None Udp"
    by (auto simp: dispatch_udp_def Let_def split: dispatch.splits)
  then show ?thesis by (cases reason) auto
qed

lemma dispatch_tcp_released:
  assumes "dispatch_tcp D T R pk dst = Released rec"
  shows "\<exists>ri. rec = Some (rule_block_tcp ri dst (sniff T (router_rules R) pk))
         \<or> rec = Some (ipv6_bypass_unreachable ri dst ''tcp'')"
proof -
  from assms obtain a i reason where "resolve_endpoint R a Tcp dst i = Drop reason"
    "rec = log_drop R reason dst (sniff T (router_rules R) pk) Tcp"
    by (auto simp: dispatch_tcp_def Let_def split: dispatch.splits)
  then show ?thesis using resolve_udp_reason [of R a Tcp dst i] by (cases reason) auto
qed

context decision_source
begin

lemma bypass_is_asked_for: "d_action (decide_on rs c) = Bypass \<Longrightarrow> \<exists>i. applies rs c i Bypass"
  using non_proxy_named [of rs c] by auto

end

section \<open>Properties\<close>

text \<open>
  C2. Nothing leaves in the clear by default. A flow, TCP or UDP, is served by the bypass
  endpoint only if some rule of the current set applies to it and asks for \<^verbatim>\<open>Bypass\<close>: the
  fallback, a \<^verbatim>\<open>Proxy\<close> decision the plugin cannot carry, and a \<^verbatim>\<open>Block\<close> never end up there.
\<close>

theorem bypass_only_by_rule:
  "(dispatch_udp D R dst = Served BypassSlot \<longrightarrow>
      (\<exists>i. compiled_applies D (router_rules R) \<lparr>ci_dst = dst, ci_domain = None, ci_proto = Udp\<rparr> i Bypass)) \<and>
   (dispatch_tcp D T R pk dst = Served BypassSlot \<longrightarrow>
      (\<exists>i. compiled_applies D (router_rules R)
         \<lparr>ci_dst = dst, ci_domain = sniff T (router_rules R) pk, ci_proto = Tcp\<rparr> i Bypass))"
  by (auto dest!: dispatch_udp_bypass dispatch_tcp_bypass engine.bypass_is_asked_for)

text \<open>
  C30. The UDP privacy drop. A UDP flow that is decided \<^verbatim>\<open>Proxy\<close> (by a rule or by the fallback)
  while the proxy cannot carry UDP is released and recorded as such, with the plugin's name;
  the only exception is DNS on port 53 when the local forwarder is attached, which then
  answers it.
\<close>

theorem udp_privacy_drop:
  assumes "\<not> supports_udp (proxy_ep R)"
    and "d_action (decide D (router_rules R) \<lparr>ci_dst = dst, ci_domain = None, ci_proto = Udp\<rparr>) = Proxy"
  shows "dispatch_udp D R dst =
    (if sa_port dst = 53 \<and> local_dns R \<noteq> None then Served LocalDnsSlot
     else Released (Some (udp_proxy_unavailable
       (case rule_index (decide D (router_rules R) \<lparr>ci_dst = dst, ci_domain = None, ci_proto = Udp\<rparr>) of
          Some i \<Rightarrow> as_u32 i | None \<Rightarrow> 0)
       dst (plugin_name (proxy_ep R)))))"
  using assms by (simp add: dispatch_udp_def resolve_endpoint_def Let_def option.case_eq_if option.map_sel)

text \<open>
  Every release leaves a record: whatever the rules, the endpoints and the flow, the
  dispatchers never reach the branch of \<^verbatim>\<open>log_drop\<close> that the code asserts to be unreachable,
  so a dropped flow is always recorded exactly once, under its own destination.
\<close>

theorem every_drop_recorded:
  "(dispatch_udp D R dst = Released rec \<longrightarrow>
      (\<exists>ri. rec = Some (rule_block_udp ri dst) \<or> rec = Some (udp_proxy_unavailable ri dst (plugin_name (proxy_ep R)))
         \<or> rec = Some (ipv6_bypass_unreachable ri dst ''udp''))) \<and>
   (dispatch_tcp D T R pk dst = Released rec \<longrightarrow>
      (\<exists>ri. rec = Some (rule_block_tcp ri dst (sniff T (router_rules R) pk))
         \<or> rec = Some (ipv6_bypass_unreachable ri dst ''tcp'')))"
  by (blast dest: dispatch_udp_released dispatch_tcp_released)

text \<open>
  With a local DNS forwarder attached, every UDP flow to port 53 goes to it, whatever the
  rules decide, also after any rule swap; without one, none does, and TCP never does.
\<close>

theorem dns_interception:
  "(dispatch_udp D (swap_rules R rs) dst = Served LocalDnsSlot) = (sa_port dst = 53 \<and> local_dns R \<noteq> None) \<and>
   dispatch_tcp D T (swap_rules R rs) pk dst \<noteq> Served LocalDnsSlot"
  by (auto simp: dispatch_udp_def dispatch_tcp_def resolve_endpoint_def swap_rules_def Let_def
      split: filter_action.splits if_splits)

definition sample_endpoint :: endpoint where
  "sample_endpoint = \<lparr>supports_udp = False, supports_ipv6_dst = False, ep_name = ''socks5'', plugin_name = Some ''ex-ray''\<rparr>"

theorem bypass_only_by_rule_witness:
  "\<exists>i. compiled_applies sample_deps (from_user_rules sample_deps sample_rules)
     \<lparr>ci_dst = \<lparr>sa_ip = V4 16909060, sa_port = 443\<rparr>, ci_domain = None, ci_proto = Udp\<rparr> i Bypass"
proof -
  let ?R = "router_new sample_endpoint sample_endpoint (from_user_rules sample_deps sample_rules)"
  have "dispatch_udp sample_deps ?R \<lparr>sa_ip = V4 16909060, sa_port = 443\<rparr> = Served BypassSlot" by code_simp
  then show ?thesis
    using bypass_only_by_rule [of sample_deps ?R "\<lparr>sa_ip = V4 16909060, sa_port = 443\<rparr>"]
    by (simp add: router_new_def with_endpoints_def)
qed

theorem udp_privacy_drop_witness:
  "dispatch_udp sample_deps (router_new sample_endpoint sample_endpoint (from_user_rules sample_deps sample_rules))
     \<lparr>sa_ip = V4 1, sa_port = 53\<rparr> =
   Released (Some (udp_proxy_unavailable 0 \<lparr>sa_ip = V4 1, sa_port = 53\<rparr> (Some ''ex-ray'')))"
proof -
  let ?R = "router_new sample_endpoint sample_endpoint (from_user_rules sample_deps sample_rules)"
  let ?dst = "\<lparr>sa_ip = V4 1, sa_port = 53\<rparr>"
  have a: "\<not> supports_udp (proxy_ep ?R)" by (simp add: router_new_def with_endpoints_def sample_endpoint_def)
  have d: "decide sample_deps (router_rules ?R) \<lparr>ci_dst = ?dst, ci_domain = None, ci_proto = Udp\<rparr> =
      \<lparr>d_action = Proxy, rule_index = None\<rparr>" by code_simp
  from udp_privacy_drop [OF a, of sample_deps ?dst] d show ?thesis
    by (simp add: router_new_def with_endpoints_def sample_endpoint_def)
qed

theorem every_drop_recorded_witness:
  "\<exists>rec ri. dispatch_udp sample_deps (router_new sample_endpoint sample_endpoint (from_user_rules sample_deps sample_rules))
       \<lparr>sa_ip = V4 1, sa_port = 80\<rparr> = Released rec \<and>
     (rec = Some (rule_block_udp ri \<lparr>sa_ip = V4 1, sa_port = 80\<rparr>)
      \<or> rec = Some (udp_proxy_unavailable ri \<lparr>sa_ip = V4 1, sa_port = 80\<rparr> (Some ''ex-ray''))
      \<or> rec = Some (ipv6_bypass_unreachable ri \<lparr>sa_ip = V4 1, sa_port = 80\<rparr> ''udp''))"
proof -
  let ?R = "router_new sample_endpoint sample_endpoint (from_user_rules sample_deps sample_rules)"
  let ?rec = "Some (udp_proxy_unavailable 0 \<lparr>sa_ip = V4 1, sa_port = 80\<rparr> (Some ''ex-ray''))"
  have d: "dispatch_udp sample_deps ?R \<lparr>sa_ip = V4 1, sa_port = 80\<rparr> = Released ?rec" by code_simp
  have p: "plugin_name (proxy_ep ?R) = Some ''ex-ray''" by (simp add: router_new_def with_endpoints_def sample_endpoint_def)
  from every_drop_recorded [of sample_deps ?R "\<lparr>sa_ip = V4 1, sa_port = 80\<rparr>" ?rec, THEN conjunct1, THEN mp, OF d]
  show ?thesis unfolding p using d by blast
qed

end
