(* ===== verification/Versioned_File.thy ===== *)
theory Versioned_File
  imports Prelude "HOL-Library.AList"
begin

text \<open>
  The state files of crates/util/src/versioned_file: what a file that cannot be read means
  per role (role.rs), the framing and the schema chain (frame.rs, chain.rs), the
  classification of a read (loaded.rs), and the one read, the one write path and the atomic
  claim (store.rs, update.rs).

  The directory is a finite association of names to nodes, or absent. Every call the code
  makes through its directory handle can fail: \<open>fs_env\<close> says which of them do, with a kind
  that is neither \<^verbatim>\<open>NotFound\<close> nor \<^verbatim>\<open>AlreadyExists\<close>; those two come from the directory itself
  (another process is excluded by the bridge's liveness lock, not by this type). A refused
  read, for whatever reason, is a failing \<open>f_read\<close>.

  Parameters: \<^verbatim>\<open>serde_json\<close> as \<open>json_lib\<close> (the entries the map deserializer yields, in
  order, and the error that ends it, if any) and the derived (de)serializers of a schema.
  A panic is a value (\<open>Panic\<close>, \<open>None\<close>, \<open>UPanic\<close>). Logging and the directory flush after a
  publish (\<^verbatim>\<open>finalize\<close>) change nothing and are left out.
\<close>

section \<open>Roles (role.rs)\<close>

datatype cannot_read = NewerFile | CorruptFile

datatype role = Decision | OsRecord | LegacyRecord | Config | Claim | Cover

datatype store_over = StoreMoveAside | StoreRefuse | StoreOverwrite

datatype remove_over = RemoveMoveAside | RemoveKeep | RemoveRemove

fun on_store :: "role \<Rightarrow> cannot_read \<Rightarrow> store_over" where
  "on_store Decision NewerFile = StoreMoveAside"
| "on_store Decision CorruptFile = StoreMoveAside"
| "on_store OsRecord NewerFile = StoreRefuse"
| "on_store OsRecord CorruptFile = StoreRefuse"
| "on_store LegacyRecord NewerFile = StoreRefuse"
| "on_store LegacyRecord CorruptFile = StoreRefuse"
| "on_store Config NewerFile = StoreRefuse"
| "on_store Config CorruptFile = StoreOverwrite"
| "on_store Claim NewerFile = StoreRefuse"
| "on_store Claim CorruptFile = StoreRefuse"
| "on_store Cover NewerFile = StoreMoveAside"
| "on_store Cover CorruptFile = StoreMoveAside"

fun on_remove :: "role \<Rightarrow> cannot_read \<Rightarrow> remove_over" where
  "on_remove Decision NewerFile = RemoveMoveAside"
| "on_remove Decision CorruptFile = RemoveMoveAside"
| "on_remove OsRecord NewerFile = RemoveKeep"
| "on_remove OsRecord CorruptFile = RemoveKeep"
| "on_remove LegacyRecord NewerFile = RemoveKeep"
| "on_remove LegacyRecord CorruptFile = RemoveKeep"
| "on_remove Config NewerFile = RemoveKeep"
| "on_remove Config CorruptFile = RemoveKeep"
| "on_remove Claim NewerFile = RemoveRemove"
| "on_remove Claim CorruptFile = RemoveRemove"
| "on_remove Cover NewerFile = RemoveMoveAside"
| "on_remove Cover CorruptFile = RemoveMoveAside"

fun on_store_io_failure :: "role \<Rightarrow> store_over" where
  "on_store_io_failure Decision = StoreMoveAside"
| "on_store_io_failure OsRecord = StoreRefuse"
| "on_store_io_failure LegacyRecord = StoreRefuse"
| "on_store_io_failure Config = StoreMoveAside"
| "on_store_io_failure Claim = StoreRefuse"
| "on_store_io_failure Cover = StoreMoveAside"

fun on_remove_io_failure :: "role \<Rightarrow> remove_over" where
  "on_remove_io_failure Decision = RemoveMoveAside"
| "on_remove_io_failure OsRecord = RemoveKeep"
| "on_remove_io_failure LegacyRecord = RemoveKeep"
| "on_remove_io_failure Config = RemoveMoveAside"
| "on_remove_io_failure Claim = RemoveRemove"
| "on_remove_io_failure Cover = RemoveKeep"

fun io_failure_blocks_connect :: "role \<Rightarrow> bool" where
  "io_failure_blocks_connect Decision = False"
| "io_failure_blocks_connect OsRecord = True"
| "io_failure_blocks_connect LegacyRecord = False"
| "io_failure_blocks_connect Config = False"
| "io_failure_blocks_connect Claim = False"
| "io_failure_blocks_connect Cover = True"

fun unreadable_blocks_connect :: "role \<Rightarrow> cannot_read \<Rightarrow> bool" where
  "unreadable_blocks_connect Decision NewerFile = False"
| "unreadable_blocks_connect Decision CorruptFile = False"
| "unreadable_blocks_connect OsRecord NewerFile = True"
| "unreadable_blocks_connect OsRecord CorruptFile = True"
| "unreadable_blocks_connect LegacyRecord NewerFile = False"
| "unreadable_blocks_connect LegacyRecord CorruptFile = False"
| "unreadable_blocks_connect Config NewerFile = False"
| "unreadable_blocks_connect Config CorruptFile = False"
| "unreadable_blocks_connect Claim NewerFile = False"
| "unreadable_blocks_connect Claim CorruptFile = False"
| "unreadable_blocks_connect Cover NewerFile = True"
| "unreadable_blocks_connect Cover CorruptFile = True"

section \<open>Errors and the directory\<close>

datatype io_kind = NotFound | AlreadyExists | Unsupported | OtherKind nat

datatype fault = FaultUnsupported | FaultOther nat

fun fault_kind :: "fault \<Rightarrow> io_kind" where
  "fault_kind FaultUnsupported = Unsupported"
| "fault_kind (FaultOther n) = OtherKind n"

lemma fault_kind_not: "fault_kind f = AlreadyExists \<Longrightarrow> False"
  by (cases f) simp_all

record parse_failure =
  pf_kind :: string
  pf_line :: nat
  pf_column :: nat

definition framing :: "string \<Rightarrow> parse_failure" where
  "framing reason = \<lparr>pf_kind = reason, pf_line = 0, pf_column = 0\<rparr>"

datatype node = Regular bytes | SymlinkNode | DirectoryNode | OtherNode

type_synonym entries = "(string \<times> node) list"

record fs_env =
  f_open :: "fault option"
  f_create :: "fault option"
  f_reader :: "fault option"
  f_read :: "fault option"
  f_probe :: "fault option"
  f_prepare :: "fault option"
  f_stage :: "fault option"
  f_link :: "string \<Rightarrow> fault option"
  f_publish :: "fault option"
  f_unlink :: "string \<Rightarrow> fault option"
  f_rename :: "string \<Rightarrow> fault option"
  f_claim :: "fault option"

definition no_faults :: fs_env where
  "no_faults = \<lparr>f_open = None, f_create = None, f_reader = None, f_read = None, f_probe = None,
     f_prepare = None, f_stage = None, f_link = (\<lambda>_. None), f_publish = None,
     f_unlink = (\<lambda>_. None), f_rename = (\<lambda>_. None), f_claim = None\<rparr>"

text \<open>The directory of one state file and the generation of its path.\<close>

record world =
  w_dir :: "entries option"
  w_gen :: nat

section \<open>Framing (frame.rs)\<close>

datatype version = Known int | BeyondU32

definition version_within :: "version \<Rightarrow> int \<Rightarrow> (int option, int) result" where
  "version_within v current =
     (case v of
        Known found \<Rightarrow> if found \<le> current then Ok found else Err (Some found)
      | BeyondU32 \<Rightarrow> Err None)"

record json_lib =
  json_entries :: "bytes \<Rightarrow> (string \<times> string) list \<times> parse_failure option"
  json_duplicate :: "bytes \<Rightarrow> parse_failure"

fun is_ascii_digit :: "char \<Rightarrow> bool" where
  "is_ascii_digit c = (48 \<le> (of_char c :: int) \<and> (of_char c :: int) \<le> 57)"

definition decimal :: "string \<Rightarrow> int" where
  "decimal s = foldl (\<lambda>acc c. acc * 10 + (of_char c - 48)) 0 s"

definition NOT_POSITIVE :: string where
  "NOT_POSITIVE = ''version is not a positive integer''"

definition version_of :: "string \<Rightarrow> (parse_failure, version) result" where
  "version_of token =
     (if token = [] \<or> \<not> list_all is_ascii_digit token then Err (framing NOT_POSITIVE)
      else if decimal token = 0 then Err (framing NOT_POSITIVE)
      else if decimal token \<le> 4294967295 then Ok (Known (decimal token))
      else Ok BeyondU32)"

fun visit_map :: "parse_failure \<Rightarrow> parse_failure option \<Rightarrow> (string \<times> string) list \<Rightarrow> string option \<Rightarrow>
    (parse_failure, string option) result" where
  "visit_map dup end_error [] found = (case end_error of Some f \<Rightarrow> Err f | None \<Rightarrow> Ok found)"
| "visit_map dup end_error ((key, raw) # es) found =
     (if key \<noteq> ''version'' then visit_map dup end_error es found
      else if found \<noteq> None then Err dup
      else visit_map dup end_error es (Some raw))"

definition read_version :: "json_lib \<Rightarrow> bytes \<Rightarrow> int option \<Rightarrow> (parse_failure, version) result" where
  "read_version J bs unversioned_as =
     (case visit_map (json_duplicate J bs) (snd (json_entries J bs)) (fst (json_entries J bs)) None of
        Err f \<Rightarrow> Err f
      | Ok found \<Rightarrow>
          (case (found, unversioned_as) of
             (Some token, _) \<Rightarrow> version_of token
           | (None, Some dflt) \<Rightarrow> Ok (Known dflt)
           | (None, None) \<Rightarrow> Err (framing ''no version'')))"

section \<open>Schema chains (chain.rs)\<close>

datatype 's decoded = Decoded 's | ObsoleteVersion | Shape parse_failure | Panic

record 's chain =
  chain_top :: int
  chain_linked :: bool
  chain_decode :: "int \<Rightarrow> bytes \<Rightarrow> 's decoded"

definition obsolete_chain :: "int \<Rightarrow> 's chain" where
  "obsolete_chain below =
     \<lparr>chain_top = below, chain_linked = True,
      chain_decode = (\<lambda>v _. if v \<le> below then ObsoleteVersion else Panic)\<rparr>"

fun upgrade_decoded :: "('p \<Rightarrow> 's) \<Rightarrow> 'p decoded \<Rightarrow> 's decoded" where
  "upgrade_decoded up (Decoded p) = Decoded (up p)"
| "upgrade_decoded up ObsoleteVersion = ObsoleteVersion"
| "upgrade_decoded up (Shape f) = Shape f"
| "upgrade_decoded up Panic = Panic"

definition schema_chain :: "int \<Rightarrow> (bytes \<Rightarrow> (parse_failure, 's) result) \<Rightarrow> 'p chain \<Rightarrow> ('p \<Rightarrow> 's) \<Rightarrow> 's chain" where
  "schema_chain v from_slice prev up =
     \<lparr>chain_top = v,
      chain_linked = (v = chain_top prev + 1 \<and> chain_linked prev),
      chain_decode = (\<lambda>w bs.
        if w = v then (case from_slice bs of Ok s \<Rightarrow> Decoded s | Err f \<Rightarrow> Shape f)
        else if w < v then upgrade_decoded up (chain_decode prev w bs)
        else Panic)\<rparr>"

section \<open>Classifying a read (loaded.rs)\<close>

datatype unreadable_kind = AtDirectory | NotAFile | AtFile | Unprobed

datatype 's loaded =
    Absent
  | Unreadable io_kind unreadable_kind
  | Corrupt parse_failure bytes
  | Obsolete int bytes
  | Newer "int option" bytes
  | Current 's int

datatype why_unreadable = CannotRead cannot_read | ReadFailed io_kind

fun into_actionable :: "'s loaded \<Rightarrow> (why_unreadable, 's option) result" where
  "into_actionable (Current value _) = Ok (Some value)"
| "into_actionable Absent = Ok None"
| "into_actionable (Obsolete _ _) = Ok None"
| "into_actionable (Unreadable k _) = Err (ReadFailed k)"
| "into_actionable (Newer _ _) = Err (CannotRead NewerFile)"
| "into_actionable (Corrupt _ _) = Err (CannotRead CorruptFile)"

fun loaded_cannot_read :: "'s loaded \<Rightarrow> cannot_read option" where
  "loaded_cannot_read (Newer _ _) = Some NewerFile"
| "loaded_cannot_read (Corrupt _ _) = Some CorruptFile"
| "loaded_cannot_read Absent = None"
| "loaded_cannot_read (Unreadable _ _) = None"
| "loaded_cannot_read (Obsolete _ _) = None"
| "loaded_cannot_read (Current _ _) = None"

fun blocks_connect :: "role \<Rightarrow> why_unreadable \<Rightarrow> bool" where
  "blocks_connect r (CannotRead why) = unreadable_blocks_connect r why"
| "blocks_connect r (ReadFailed _) = io_failure_blocks_connect r"

text \<open>The current schema of a file: \<^verbatim>\<open>VersionedState\<close> with its derived (de)serializers.\<close>

record 's schema =
  FILE_NAME :: string
  ROLE :: role
  VERSION :: int
  UNVERSIONED_AS :: "int option"
  sc_json :: json_lib
  sc_from_slice :: "bytes \<Rightarrow> (parse_failure, 's) result"
  sc_to_vec :: "int \<Rightarrow> 's \<Rightarrow> (parse_failure, bytes) result"
  sc_prev :: "'s chain"

text \<open>
  \<open>sc_prev\<close> is the previous chain with the upgrade already applied; the chain of the schema
  itself is \<open>schema_decode\<close> on top of it.
\<close>

definition schema_decode :: "'s schema \<Rightarrow> int \<Rightarrow> bytes \<Rightarrow> 's decoded" where
  "schema_decode S = chain_decode (schema_chain (VERSION S) (sc_from_slice S) (sc_prev S) (\<lambda>s. s))"

definition from_read :: "'s schema \<Rightarrow> (io_kind, bytes) result \<Rightarrow> unreadable_kind option \<Rightarrow> 's loaded option" where
  "from_read S read at =
     (case read of
        Err NotFound \<Rightarrow> Some Absent
      | Err e \<Rightarrow> Some (case at of Some kind \<Rightarrow> Unreadable e kind | None \<Rightarrow> Absent)
      | Ok bs \<Rightarrow>
          (case read_version (sc_json S) bs (UNVERSIONED_AS S) of
             Err f \<Rightarrow> Some (Corrupt f bs)
           | Ok version \<Rightarrow>
               (case version_within version (VERSION S) of
                  Err found \<Rightarrow> Some (Newer found bs)
                | Ok found \<Rightarrow>
                    (case schema_decode S found bs of
                       Decoded value \<Rightarrow> Some (Current value found)
                     | ObsoleteVersion \<Rightarrow> Some (Obsolete found bs)
                     | Shape f \<Rightarrow> Some (Corrupt f bs)
                     | Panic \<Rightarrow> None))))"

section \<open>Directory operations (store.rs)\<close>

text \<open>
  \<^verbatim>\<open>Fs::read\<close> (the vouched read of a regular file) and \<^verbatim>\<open>Fs::kind_of\<close>, asked once after a
  read failed.
\<close>

definition fs_read :: "fs_env \<Rightarrow> entries \<Rightarrow> string \<Rightarrow> (io_kind, bytes) result" where
  "fs_read E es name =
     (case f_read E of
        Some f \<Rightarrow> Err (fault_kind f)
      | None \<Rightarrow>
          (case map_of es name of
             None \<Rightarrow> Err NotFound
           | Some (Regular bs) \<Rightarrow> Ok bs
           | Some _ \<Rightarrow> Err (OtherKind 0)))"

definition probe_kind :: "fs_env \<Rightarrow> entries \<Rightarrow> string \<Rightarrow> unreadable_kind option" where
  "probe_kind E es name =
     (case f_probe E of
        Some _ \<Rightarrow> Some Unprobed
      | None \<Rightarrow>
          (case map_of es name of
             Some (Regular _) \<Rightarrow> Some AtFile
           | Some _ \<Rightarrow> Some NotAFile
           | None \<Rightarrow> None))"

definition hard_link :: "fs_env \<Rightarrow> entries \<Rightarrow> string \<Rightarrow> string \<Rightarrow> (io_kind, entries) result" where
  "hard_link E es original link =
     (case f_link E link of
        Some f \<Rightarrow> Err (fault_kind f)
      | None \<Rightarrow>
          (case map_of es original of
             None \<Rightarrow> Err NotFound
           | Some nd \<Rightarrow>
               if map_of es link \<noteq> None then Err AlreadyExists else Ok (AList.update link nd es)))"

definition rename_noreplace :: "fs_env \<Rightarrow> entries \<Rightarrow> string \<Rightarrow> string \<Rightarrow> (io_kind, entries) result" where
  "rename_noreplace E es old new =
     (case f_rename E new of
        Some f \<Rightarrow> Err (fault_kind f)
      | None \<Rightarrow>
          (case map_of es old of
             None \<Rightarrow> Err NotFound
           | Some nd \<Rightarrow>
               if map_of es new \<noteq> None then Err AlreadyExists
               else Ok (AList.update new nd (AList.delete old es))))"

definition remove_file :: "fs_env \<Rightarrow> entries \<Rightarrow> string \<Rightarrow> (io_kind, entries) result" where
  "remove_file E es name =
     (case f_unlink E name of
        Some f \<Rightarrow> Err (fault_kind f)
      | None \<Rightarrow> if map_of es name = None then Err NotFound else Ok (AList.delete name es))"

text \<open>\<^verbatim>\<open>Staged::publish\<close>: the temp file is renamed over the name.\<close>

definition publish :: "fs_env \<Rightarrow> entries \<Rightarrow> string \<Rightarrow> bytes \<Rightarrow> (io_kind, entries) result" where
  "publish E es name bs =
     (case f_publish E of
        Some f \<Rightarrow> Err (fault_kind f)
      | None \<Rightarrow> Ok (AList.update name (Regular bs) es))"

definition claim_file :: "fs_env \<Rightarrow> entries \<Rightarrow> string \<Rightarrow> bytes \<Rightarrow> (io_kind, entries) result" where
  "claim_file E es name bs =
     (case f_claim E of
        Some f \<Rightarrow> Err (fault_kind f)
      | None \<Rightarrow>
          if map_of es name \<noteq> None then Err AlreadyExists
          else Ok (AList.update name (Regular bs) es))"

subsection \<open>Backup names\<close>

fun show_nat :: "nat \<Rightarrow> string" where
  "show_nat n = (if n < 10 then [char_of (48 + n)] else show_nat (n div 10) @ [char_of (48 + n mod 10)])"

declare show_nat.simps [simp del]

definition backup_name :: "string \<Rightarrow> nat \<Rightarrow> string" where
  "backup_name file attempt =
     (if attempt = 1 then file @ ''.unreadable.bak''
      else file @ ''.unreadable.'' @ show_nat attempt @ ''.bak'')"

lemma decimal_append: "decimal (s @ [c]) = decimal s * 10 + (of_char c - 48)"
  by (simp add: decimal_def)

lemma of_char_digit: "d < 10 \<Longrightarrow> (of_char (char_of (48 + d) :: char) :: int) = 48 + int d"
proof -
  assume d: "d < 10"
  have "(of_char (char_of (48 + d) :: char) :: int) = int (of_char (char_of (48 + d) :: char))"
    by (rule of_nat_of_char [symmetric])
  also have "(of_char (char_of (48 + d) :: char) :: nat) = 48 + d"
    using d by (simp add: of_char_of)
  finally show ?thesis by simp
qed

lemma decimal_show_nat [simp]: "decimal (show_nat n) = int n"
proof (induction n rule: show_nat.induct)
  case (1 n)
  show ?case
  proof (cases "n < 10")
    case True
    then show ?thesis
      by (subst show_nat.simps) (simp add: decimal_def of_char_digit)
  next
    case False
    with "1.IH" have "decimal (show_nat n) = int (n div 10) * 10 + int (n mod 10)"
      by (subst show_nat.simps) (simp add: decimal_append of_char_digit)
    also have "\<dots> = int n"
      by (metis div_mult_mod_eq of_nat_add of_nat_mult of_nat_numeral)
    finally show ?thesis .
  qed
qed

lemma show_nat_inj [simp]: "show_nat m = show_nat n \<longleftrightarrow> m = n"
  by (metis decimal_show_nat of_nat_eq_iff)

lemma show_nat_not_Nil [simp]: "show_nat n \<noteq> []"
  by (subst show_nat.simps) simp

lemma backup_name_not_file [simp]: "backup_name file n \<noteq> file" "file \<noteq> backup_name file n"
  by (auto simp: backup_name_def)

lemma backup_name_inj: "inj (backup_name file)"
proof (rule injI)
  fix m n
  assume e: "backup_name file m = backup_name file n"
  have d: "''bak'' \<noteq> show_nat k @ ''.bak''" for k
  proof
    assume "''bak'' = show_nat k @ ''.bak''"
    then have "length ''bak'' = length (show_nat k @ ''.bak'')" by (rule arg_cong)
    then show False by simp
  qed
  from e d show "m = n"
    by (auto simp: backup_name_def split: if_splits)
qed

lemma finite_backups: "finite {n. k \<le> n \<and> backup_name file n \<in> dom (map_of es)}"
proof -
  have "finite (backup_name file -` dom (map_of es))"
    by (rule finite_vimageI [OF finite_dom_map_of backup_name_inj])
  then show ?thesis by (rule rev_finite_subset) auto
qed

lemma backups_above_less:
  assumes "map_of es (backup_name file k) \<noteq> None"
  shows "card {n. Suc k \<le> n \<and> backup_name file n \<in> dom (map_of es)} <
         card {n. k \<le> n \<and> backup_name file n \<in> dom (map_of es)}"
proof (rule psubset_card_mono [OF finite_backups])
  let ?A = "{n. Suc k \<le> n \<and> backup_name file n \<in> dom (map_of es)}"
  let ?B = "{n. k \<le> n \<and> backup_name file n \<in> dom (map_of es)}"
  have "?A \<subseteq> ?B" by (rule Collect_mono) simp
  moreover have "k \<in> ?B" using assms by auto
  moreover have "k \<notin> ?A" by simp
  ultimately show "?A \<subset> ?B" by blast
qed

lemma hard_link_exists: "hard_link E es old new = Err AlreadyExists \<Longrightarrow> map_of es new \<noteq> None"
  by (cases "the (f_link E new)") (auto simp: hard_link_def split: option.splits if_splits)

lemma rename_exists: "rename_noreplace E es old new = Err AlreadyExists \<Longrightarrow> map_of es new \<noteq> None"
  by (cases "the (f_rename E new)") (auto simp: rename_noreplace_def split: option.splits if_splits)

text \<open>
  The two loops over backup names. They end: a name is passed over only when it is taken,
  and a directory holds finitely many names.
\<close>

function link_to_free_backup ::
  "fs_env \<Rightarrow> string \<Rightarrow> nat \<Rightarrow> entries \<Rightarrow> (io_kind, (string \<times> entries) option) result" where
  "link_to_free_backup E file attempt es =
     (case hard_link E es file (backup_name file attempt) of
        Ok es' \<Rightarrow> Ok (Some (backup_name file attempt, es'))
      | Err AlreadyExists \<Rightarrow> link_to_free_backup E file (Suc attempt) es
      | Err NotFound \<Rightarrow> Ok None
      | Err k \<Rightarrow> Err k)"
  by pat_completeness auto
termination
  by (relation "measure (\<lambda>(E, file, k, es). card {n. k \<le> n \<and> backup_name file n \<in> dom (map_of es)})")
     (auto dest!: hard_link_exists intro!: backups_above_less)

function move_aside_in ::
  "fs_env \<Rightarrow> string \<Rightarrow> nat \<Rightarrow> entries \<Rightarrow> (io_kind, (string \<times> entries) option) result" where
  "move_aside_in E file attempt es =
     (case rename_noreplace E es file (backup_name file attempt) of
        Ok es' \<Rightarrow> Ok (Some (backup_name file attempt, es'))
      | Err AlreadyExists \<Rightarrow> move_aside_in E file (Suc attempt) es
      | Err NotFound \<Rightarrow> Ok None
      | Err Unsupported \<Rightarrow> Err Unsupported
      | Err k \<Rightarrow> Err k)"
  by pat_completeness auto
termination
  by (relation "measure (\<lambda>(E, file, k, es). card {n. k \<le> n \<and> backup_name file n \<in> dom (map_of es)})")
     (auto dest!: rename_exists intro!: backups_above_less)

declare link_to_free_backup.simps [simp del] move_aside_in.simps [simp del]

section \<open>Encoding (store.rs)\<close>

datatype store_error =
    StoreUnreadable string cannot_read
  | StoreReadFailed string io_kind
  | StoreEncode string
  | StoreIo io_kind

definition read_back :: "'s schema \<Rightarrow> bytes \<Rightarrow> (parse_failure, unit) result option" where
  "read_back S bs =
     (case read_version (sc_json S) bs None of
        Err f \<Rightarrow> Some (Err f)
      | Ok v \<Rightarrow>
          if v \<noteq> Known (VERSION S) then Some (Err (framing ''version does not read back''))
          else
            (case schema_decode S (VERSION S) bs of
               Decoded _ \<Rightarrow> Some (Ok ())
             | Shape f \<Rightarrow> Some (Err f)
             | ObsoleteVersion \<Rightarrow> None
             | Panic \<Rightarrow> None))"

definition encode :: "'s schema \<Rightarrow> 's \<Rightarrow> (store_error, bytes) result option" where
  "encode S value =
     (case sc_to_vec S (VERSION S) value of
        Err _ \<Rightarrow> Some (Err (StoreEncode ''the payload failed to serialize''))
      | Ok bs \<Rightarrow>
          (case read_back S bs of
             None \<Rightarrow> None
           | Some (Err _) \<Rightarrow> Some (Err (StoreEncode ''the framed payload does not read back as its schema''))
           | Some (Ok _) \<Rightarrow> Some (Ok bs)))"

section \<open>The read and the write path (update.rs)\<close>

record 's observed =
  obs_loaded :: "'s loaded"
  obs_generation :: nat

datatype 's change = Keep | Store 's | Remove | MoveAside

datatype update_outcome = Unchanged | Stored | Removed | NothingThere | Kept | MovedAside string

datatype create_outcome = Created | Taken

datatype step = DoNothing update_outcome | Refuse store_error | Write bool | Delete | DoMoveAside

fun over_store_step :: "store_over \<Rightarrow> store_error \<Rightarrow> step" where
  "over_store_step StoreRefuse refusal = Refuse refusal"
| "over_store_step StoreMoveAside refusal = Write True"
| "over_store_step StoreOverwrite refusal = Write False"

fun store_step :: "role \<Rightarrow> 's loaded \<Rightarrow> string \<Rightarrow> step" where
  "store_step r (Unreadable k _) file = over_store_step (on_store_io_failure r) (StoreReadFailed file k)"
| "store_step r Absent file = Write False"
| "store_step r (Obsolete _ _) file = Write False"
| "store_step r (Current _ _) file = Write False"
| "store_step r (Newer _ _) file = over_store_step (on_store r NewerFile) (StoreUnreadable file NewerFile)"
| "store_step r (Corrupt _ _) file = over_store_step (on_store r CorruptFile) (StoreUnreadable file CorruptFile)"

fun remove_over_of :: "role \<Rightarrow> 's loaded \<Rightarrow> remove_over" where
  "remove_over_of r (Unreadable _ _) = on_remove_io_failure r"
| "remove_over_of r Absent = RemoveRemove"
| "remove_over_of r (Obsolete _ _) = RemoveRemove"
| "remove_over_of r (Current _ _) = RemoveRemove"
| "remove_over_of r (Newer _ _) = on_remove r NewerFile"
| "remove_over_of r (Corrupt _ _) = on_remove r CorruptFile"

definition remove_step :: "role \<Rightarrow> 's loaded \<Rightarrow> step" where
  "remove_step r l =
     (case remove_over_of r l of
        RemoveKeep \<Rightarrow> DoNothing Kept
      | RemoveMoveAside \<Rightarrow> DoMoveAside
      | RemoveRemove \<Rightarrow> Delete)"

fun step_of :: "role \<Rightarrow> 's change \<Rightarrow> 's loaded \<Rightarrow> string \<Rightarrow> step" where
  "step_of r Keep l file = DoNothing Unchanged"
| "step_of r MoveAside l file = DoMoveAside"
| "step_of r (Store _) l file = store_step r l file"
| "step_of r Remove l file = remove_step r l"

definition read_through :: "'s schema \<Rightarrow> fs_env \<Rightarrow> entries \<Rightarrow> 's loaded option" where
  "read_through S E es = from_read S (fs_read E es (FILE_NAME S)) (probe_kind E es (FILE_NAME S))"

definition observe :: "'s schema \<Rightarrow> fs_env \<Rightarrow> world \<Rightarrow> 's observed option" where
  "observe S E w =
     map_option (\<lambda>l. \<lparr>obs_loaded = l, obs_generation = w_gen w\<rparr>)
       (case f_open E of
          Some f \<Rightarrow> from_read S (Err (fault_kind f)) (Some AtDirectory)
        | None \<Rightarrow>
            (case w_dir w of
               None \<Rightarrow> from_read S (Err NotFound) (Some AtDirectory)
             | Some es \<Rightarrow> read_through S E es))"

definition bump :: "world \<Rightarrow> world" where
  "bump w = w\<lparr>w_gen := Suc (w_gen w)\<rparr>"

definition take_back_backup :: "fs_env \<Rightarrow> entries \<Rightarrow> string option \<Rightarrow> entries" where
  "take_back_backup E es backup =
     (case backup of
        None \<Rightarrow> es
      | Some b \<Rightarrow> (case remove_file E es b of Ok es' \<Rightarrow> es' | Err _ \<Rightarrow> es))"

text \<open>\<^verbatim>\<open>write\<close>, from the moment the directory is open: prepare, stage, back up, publish.\<close>

definition write_in :: "'s schema \<Rightarrow> fs_env \<Rightarrow> entries \<Rightarrow> bytes \<Rightarrow> bool \<Rightarrow> entries \<times> io_kind option" where
  "write_in S E es bs back_up =
     (case f_prepare E of
        Some f \<Rightarrow> (es, Some (fault_kind f))
      | None \<Rightarrow>
          (case f_stage E of
             Some f \<Rightarrow> (es, Some (fault_kind f))
           | None \<Rightarrow>
               (case (if back_up then link_to_free_backup E (FILE_NAME S) 1 es else Ok None) of
                  Err k \<Rightarrow> (es, Some k)
                | Ok linked \<Rightarrow>
                    (let es1 = (case linked of Some (_, es') \<Rightarrow> es' | None \<Rightarrow> es);
                         backup = map_option fst linked
                     in case publish E es1 (FILE_NAME S) bs of
                          Err k \<Rightarrow> (take_back_backup E es1 backup, Some k)
                        | Ok es2 \<Rightarrow> (es2, None)))))"

definition vf_write :: "'s schema \<Rightarrow> fs_env \<Rightarrow> world \<Rightarrow> bytes \<Rightarrow> bool \<Rightarrow> world \<times> io_kind option" where
  "vf_write S E w bs back_up =
     (case w_dir w of
        Some es \<Rightarrow>
          (let (es', r) = write_in S E es bs back_up in ((bump w)\<lparr>w_dir := Some es'\<rparr>, r))
      | None \<Rightarrow>
          (case f_create E of
             Some f \<Rightarrow> (bump w, Some (fault_kind f))
           | None \<Rightarrow>
               (let (es', r) = write_in S E [] bs back_up in ((bump w)\<lparr>w_dir := Some es'\<rparr>, r))))"

datatype 'r update_result = UOk 'r update_outcome | UErr store_error | UPanic

definition update_read :: "'s schema \<Rightarrow> fs_env \<Rightarrow> world \<Rightarrow> 's loaded option" where
  "update_read S E w =
     (case w_dir w of
        None \<Rightarrow> Some Absent
      | Some es \<Rightarrow>
          (case f_reader E of
             Some f \<Rightarrow> from_read S (Err (fault_kind f)) (Some AtDirectory)
           | None \<Rightarrow> read_through S E es))"

definition run_step :: "'s schema \<Rightarrow> fs_env \<Rightarrow> step \<Rightarrow> bytes option \<Rightarrow> 'r \<Rightarrow> world \<Rightarrow> world \<times> 'r update_result" where
  "run_step S E st bs result w =
     (case st of
        DoNothing outcome \<Rightarrow> (w, UOk result outcome)
      | Refuse refusal \<Rightarrow> (w, UErr refusal)
      | Write back_up \<Rightarrow>
          (case bs of
             None \<Rightarrow> (w, UPanic)
           | Some b \<Rightarrow>
               (case vf_write S E w b back_up of
                  (w', None) \<Rightarrow> (w', UOk result Stored)
                | (w', Some k) \<Rightarrow> (w', UErr (StoreIo k))))
      | Delete \<Rightarrow>
          (case w_dir w of
             None \<Rightarrow> (w, UOk result NothingThere)
           | Some es \<Rightarrow>
               (case remove_file E es (FILE_NAME S) of
                  Ok es' \<Rightarrow> ((bump w)\<lparr>w_dir := Some es'\<rparr>, UOk result Removed)
                | Err NotFound \<Rightarrow> (bump w, UOk result NothingThere)
                | Err k \<Rightarrow> (bump w, UErr (StoreIo k))))
      | DoMoveAside \<Rightarrow>
          (case w_dir w of
             None \<Rightarrow> (w, UOk result NothingThere)
           | Some es \<Rightarrow>
               (case move_aside_in E (FILE_NAME S) 1 es of
                  Ok (Some (backup, es')) \<Rightarrow> ((bump w)\<lparr>w_dir := Some es'\<rparr>, UOk result (MovedAside backup))
                | Ok None \<Rightarrow> (bump w, UOk result NothingThere)
                | Err k \<Rightarrow> (bump w, UErr (StoreIo k)))))"

definition vf_update ::
  "'s schema \<Rightarrow> fs_env \<Rightarrow> ('s observed \<Rightarrow> 's change \<times> 'r) \<Rightarrow> world \<Rightarrow> world \<times> 'r update_result" where
  "vf_update S E decide_change w =
     (case f_open E of
        Some f \<Rightarrow> (w, UErr (StoreIo (fault_kind f)))
      | None \<Rightarrow>
          (case update_read S E w of
             None \<Rightarrow> (w, UPanic)
           | Some l \<Rightarrow>
               (let (change, result) = decide_change \<lparr>obs_loaded = l, obs_generation = w_gen w\<rparr> in
                case change of
                  Store value \<Rightarrow>
                    (case encode S value of
                       None \<Rightarrow> (w, UPanic)
                     | Some (Err e) \<Rightarrow> (w, UErr e)
                     | Some (Ok bs) \<Rightarrow>
                         run_step S E (step_of (ROLE S) change l (FILE_NAME S)) (Some bs) result w)
                | _ \<Rightarrow> run_step S E (step_of (ROLE S) change l (FILE_NAME S)) None result w)))"

definition create_new :: "'s schema \<Rightarrow> fs_env \<Rightarrow> 's \<Rightarrow> world \<Rightarrow> world \<times> (store_error, create_outcome) result option" where
  "create_new S E value w =
     (case encode S value of
        None \<Rightarrow> (w, None)
      | Some (Err e) \<Rightarrow> (w, Some (Err e))
      | Some (Ok bs) \<Rightarrow>
          (case f_create E of
             Some f \<Rightarrow> (w, Some (Err (StoreIo (fault_kind f))))
           | None \<Rightarrow>
               (let es = (case w_dir w of Some es \<Rightarrow> es | None \<Rightarrow> []); w1 = w\<lparr>w_dir := Some es\<rparr> in
                case f_prepare E of
                  Some f \<Rightarrow> (w1, Some (Err (StoreIo (fault_kind f))))
                | None \<Rightarrow>
                    (case f_stage E of
                       Some f \<Rightarrow> (w1, Some (Err (StoreIo (fault_kind f))))
                     | None \<Rightarrow>
                         (case claim_file E es (FILE_NAME S) bs of
                            Ok es' \<Rightarrow> (w1\<lparr>w_dir := Some es'\<rparr>, Some (Ok Created))
                          | Err AlreadyExists \<Rightarrow> (w1, Some (Ok Taken))
                          | Err k \<Rightarrow> (w1, Some (Err (StoreIo k))))))))"

section \<open>What the directory operations do\<close>

text \<open>The node at a name, absent directories included.\<close>

definition file_at :: "world \<Rightarrow> string \<Rightarrow> node option" where
  "file_at w n = (case w_dir w of None \<Rightarrow> None | Some es \<Rightarrow> map_of es n)"

lemma file_at_Some [simp]: "w_dir w = Some es \<Longrightarrow> file_at w = map_of es"
  by (rule ext) (simp add: file_at_def)

lemma file_at_None [simp]: "w_dir w = None \<Longrightarrow> file_at w = Map.empty"
  by (rule ext) (simp add: file_at_def)

lemma file_at_bump [simp]: "file_at (bump w) = file_at w"
  by (rule ext) (simp add: file_at_def bump_def)

lemma bump_sel [simp]: "w_dir (bump w) = w_dir w" "w_gen (bump w) = Suc (w_gen w)"
  by (simp_all add: bump_def)

declare update_conv' [fs_simps] delete_conv' [fs_simps]

lemma hard_link_Ok:
  "hard_link E es old new = Ok es' \<longleftrightarrow>
     f_link E new = None \<and> map_of es new = None \<and>
     (\<exists>nd. map_of es old = Some nd \<and> es' = AList.update new nd es)"
  by (auto simp: hard_link_def split: option.splits)

lemma hard_link_NotFound: "hard_link E es old new = Err NotFound \<Longrightarrow> map_of es old = None"
  by (cases "the (f_link E new)") (auto simp: hard_link_def split: option.splits if_splits)

lemma rename_Ok:
  "rename_noreplace E es old new = Ok es' \<longleftrightarrow>
     f_rename E new = None \<and> map_of es new = None \<and>
     (\<exists>nd. map_of es old = Some nd \<and> es' = AList.update new nd (AList.delete old es))"
  by (auto simp: rename_noreplace_def split: option.splits)

lemma rename_NotFound: "rename_noreplace E es old new = Err NotFound \<Longrightarrow> map_of es old = None"
  by (cases "the (f_rename E new)") (auto simp: rename_noreplace_def split: option.splits if_splits)

lemma remove_Ok:
  "remove_file E es n = Ok es' \<longleftrightarrow> f_unlink E n = None \<and> map_of es n \<noteq> None \<and> es' = AList.delete n es"
  by (auto simp: remove_file_def split: option.splits)

lemma link_to_free_backup_Some:
  assumes "link_to_free_backup E F k es = Ok (Some (b, es'))"
  shows "\<exists>nd. map_of es F = Some nd \<and> map_of es b = None \<and> b \<noteq> F \<and> map_of es' = (map_of es)(b \<mapsto> nd)"
  using assms
proof (induction E F k es rule: link_to_free_backup.induct)
  case (1 E F k es)
  from "1.prems" "1.IH" show ?case
    by (subst (asm) link_to_free_backup.simps)
       (auto simp: hard_link_Ok fs_simps fun_eq_iff split: sum.splits io_kind.splits)
qed

lemma link_to_free_backup_None:
  assumes "link_to_free_backup E F k es = Ok None"
  shows "map_of es F = None"
  using assms
proof (induction E F k es rule: link_to_free_backup.induct)
  case (1 E F k es)
  from "1.prems" "1.IH" show ?case
    by (subst (asm) link_to_free_backup.simps)
       (auto dest: hard_link_NotFound split: sum.splits io_kind.splits)
qed

lemma move_aside_in_Some:
  assumes "move_aside_in E F k es = Ok (Some (b, es'))"
  shows "\<exists>nd. map_of es F = Some nd \<and> map_of es b = None \<and> b \<noteq> F \<and>
           map_of es' = (map_of es)(F := None, b \<mapsto> nd)"
  using assms
proof (induction E F k es rule: move_aside_in.induct)
  case (1 E F k es)
  from "1.prems" "1.IH" show ?case
    by (subst (asm) move_aside_in.simps)
       (auto simp: rename_Ok fs_simps fun_eq_iff split: sum.splits io_kind.splits)
qed

text \<open>
  The invariant every write path keeps, from the names' point of view: \<open>kept_except F\<close> says
  that no name but \<open>F\<close> loses or changes its node.
\<close>

definition kept_except :: "string \<Rightarrow> (string \<rightharpoonup> node) \<Rightarrow> (string \<rightharpoonup> node) \<Rightarrow> bool" where
  "kept_except F m m' \<longleftrightarrow> (\<forall>n nd. n \<noteq> F \<longrightarrow> m n = Some nd \<longrightarrow> m' n = Some nd)"

lemma kept_except_refl [simp]: "kept_except F m m"
  by (simp add: kept_except_def)

lemma kept_except_upd [simp]: "m b = None \<Longrightarrow> kept_except F m (m(b \<mapsto> nd))"
  by (auto simp: kept_except_def)

lemma kept_except_upd_F [simp]: "kept_except F m (m'(F := x)) \<longleftrightarrow> kept_except F m m'"
  by (auto simp: kept_except_def)

lemma kept_except_del [simp]: "m b = None \<Longrightarrow> kept_except F m (m(b := None))"
  by (auto simp: kept_except_def)

lemma kept_except_move [simp]: "m b = None \<Longrightarrow> kept_except F m (m(F := x, b \<mapsto> nd))"
  by (auto simp: kept_except_def)

lemma kept_except_empty [simp]: "kept_except F (\<lambda>_. None) m"
  by (simp add: kept_except_def)

lemma write_in_Err:
  assumes "write_in S E es bs bu = (es', Some k)"
  shows "map_of es' (FILE_NAME S) = map_of es (FILE_NAME S)"
    and "kept_except (FILE_NAME S) (map_of es) (map_of es')"
  using assms
  by (auto simp: write_in_def Let_def take_back_backup_def remove_Ok fs_simps
      split: option.splits sum.splits if_splits dest!: link_to_free_backup_Some)

lemma write_in_Ok:
  assumes "write_in S E es bs bu = (es', None)"
  shows "map_of es' (FILE_NAME S) = Some (Regular bs)"
    and "kept_except (FILE_NAME S) (map_of es) (map_of es')"
    and "bu \<Longrightarrow> map_of es (FILE_NAME S) = Some nd \<Longrightarrow> \<exists>b. map_of es' b = Some nd"
proof -
  from assms obtain linked where l: "(if bu then link_to_free_backup E (FILE_NAME S) 1 es else Ok None) = Ok linked"
    and e: "map_of es' = (map_of (case linked of Some (_, es1) \<Rightarrow> es1 | None \<Rightarrow> es))(FILE_NAME S \<mapsto> Regular bs)"
    by (auto simp: write_in_def publish_def Let_def fs_simps split: option.splits sum.splits)
  from e show "map_of es' (FILE_NAME S) = Some (Regular bs)" by simp
  have k: "kept_except (FILE_NAME S) (map_of es) (map_of (case linked of Some (_, es1) \<Rightarrow> es1 | None \<Rightarrow> es))"
    using l by (auto split: option.splits if_splits dest!: link_to_free_backup_Some)
  then show "kept_except (FILE_NAME S) (map_of es) (map_of es')" by (simp add: e)
  assume "bu" "map_of es (FILE_NAME S) = Some nd"
  with l obtain b es1 where "linked = Some (b, es1)" "link_to_free_backup E (FILE_NAME S) 1 es = Ok (Some (b, es1))"
    by (cases linked) (auto dest: link_to_free_backup_None)
  with e link_to_free_backup_Some \<open>map_of es (FILE_NAME S) = Some nd\<close>
  show "\<exists>b. map_of es' b = Some nd" by (force intro: exI [of _ b])
qed

lemma vf_write_Err:
  assumes "vf_write S E w bs bu = (w', Some k)"
  shows "file_at w' (FILE_NAME S) = file_at w (FILE_NAME S)"
    and "kept_except (FILE_NAME S) (file_at w) (file_at w')"
    and "w_gen w' = Suc (w_gen w)"
  using assms write_in_Err [of S E _ bs bu]
  by (auto simp: vf_write_def split: option.splits prod.splits)

lemma vf_write_Ok:
  assumes "vf_write S E w bs bu = (w', None)"
  shows "file_at w' (FILE_NAME S) = Some (Regular bs)"
    and "kept_except (FILE_NAME S) (file_at w) (file_at w')"
    and "w_gen w' = Suc (w_gen w)"
    and "bu \<Longrightarrow> file_at w (FILE_NAME S) = Some nd \<Longrightarrow> \<exists>b. file_at w' b = Some nd"
    and "w_dir w' \<noteq> None"
  using assms write_in_Ok [of S E _ bs bu]
  by (auto simp: vf_write_def split: option.splits prod.splits)

section \<open>What an update does\<close>

lemma file_at_set_dir [simp]: "file_at (w\<lparr>w_dir := Some es\<rparr>) = map_of es"
  by (rule file_at_Some) simp

lemma run_step_kept:
  assumes "run_step S E st bs res w = (w', r)"
  shows "kept_except (FILE_NAME S) (file_at w) (file_at w')"
  using assms vf_write_Err(2) [of S E w] vf_write_Ok(2) [of S E w]
  by (auto simp: run_step_def remove_Ok fs_simps
      split: step.splits option.splits sum.splits io_kind.splits prod.splits
      dest!: move_aside_in_Some)

lemma run_step_not_ok:
  assumes "run_step S E st bs res w = (w', r)" "\<And>x u. r \<noteq> UOk x u"
  shows "file_at w' (FILE_NAME S) = file_at w (FILE_NAME S)"
  using assms vf_write_Err(1) [of S E w]
  by (auto simp: run_step_def split: step.splits option.splits sum.splits io_kind.splits prod.splits)

lemma run_step_gen:
  assumes "run_step S E st bs res w = (w', r)" "w_gen w' = w_gen w"
  shows "w' = w"
  using assms vf_write_Err(3) [of S E w] vf_write_Ok(3) [of S E w]
  by (auto simp: run_step_def split: step.splits option.splits sum.splits io_kind.splits prod.splits)

lemma run_step_stored:
  assumes "run_step S E st bs res w = (w', UOk x Stored)" "\<And>u. st = DoNothing u \<Longrightarrow> u \<noteq> Stored"
  shows "\<exists>b bu. bs = Some b \<and> st = Write bu \<and> vf_write S E w b bu = (w', None)"
  using assms
  by (auto simp: run_step_def split: step.splits option.splits sum.splits io_kind.splits prod.splits)

lemma step_of_nothing: "step_of r c l f = DoNothing u \<Longrightarrow> u = Unchanged \<or> u = Kept"
  by (cases c; cases l; cases r)
     (auto simp: remove_step_def split: remove_over.splits)

lemma vf_update_cases:
  assumes "vf_update S E d w = (w', r)"
  obtains (stopped) "w' = w" "\<And>x u. r \<noteq> UOk x u"
  | (ran) l change res bs where
      "f_open E = None" "update_read S E w = Some l"
      "d \<lparr>obs_loaded = l, obs_generation = w_gen w\<rparr> = (change, res)"
      "\<And>v. change = Store v \<Longrightarrow> \<exists>b. encode S v = Some (Ok b) \<and> bs = Some b"
      "bs \<noteq> None \<Longrightarrow> \<exists>v. change = Store v"
      "run_step S E (step_of (ROLE S) change l (FILE_NAME S)) bs res w = (w', r)"
proof (cases "f_open E = None \<and> update_read S E w \<noteq> None")
  case False
  with assms show thesis
    by (intro stopped) (auto simp: vf_update_def split: option.splits)
next
  case True
  then obtain l where l: "f_open E = None" "update_read S E w = Some l" by auto
  obtain change res where d: "d \<lparr>obs_loaded = l, obs_generation = w_gen w\<rparr> = (change, res)"
    by (cases "d \<lparr>obs_loaded = l, obs_generation = w_gen w\<rparr>")
  note eq = assms [unfolded vf_update_def l d option.case prod.case Let_def]
  show thesis
  proof (cases "\<exists>v. change = Store v")
    case True
    then obtain v where c: "change = Store v" by blast
    show thesis
    proof (cases "\<exists>b. encode S v = Some (Ok b)")
      case True
      then obtain b where "encode S v = Some (Ok b)" by blast
      with l d c eq show thesis by (intro ran [of l change res "Some b"]) auto
    next
      case False
      with eq c show thesis by (intro stopped) (auto split: option.splits sum.splits)
    qed
  next
    case False
    with eq l d show thesis by (intro ran [of l change res None]) (auto split: change.splits)
  qed
qed

text \<open>A file of another name, and not the name of a backup, is not touched.\<close>

lemma link_to_free_backup_name: "link_to_free_backup E F k es = Ok (Some (b, es')) \<Longrightarrow> b \<in> range (backup_name F)"
proof (induction E F k es rule: link_to_free_backup.induct)
  case (1 E F k es)
  from "1.prems" "1.IH" show ?case
    by (subst (asm) link_to_free_backup.simps) (auto split: sum.splits io_kind.splits)
qed

lemma move_aside_in_name: "move_aside_in E F k es = Ok (Some (b, es')) \<Longrightarrow> b \<in> range (backup_name F)"
proof (induction E F k es rule: move_aside_in.induct)
  case (1 E F k es)
  from "1.prems" "1.IH" show ?case
    by (subst (asm) move_aside_in.simps) (auto split: sum.splits io_kind.splits)
qed

lemma write_in_elsewhere:
  assumes "write_in S E es bs bu = (es', r)" "n \<noteq> FILE_NAME S" "n \<notin> range (backup_name (FILE_NAME S))"
  shows "map_of es' n = map_of es n"
proof -
  have linked: "map_of es1 n = map_of es n \<and> b \<noteq> n" if "link_to_free_backup E (FILE_NAME S) 1 es = Ok (Some (b, es1))" for b es1
    using link_to_free_backup_Some [OF that] link_to_free_backup_name [OF that] assms(3) by auto
  from assms(1,2) linked show ?thesis
    by (auto simp: write_in_def publish_def Let_def take_back_backup_def remove_Ok fs_simps
        split: option.splits sum.splits if_splits)
qed

lemma vf_update_elsewhere:
  assumes "vf_update S E d w = (w', r)" "n \<noteq> FILE_NAME S" "n \<notin> range (backup_name (FILE_NAME S))"
  shows "file_at w' n = file_at w n"
  using assms(1)
proof (cases rule: vf_update_cases)
  case (ran l change res bs)
  have wr: "file_at w' n = file_at w n" if "vf_write S E w b bu = (w', k)" for b bu k
    using that write_in_elsewhere [OF _ assms(2,3), of E _ b bu]
    by (auto simp: vf_write_def split: option.splits prod.splits)
  have mv: "map_of es' n = map_of es n" if "move_aside_in E (FILE_NAME S) 1 es = Ok (Some (b, es'))" for b es es'
    using move_aside_in_Some [OF that] move_aside_in_name [OF that] assms(2,3) by auto
  from ran(6) wr mv assms(2) show ?thesis
    by (auto simp: run_step_def remove_Ok fs_simps split: step.splits option.splits sum.splits io_kind.splits prod.splits)
qed simp

text \<open>
  The steps that can lose the node at the file's name are a write without a backup and a
  delete; over a file that cannot be read the roles choose them in two cells only.
\<close>

definition cannot_be_read :: "'s loaded \<Rightarrow> bool" where
  "cannot_be_read l = (case l of Absent \<Rightarrow> False | Obsolete _ _ \<Rightarrow> False | Current _ _ \<Rightarrow> False | _ \<Rightarrow> True)"

lemma lossy_step:
  assumes "cannot_be_read l" "step_of r c l f = Write False \<or> step_of r c l f = Delete"
  shows "(r = Claim \<and> c = Remove) \<or> (r = Config \<and> (\<exists>v. c = Store v) \<and> (\<exists>p b. l = Corrupt p b))"
  using assms
  by (cases c; cases l; cases r)
     (simp_all add: remove_step_def cannot_be_read_def)

lemma run_step_saves:
  assumes "run_step S E st bs res w = (w', r)" "file_at w (FILE_NAME S) = Some nd"
    "st \<noteq> Write False" "st \<noteq> Delete"
  shows "\<exists>n. file_at w' n = Some nd"
proof (cases st)
  case (Write bu)
  with assms have bu: "st = Write True" by (cases bu) auto
  show ?thesis
  proof (cases bs)
    case (Some b)
    obtain w1 k where v: "vf_write S E w b True = (w1, k)" by (cases "vf_write S E w b True")
    have "\<exists>n. file_at w1 n = Some nd"
    proof (cases k)
      case None
      with v vf_write_Ok(4) [of S E w b True w1 nd] assms(2) show ?thesis by simp
    next
      case (Some e)
      with v vf_write_Err(1) [of S E w b True w1 e] assms(2) show ?thesis by (metis)
    qed
    moreover have "w' = w1" using assms(1) bu Some v by (auto simp: run_step_def split: option.splits)
    ultimately show ?thesis by simp
  qed (use assms bu in \<open>auto simp: run_step_def\<close>)
next
  case DoMoveAside
  with assms(1,2) show ?thesis
    by (auto simp: run_step_def split: option.splits sum.splits io_kind.splits
        dest!: move_aside_in_Some intro: exI [of _ "_ :: string"])
qed (use assms in \<open>auto simp: run_step_def\<close>)

lemma encode_reads_back:
  assumes "encode S v = Some (Ok bs)"
  shows "\<exists>x. sc_from_slice S bs = Ok x \<and> from_read S (Ok bs) at = Some (Current x (VERSION S))"
proof -
  from assms have r: "read_back S bs = Some (Ok ())"
    by (auto simp: encode_def split: sum.splits option.splits)
  then have v: "read_version (sc_json S) bs None = Ok (Known (VERSION S))"
    by (auto simp: read_back_def split: sum.splits if_splits)
  with r obtain x where x: "schema_decode S (VERSION S) bs = Decoded x"
    by (auto simp: read_back_def split: decoded.splits)
  then have f: "sc_from_slice S bs = Ok x"
    by (auto simp: schema_decode_def schema_chain_def split: sum.splits)
  from v have "read_version (sc_json S) bs (UNVERSIONED_AS S) = Ok (Known (VERSION S))"
    by (auto simp: read_version_def split: sum.splits option.splits)
  with x f show ?thesis by (simp add: from_read_def version_within_def)
qed

lemma read_no_faults:
  "w_dir w = Some es \<Longrightarrow> map_of es (FILE_NAME S) = Some (Regular bs) \<Longrightarrow>
   observe S no_faults w = map_option (\<lambda>l. \<lparr>obs_loaded = l, obs_generation = w_gen w\<rparr>) (from_read S (Ok bs) (Some AtFile))"
  by (simp add: observe_def read_through_def fs_read_def probe_kind_def no_faults_def)

section \<open>The interface the state files' owners use\<close>

text \<open>
  What a module that keeps a decision in a state file relies on: \<open>rd\<close> is what a read that
  meets no I/O failure finds, \<open>seen\<close> what the closure of an update is shown, \<open>upd\<close> the
  read-modify-write itself, and \<open>reads_as v x\<close> says that a stored \<open>v\<close> reads back as \<open>x\<close>.
\<close>

locale state_file =
  fixes rd :: "'w \<Rightarrow> 's loaded option"
    and seen :: "'w \<Rightarrow> 's observed option"
    and upd :: "('s observed \<Rightarrow> 's change \<times> 'r) \<Rightarrow> 'w \<Rightarrow> 'w \<times> 'r update_result"
    and reads_as :: "'s \<Rightarrow> 's \<Rightarrow> bool"
  assumes failed: "upd d w = (w', UErr e) \<Longrightarrow> rd w' = rd w"
    and unchanged: "upd d w = (w', UOk x Unchanged) \<Longrightarrow> w' = w"
    and result: "upd d w = (w', UOk x u) \<Longrightarrow> \<exists>ob. seen w = Some ob \<and> snd (d ob) = x"
    and stored: "upd d w = (w', UOk x u) \<Longrightarrow> seen w = Some ob \<Longrightarrow> fst (d ob) = Store v \<Longrightarrow>
      u = Stored \<and> (\<exists>s n. reads_as v s \<and> rd w' = Some (Current s n))"
    and kept: "upd d w = (w', UOk x u) \<Longrightarrow> seen w = Some ob \<Longrightarrow> fst (d ob) = Keep \<Longrightarrow> u = Unchanged"
begin

text \<open>A module that never removes or moves its file: an update leaves the old value or the new one.\<close>

lemma old_or_new:
  assumes "upd d w = (w', r)" "r \<noteq> UPanic" "\<And>ob. seen w = Some ob \<Longrightarrow> fst (d ob) = Keep \<or> (\<exists>v. fst (d ob) = Store v)"
  shows "rd w' = rd w \<or>
    (\<exists>ob v s n. seen w = Some ob \<and> fst (d ob) = Store v \<and> reads_as v s \<and> rd w' = Some (Current s n))"
proof (cases r)
  case (UOk x u)
  from result [of d w w' x u] assms(1) UOk obtain ob where ob: "seen w = Some ob" by blast
  from assms(3) [OF ob] show ?thesis
  proof
    assume "fst (d ob) = Keep"
    with kept [of d w w' x u ob] unchanged [of d w w' x] assms(1) UOk ob show ?thesis by auto
  next
    assume "\<exists>v. fst (d ob) = Store v"
    with stored [of d w w' x u ob] assms(1) UOk ob show ?thesis by blast
  qed
qed (use assms failed in auto)

end

text \<open>What a read that meets no I/O failure finds depends on the node at the name alone.\<close>

definition load_node :: "'s schema \<Rightarrow> node option \<Rightarrow> 's loaded option" where
  "load_node S nd =
     (case nd of
        None \<Rightarrow> Some Absent
      | Some (Regular bs) \<Rightarrow> from_read S (Ok bs) (Some AtFile)
      | Some _ \<Rightarrow> Some (Unreadable (OtherKind 0) NotAFile))"

definition clean_read :: "'s schema \<Rightarrow> world \<Rightarrow> 's loaded option" where
  "clean_read S w = map_option obs_loaded (observe S no_faults w)"

definition seen_by_update :: "'s schema \<Rightarrow> fs_env \<Rightarrow> world \<Rightarrow> 's observed option" where
  "seen_by_update S E w =
     (if f_open E = None
      then map_option (\<lambda>l. \<lparr>obs_loaded = l, obs_generation = w_gen w\<rparr>) (update_read S E w) else None)"

definition reads_back_as :: "'s schema \<Rightarrow> 's \<Rightarrow> 's \<Rightarrow> bool" where
  "reads_back_as S v x \<longleftrightarrow> (\<exists>bs. sc_to_vec S (VERSION S) v = Ok bs \<and> sc_from_slice S bs = Ok x)"

lemma clean_read_node: "clean_read S w = load_node S (file_at w (FILE_NAME S))"
  by (cases "w_dir w")
     (auto simp: clean_read_def observe_def load_node_def read_through_def fs_read_def probe_kind_def
       no_faults_def from_read_def option.map_comp comp_def option.map_id0 [unfolded id_def]
       split: option.splits node.splits)

lemma encode_to_vec: "encode S v = Some (Ok bs) \<Longrightarrow> sc_to_vec S (VERSION S) v = Ok bs"
  by (auto simp: encode_def split: sum.splits option.splits)

lemma vf_update_stored:
  assumes "vf_update S E d w = (w', UOk x u)" "seen_by_update S E w = Some ob" "fst (d ob) = Store v"
  shows "u = Stored \<and> (\<exists>s. reads_back_as S v s \<and> clean_read S w' = Some (Current s (VERSION S)))"
  using assms(1)
proof (cases rule: vf_update_cases)
  case (ran l change res bs)
  with assms(2,3) have c: "change = Store v" by (auto simp: seen_by_update_def)
  with ran obtain b where b: "encode S v = Some (Ok b)" "bs = Some b" by blast
  have "\<exists>bu. store_step (ROLE S) l (FILE_NAME S) = Write bu \<and> u = Stored \<and> vf_write S E w b bu = (w', None)"
    using ran(6) b c
    by (cases l; cases "ROLE S") (auto simp: run_step_def split: option.splits prod.splits)
  then have "u = Stored" "file_at w' (FILE_NAME S) = Some (Regular b)"
    using vf_write_Ok(1) by blast+
  moreover from encode_reads_back [OF b(1)] encode_to_vec [OF b(1)]
  have "\<exists>s. reads_back_as S v s \<and> from_read S (Ok b) (Some AtFile) = Some (Current s (VERSION S))"
    by (metis reads_back_as_def)
  ultimately show ?thesis by (simp add: clean_read_node load_node_def)
qed auto

interpretation vf: state_file "clean_read S" "seen_by_update S E" "vf_update S E" "reads_back_as S"
  for S :: "'s schema" and E :: fs_env
proof (unfold_locales, goal_cases)
  case (1 d w w' e)
  then have "file_at w' (FILE_NAME S) = file_at w (FILE_NAME S)"
    by (cases rule: vf_update_cases) (auto dest: run_step_not_ok)
  then show ?case by (simp add: clean_read_node)
next
  case (2 d w w' x)
  then show ?case
  proof (cases rule: vf_update_cases)
    case (ran l change res bs)
    then show ?thesis
      by (auto simp: run_step_def split: step.splits option.splits sum.splits io_kind.splits prod.splits)
  qed auto
next
  case (3 d w w' x u)
  then show ?case
  proof (cases rule: vf_update_cases)
    case (ran l change res bs)
    then have "x = res"
      by (auto simp: run_step_def split: step.splits option.splits sum.splits io_kind.splits prod.splits)
    with ran show ?thesis by (simp add: seen_by_update_def)
  qed auto
next
  case (4 d w w' x u ob v)
  then show ?case using vf_update_stored by metis
next
  case (5 d w w' x u ob)
  from 5(1) show ?case
  proof (cases rule: vf_update_cases)
    case (ran l change res bs)
    with 5 show ?thesis by (auto simp: seen_by_update_def run_step_def)
  qed auto
qed

section \<open>Schema chains never panic on a version they cover\<close>

definition total_chain :: "'s chain \<Rightarrow> bool" where
  "total_chain c \<longleftrightarrow> (\<forall>w bs. w \<le> chain_top c \<longrightarrow> chain_decode c w bs \<noteq> Panic)"

lemma total_obsolete [simp, intro]: "total_chain (obsolete_chain below)"
  by (simp add: total_chain_def obsolete_chain_def)

lemma upgrade_decoded_Panic [simp]: "upgrade_decoded up x = Panic \<longleftrightarrow> x = Panic"
  by (cases x) simp_all

lemma total_schema_chain [intro]:
  "total_chain prev \<Longrightarrow> v = chain_top prev + 1 \<Longrightarrow> total_chain (schema_chain v fs prev up)"
  by (auto simp: total_chain_def schema_chain_def split: sum.splits)

definition schema_linked :: "'s schema \<Rightarrow> bool" where
  "schema_linked S \<longleftrightarrow> VERSION S = chain_top (sc_prev S) + 1 \<and> total_chain (sc_prev S)"

lemma from_read_total: "schema_linked S \<Longrightarrow> from_read S rd at \<noteq> None"
  by (auto simp: from_read_def schema_linked_def schema_decode_def schema_chain_def total_chain_def
      version_within_def split: sum.splits io_kind.splits option.splits version.splits if_splits decoded.splits)

lemma encode_no_panic: "encode S v \<noteq> None"
  by (auto simp: encode_def read_back_def schema_decode_def schema_chain_def
      split: sum.splits decoded.splits)

lemma update_no_panic:
  assumes "schema_linked S"
  shows "snd (vf_update S E d w) \<noteq> UPanic"
proof -
  from from_read_total [OF assms] have u: "update_read S E w \<noteq> None"
    by (auto simp: update_read_def read_through_def split: option.splits)
  have nw: "step_of r c l f \<noteq> Write b" if "\<And>v. c \<noteq> Store v" for r and c :: "'a change" and l f b
    using that by (cases c; cases l; cases r) (auto simp: remove_step_def)
  have rs: "snd (run_step S E st bs x w) \<noteq> UPanic" if "bs \<noteq> None \<or> (\<forall>b. st \<noteq> Write b)" for st bs and x :: 'b
    using that
    by (auto simp: run_step_def split: step.splits option.splits sum.splits io_kind.splits prod.splits)
  from u obtain l where l: "update_read S E w = Some l" by blast
  obtain c x where d: "d \<lparr>obs_loaded = l, obs_generation = w_gen w\<rparr> = (c, x)" by force
  show "snd (vf_update S E d w) \<noteq> UPanic"
  proof (cases "\<exists>v. c = Store v")
    case True
    then obtain v where c: "c = Store v" by blast
    from encode_no_panic [of S v] obtain e where "encode S v = Some e" by blast
    with l d c rs show ?thesis by (cases e) (auto simp: vf_update_def split: option.splits)
  next
    case False
    with nw have "\<forall>b. step_of (ROLE S) c l (FILE_NAME S) \<noteq> Write b" by blast
    with rs have "snd (run_step S E (step_of (ROLE S) c l (FILE_NAME S)) None x w) \<noteq> UPanic" by blast
    with l d False show ?thesis by (cases c) (auto simp: vf_update_def split: option.splits)
  qed
qed

section \<open>A sample schema\<close>

text \<open>
  A concrete instance of the parameters: the first byte of a file is its version, the second
  its payload; version 2 upgrades to a fixed payload and version 1 is obsolete.
\<close>

definition sample_json :: json_lib where
  "sample_json =
     \<lparr>json_entries = (\<lambda>bs. case bs of
        [] \<Rightarrow> ([], Some (framing ''EOF''))
      | b # _ \<Rightarrow> ([(''version'', [b])], None)),
      json_duplicate = (\<lambda>_. framing ''duplicate'')\<rparr>"

definition sample_from_slice :: "bytes \<Rightarrow> (parse_failure, char) result" where
  "sample_from_slice bs = (case bs of [_, p] \<Rightarrow> Ok p | _ \<Rightarrow> Err (framing ''data''))"

definition sample_schema :: "role \<Rightarrow> char schema" where
  "sample_schema r =
     \<lparr>FILE_NAME = ''s.json'', ROLE = r, VERSION = 3, UNVERSIONED_AS = None, sc_json = sample_json,
      sc_from_slice = sample_from_slice,
      sc_to_vec = (\<lambda>v x. Ok [char_of (48 + v), x]),
      sc_prev = schema_chain 2 sample_from_slice (obsolete_chain 1 :: char chain) (\<lambda>_. CHR ''u'')\<rparr>"

lemma sample_sel [simp]: "FILE_NAME (sample_schema r) = ''s.json''" "ROLE (sample_schema r) = r"
  by (simp_all add: sample_schema_def)

lemma sample_linked [simp]: "schema_linked (sample_schema r)"
  by (auto simp: schema_linked_def sample_schema_def schema_chain_def [of 2] obsolete_chain_def total_chain_def
      upgrade_decoded_Panic split: sum.splits)

definition sample_world :: "bytes \<Rightarrow> world" where
  "sample_world bs = \<lparr>w_dir = Some [(''other'', Regular []), (''s.json'', Regular bs)], w_gen = 0\<rparr>"

section \<open>Properties\<close>

text \<open>
  C9. A file that could not be read is never destroyed. Whatever the role, the change asked
  for and the calls that fail on the way: when an update found the file newer, corrupt or
  failing to read, the node that was at the name is still in the directory afterwards, at the
  name or at a backup, with two documented exceptions (removing a claim, saving over a
  corrupt configuration).
\<close>

theorem unreadable_never_destroyed:
  assumes "vf_update S E d w = (w', r)" "update_read S E w = Some l" "cannot_be_read l"
    and "file_at w (FILE_NAME S) = Some nd"
    and "\<not> (ROLE S = Claim \<and> fst (d \<lparr>obs_loaded = l, obs_generation = w_gen w\<rparr>) = Remove)"
    and "\<not> (ROLE S = Config \<and> (\<exists>p b. l = Corrupt p b) \<and>
      (\<exists>v. fst (d \<lparr>obs_loaded = l, obs_generation = w_gen w\<rparr>) = Store v))"
  shows "\<exists>n. file_at w' n = Some nd"
  using assms(1)
proof (cases rule: vf_update_cases)
  case (ran l' change res bs)
  with assms(2) have [simp]: "l' = l" by simp
  from lossy_step [OF assms(3), of "ROLE S" change "FILE_NAME S"] assms(5,6) ran(3)
  have "step_of (ROLE S) change l (FILE_NAME S) \<noteq> Write False" "step_of (ROLE S) change l (FILE_NAME S) \<noteq> Delete"
    by auto
  with run_step_saves [OF ran(6) assms(4)] show ?thesis by simp
qed (use assms(4) in auto)

text \<open>The file of a newer build, saved over by a decision: its bytes are in the backup.\<close>

theorem unreadable_never_destroyed_witness:
  "\<exists>n. file_at (fst (vf_update (sample_schema Decision) no_faults (\<lambda>_. (Store (CHR ''5''), ())) (sample_world ''49''))) n
     = Some (Regular ''49'')"
proof (rule unreadable_never_destroyed)
  show "vf_update (sample_schema Decision) no_faults (\<lambda>_. (Store (CHR ''5''), ())) (sample_world ''49'') =
    (fst (vf_update (sample_schema Decision) no_faults (\<lambda>_. (Store (CHR ''5''), ())) (sample_world ''49'')),
     snd (vf_update (sample_schema Decision) no_faults (\<lambda>_. (Store (CHR ''5''), ())) (sample_world ''49'')))"
    by simp
  show "update_read (sample_schema Decision) no_faults (sample_world ''49'') = Some (Newer (Some 4) ''49'')"
    by code_simp
  show "file_at (sample_world ''49'') (FILE_NAME (sample_schema Decision)) = Some (Regular ''49'')"
    by code_simp
qed (simp_all add: cannot_be_read_def)

text \<open>
  The frame of an update: no other name of the directory loses or changes its node, and
  an update that does not succeed leaves the file at its own name as it was (a failed publish
  after a backup was linked included).
\<close>

theorem update_frame:
  assumes "vf_update S E d w = (w', r)"
  shows "(\<forall>n nd. n \<noteq> FILE_NAME S \<longrightarrow> file_at w n = Some nd \<longrightarrow> file_at w' n = Some nd) \<and>
    ((\<forall>x u. r \<noteq> UOk x u) \<longrightarrow> file_at w' (FILE_NAME S) = file_at w (FILE_NAME S))"
  using assms
proof (cases rule: vf_update_cases)
  case (ran l change res bs)
  with run_step_kept run_step_not_ok show ?thesis unfolding kept_except_def by metis
qed simp

theorem update_frame_witness:
  "file_at (fst (vf_update (sample_schema Decision) (no_faults\<lparr>f_publish := Some (FaultOther 1)\<rparr>)
     (\<lambda>_. (Store (CHR ''5''), ())) (sample_world ''49''))) ''s.json'' = Some (Regular ''49'')"
proof -
  let ?u = "vf_update (sample_schema Decision) (no_faults\<lparr>f_publish := Some (FaultOther 1)\<rparr>)
     (\<lambda>_. (Store (CHR ''5''), ())) (sample_world ''49'')"
  have "snd ?u = UErr (StoreIo (OtherKind 1))" by code_simp
  moreover have "file_at (sample_world ''49'') ''s.json'' = Some (Regular ''49'')" by code_simp
  moreover from calculation(1) have
    "vf_update (sample_schema Decision) (no_faults\<lparr>f_publish := Some (FaultOther 1)\<rparr>)
       (\<lambda>_. (Store (CHR ''5''), ())) (sample_world ''49'') = (fst ?u, UErr (StoreIo (OtherKind 1)))"
    by (metis prod.collapse)
  ultimately show ?thesis using update_frame [of "sample_schema Decision"] by (metis sample_sel(1) update_result.distinct(1))
qed

text \<open>
  C32. What an update stored reads back: after a successful update whose closure asked to
  store a value, a read that meets no I/O failure classifies the file as current, at the
  build's own version, with the value the serializer's bytes decode to.
\<close>

theorem stored_reads_back:
  assumes "vf_update S E d w = (w', UOk x u)" "seen_by_update S E w = Some ob" "fst (d ob) = Store v"
  shows "u = Stored \<and>
    (\<exists>bs s. sc_to_vec S (VERSION S) v = Ok bs \<and> sc_from_slice S bs = Ok s \<and>
       observe S no_faults w' = Some \<lparr>obs_loaded = Current s (VERSION S), obs_generation = w_gen w'\<rparr>)"
  using vf_update_stored [OF assms]
  by (auto simp: reads_back_as_def clean_read_def observe_def)

theorem stored_reads_back_witness:
  "map_option obs_loaded (observe (sample_schema Decision) no_faults
     (fst (vf_update (sample_schema Decision) no_faults (\<lambda>_. (Store (CHR ''5''), ())) (sample_world ''49'')))) = Some (Current (CHR ''5'') 3)"
proof -
  let ?u = "vf_update (sample_schema Decision) no_faults (\<lambda>_. (Store (CHR ''5''), ())) (sample_world ''49'')"
  have "snd ?u = UOk () Stored" by code_simp
  then have u: "?u = (fst ?u, UOk () Stored)" by (metis prod.collapse)
  have s: "seen_by_update (sample_schema Decision) no_faults (sample_world ''49'') =
      Some \<lparr>obs_loaded = Newer (Some 4) ''49'', obs_generation = 0\<rparr>" by code_simp
  from stored_reads_back [OF u s, of "CHR ''5''"] show ?thesis
    by (auto simp: sample_schema_def sample_from_slice_def)
qed



text \<open>
  The generation tells every change: an update that leaves the generation of the path
  as it was left the directory as it was. (The proxy manager compares generations to learn
  whether a state file it looked at earlier may have changed.)
\<close>

theorem same_generation_same_world:
  assumes "w_gen (fst (vf_update S E d w)) = w_gen w"
  shows "fst (vf_update S E d w) = w"
proof (cases "vf_update S E d w")
  case (Pair w' r)
  from Pair show ?thesis
  proof (cases rule: vf_update_cases)
    case (ran l change res bs)
    with run_step_gen Pair assms show ?thesis by fastforce
  qed (simp add: Pair)
qed

theorem same_generation_same_world_witness:
  "fst (vf_update (sample_schema OsRecord) no_faults (\<lambda>_. (Store (CHR ''5''), ())) (sample_world ''49'')) = sample_world ''49''"
proof (rule same_generation_same_world)
  show "w_gen (fst (vf_update (sample_schema OsRecord) no_faults (\<lambda>_. (Store (CHR ''5''), ())) (sample_world ''49'')))
    = w_gen (sample_world ''49'')" by code_simp
qed

text \<open>
  Claiming a file never replaces one: no node present before is lost or changed whatever
  the outcome, and \<^verbatim>\<open>Created\<close> is answered only when the name was free, with the encoded
  value there afterwards.
\<close>

theorem create_new_never_replaces:
  assumes "create_new S E v w = (w', r)"
  shows "(\<forall>n nd. file_at w n = Some nd \<longrightarrow> file_at w' n = Some nd) \<and>
    (r = Some (Ok Created) \<longrightarrow> file_at w (FILE_NAME S) = None \<and>
       (\<exists>bs. encode S v = Some (Ok bs) \<and> file_at w' (FILE_NAME S) = Some (Regular bs))) \<and>
    (r = Some (Ok Taken) \<longrightarrow> file_at w (FILE_NAME S) \<noteq> None)"
  using assms
  by (cases "w_dir w"; cases "f_claim E")
     (auto simp: create_new_def Let_def claim_file_def fs_simps
       dest!: fault_kind_not split: option.splits sum.splits io_kind.splits if_splits)

theorem create_new_never_replaces_witness:
  "file_at (fst (create_new (sample_schema Claim) no_faults (CHR ''7'') (sample_world ''49''))) ''s.json'' = Some (Regular ''49'')"
proof -
  have "file_at (sample_world ''49'') ''s.json'' = Some (Regular ''49'')" by code_simp
  then show ?thesis
    using create_new_never_replaces [of "sample_schema Claim" no_faults "CHR ''7''" "sample_world ''49''"]
    by (metis prod.collapse)
qed

end
