(* ===== verification/Lockdown.thy ===== *)
theory Lockdown
  imports Versioned_File
begin

text \<open>
  The standing kill switch's recorded intent
  (crates/tun-engine/src/routing/failclosed/lockdown_state.rs) and the boot-time decision over
  it (\<^verbatim>\<open>decide_cover_recovery\<close> and its types, crates/tun-engine/src/routing.rs).

  The intent file is a \<open>Versioned_File\<close> of role \<^verbatim>\<open>Decision\<close>; the derived serializers of its
  payload are the parameter \<open>codec\<close>. One \<open>world\<close> stands for the bridge's state directory: the
  state files of the bridge have different names in it.
\<close>

section \<open>The derived serializers\<close>

record 's codec =
  cd_json :: json_lib
  cd_from_slice :: "bytes \<Rightarrow> (parse_failure, 's) result"
  cd_to_vec :: "int \<Rightarrow> 's \<Rightarrow> (parse_failure, bytes) result"

text \<open>A file at version 1 whose previous schema is \<^verbatim>\<open>Obsolete<0>\<close>, of a given role.\<close>

definition record_file :: "role \<Rightarrow> string \<Rightarrow> 's codec \<Rightarrow> 's schema" where
  "record_file r name C =
     \<lparr>FILE_NAME = name, ROLE = r, VERSION = 1, UNVERSIONED_AS = None, sc_json = cd_json C,
      sc_from_slice = cd_from_slice C, sc_to_vec = cd_to_vec C, sc_prev = obsolete_chain 0\<rparr>"

abbreviation decision_file :: "string \<Rightarrow> 's codec \<Rightarrow> 's schema" where
  "decision_file \<equiv> record_file Decision"

text \<open>What the code relies on of its serializers: they round trip.\<close>

definition codec_roundtrips :: "'s codec \<Rightarrow> bool" where
  "codec_roundtrips C \<longleftrightarrow> (\<forall>v x bs. cd_to_vec C v x = Ok bs \<longrightarrow> cd_from_slice C bs = Ok x)"

lemma record_file_sel [simp]:
  "FILE_NAME (record_file r n C) = n" "ROLE (record_file r n C) = r"
  "VERSION (record_file r n C) = 1" "sc_from_slice (record_file r n C) = cd_from_slice C"
  "sc_to_vec (record_file r n C) = cd_to_vec C"
  by (simp_all add: record_file_def)

lemma record_file_linked [simp]: "schema_linked (record_file r n C)"
  by (simp add: schema_linked_def record_file_def obsolete_chain_def total_chain_def)

lemma observe_record_file: "\<exists>ob. observe (record_file r n C) E w = Some ob"
  using from_read_total [of "record_file r n C"]
  by (auto simp: observe_def read_through_def split: option.splits)

lemma codec_reads_back:
  "codec_roundtrips C \<Longrightarrow> reads_back_as (record_file r n C) v x \<Longrightarrow> x = v"
  unfolding codec_roundtrips_def reads_back_as_def record_file_sel by fastforce

text \<open>Storing a value in such a file: it reads back, or nothing anybody reads changed.\<close>

lemma record_store:
  assumes "codec_roundtrips C" "vf_update (record_file r n C) E (\<lambda>_. (Store v, x)) w = (w', res)"
  shows "(case res of
      UOk y u \<Rightarrow> u = Stored \<and> clean_read (record_file r n C) w' = Some (Current v 1)
    | UErr e \<Rightarrow> clean_read (record_file r n C) w' = clean_read (record_file r n C) w
    | UPanic \<Rightarrow> False)"
proof (cases res)
  case (UOk y u)
  with assms(2) vf.result [of "record_file r n C" E _ w w' y u] obtain ob
    where "seen_by_update (record_file r n C) E w = Some ob" by auto
  with vf_update_stored [OF assms(2) [unfolded UOk], of ob v]
  obtain s where "u = Stored" "reads_back_as (record_file r n C) v s"
    "clean_read (record_file r n C) w' = Some (Current s (VERSION (record_file r n C)))" by auto
  with codec_reads_back [OF assms(1)] UOk show ?thesis by auto
next
  case (UErr e)
  with vf.failed [OF assms(2) [unfolded UErr]] show ?thesis by simp
next
  case UPanic
  have "snd (vf_update (record_file r n C) E (\<lambda>_. (Store v, x)) w) \<noteq> UPanic"
    by (rule update_no_panic) simp
  with UPanic assms(2) show ?thesis by simp
qed

section \<open>The intent file (lockdown\_state.rs)\<close>

record lockdown_state =
  ls_enabled :: bool

definition LOCKDOWN_FILE_NAME :: string where
  "LOCKDOWN_FILE_NAME = ''bridge-lockdown.json''"

definition lockdown_file :: "lockdown_state codec \<Rightarrow> lockdown_state schema" where
  "lockdown_file C = decision_file LOCKDOWN_FILE_NAME C"

datatype intent = IntentOn | IntentOff | IntentUnset | IntentUnreadable

fun reads_armed :: "intent \<Rightarrow> bool" where
  "reads_armed IntentOn = True"
| "reads_armed IntentUnreadable = True"
| "reads_armed IntentOff = False"
| "reads_armed IntentUnset = False"

fun installs_standing_cover :: "intent \<Rightarrow> bool" where
  "installs_standing_cover IntentOn = True"
| "installs_standing_cover IntentUnreadable = False"
| "installs_standing_cover IntentOff = False"
| "installs_standing_cover IntentUnset = False"

fun state_of_loaded :: "lockdown_state loaded \<Rightarrow> (intent, lockdown_state) result" where
  "state_of_loaded (Current value _) = Ok value"
| "state_of_loaded Absent = Err IntentUnset"
| "state_of_loaded (Obsolete _ _) = Err IntentUnreadable"
| "state_of_loaded (Newer _ _) = Err IntentUnreadable"
| "state_of_loaded (Corrupt _ _) = Err IntentUnreadable"
| "state_of_loaded (Unreadable _ _) = Err IntentUnreadable"

definition read_state :: "lockdown_state codec \<Rightarrow> fs_env \<Rightarrow> world \<Rightarrow> (intent, lockdown_state) result option" where
  "read_state C E w = map_option (\<lambda>ob. state_of_loaded (obs_loaded ob)) (observe (lockdown_file C) E w)"

definition load_state :: "lockdown_state codec \<Rightarrow> fs_env \<Rightarrow> world \<Rightarrow> lockdown_state option option" where
  "load_state C E w = map_option ok (read_state C E w)"

fun intent_of :: "(intent, lockdown_state) result \<Rightarrow> intent" where
  "intent_of (Ok s) = (if ls_enabled s then IntentOn else IntentOff)"
| "intent_of (Err i) = i"

definition load_intent :: "lockdown_state codec \<Rightarrow> fs_env \<Rightarrow> world \<Rightarrow> intent option" where
  "load_intent C E w = map_option intent_of (read_state C E w)"

definition load_enabled :: "lockdown_state codec \<Rightarrow> fs_env \<Rightarrow> world \<Rightarrow> bool option" where
  "load_enabled C E w = map_option reads_armed (load_intent C E w)"

definition set_enabled :: "lockdown_state codec \<Rightarrow> fs_env \<Rightarrow> bool \<Rightarrow> world \<Rightarrow> world \<times> unit update_result" where
  "set_enabled C E enabled w =
     vf_update (lockdown_file C) E (\<lambda>_. (Store \<lparr>ls_enabled = enabled\<rparr>, ())) w"

lemma load_intent_total: "\<exists>i. load_intent C E w = Some i"
  using observe_record_file [of Decision LOCKDOWN_FILE_NAME C E w]
  by (auto simp: load_intent_def read_state_def lockdown_file_def)

lemma load_intent_clean:
  "load_intent C no_faults w = map_option (\<lambda>l. intent_of (state_of_loaded l)) (clean_read (lockdown_file C) w)"
  by (simp add: load_intent_def read_state_def clean_read_def option.map_comp comp_def)

section \<open>Recovering a standing cover at boot (routing.rs)\<close>

datatype cover_recovery = Adopt | Sweep | Noop

datatype cover_presence = Live | Recorded | AbsentCover | Indeterminate | Unreachable

fun is_present :: "cover_presence \<Rightarrow> bool" where
  "is_present p = (p \<noteq> AbsentCover)"

fun is_confirmed_live :: "cover_presence \<Rightarrow> bool" where
  "is_confirmed_live p = (p = Live)"

record recovery =
  cover_action :: cover_recovery
  record_intent_on :: bool
  rec_presence :: cover_presence

fun cover_recovery_table :: "intent \<Rightarrow> cover_presence \<Rightarrow> cover_recovery \<times> bool" where
  "cover_recovery_table IntentOn Live = (Adopt, False)"
| "cover_recovery_table IntentOn Recorded = (Adopt, False)"
| "cover_recovery_table IntentOn Indeterminate = (Adopt, False)"
| "cover_recovery_table IntentOn AbsentCover = (Noop, False)"
| "cover_recovery_table IntentOn Unreachable = (Noop, False)"
| "cover_recovery_table IntentOff Live = (Sweep, False)"
| "cover_recovery_table IntentOff Recorded = (Sweep, False)"
| "cover_recovery_table IntentOff Indeterminate = (Sweep, False)"
| "cover_recovery_table IntentOff AbsentCover = (Noop, False)"
| "cover_recovery_table IntentOff Unreachable = (Noop, False)"
| "cover_recovery_table IntentUnset Live = (Adopt, True)"
| "cover_recovery_table IntentUnset Recorded = (Adopt, False)"
| "cover_recovery_table IntentUnset Indeterminate = (Noop, False)"
| "cover_recovery_table IntentUnset AbsentCover = (Noop, False)"
| "cover_recovery_table IntentUnset Unreachable = (Noop, False)"
| "cover_recovery_table IntentUnreadable Live = (Adopt, True)"
| "cover_recovery_table IntentUnreadable Recorded = (Adopt, False)"
| "cover_recovery_table IntentUnreadable Indeterminate = (Adopt, False)"
| "cover_recovery_table IntentUnreadable AbsentCover = (Noop, False)"
| "cover_recovery_table IntentUnreadable Unreachable = (Noop, False)"

definition decide_cover_recovery :: "intent \<Rightarrow> cover_presence \<Rightarrow> recovery" where
  "decide_cover_recovery i p =
     \<lparr>cover_action = fst (cover_recovery_table i p), record_intent_on = snd (cover_recovery_table i p),
      rec_presence = p\<rparr>"

lemma set_enabled_effect:
  assumes "codec_roundtrips C" "set_enabled C E b w = (w', r)"
  shows "(case r of
      UOk x u \<Rightarrow> u = Stored \<and> load_intent C no_faults w' = Some (if b then IntentOn else IntentOff)
    | UErr e \<Rightarrow> load_intent C no_faults w' = load_intent C no_faults w
    | UPanic \<Rightarrow> False)"
  using record_store [OF assms(1) assms(2) [unfolded set_enabled_def lockdown_file_def]]
  by (auto simp: load_intent_clean lockdown_file_def split: update_result.splits)

section \<open>A sample codec\<close>

definition sample_lockdown :: "lockdown_state codec" where
  "sample_lockdown =
     \<lparr>cd_json = sample_json,
      cd_from_slice = (\<lambda>bs. if bs = ''1y'' then Ok \<lparr>ls_enabled = True\<rparr>
        else if bs = ''1n'' then Ok \<lparr>ls_enabled = False\<rparr> else Err (framing ''data'')),
      cd_to_vec = (\<lambda>v x. Ok (if ls_enabled x then ''1y'' else ''1n''))\<rparr>"

lemma sample_lockdown_roundtrips [simp]: "codec_roundtrips sample_lockdown"
  by (simp add: codec_roundtrips_def sample_lockdown_def)

definition empty_world :: world where
  "empty_world = \<lparr>w_dir = None, w_gen = 0\<rparr>"

section \<open>Properties\<close>

text \<open>
  The intent a set recorded is the intent every later clean read classifies, and a set
  that failed, for whatever reason, changed no answer: in particular it can never turn an
  armed switch off.
\<close>

theorem set_enabled_sets_or_keeps:
  assumes "codec_roundtrips C" "set_enabled C E b w = (w', r)"
  shows "(case r of
      UOk x u \<Rightarrow> u = Stored \<and> load_intent C no_faults w' = Some (if b then IntentOn else IntentOff)
    | UErr e \<Rightarrow> load_intent C no_faults w' = load_intent C no_faults w
    | UPanic \<Rightarrow> False)"
  by (rule set_enabled_effect [OF assms])

theorem set_enabled_sets_or_keeps_witness:
  "load_intent sample_lockdown no_faults (fst (set_enabled sample_lockdown no_faults True empty_world)) = Some IntentOn"
proof -
  have "snd (set_enabled sample_lockdown no_faults True empty_world) = UOk () Stored" by code_simp
  then have "set_enabled sample_lockdown no_faults True empty_world =
      (fst (set_enabled sample_lockdown no_faults True empty_world), UOk () Stored)"
    by (rule snd_eqD)
  from set_enabled_sets_or_keeps [OF sample_lockdown_roundtrips this] show ?thesis by simp
qed

text \<open>
  The recovery decision follows its four rules, as equivalences over both axes: a sweep
  (the only action that removes protection) exactly when the user recorded \<^verbatim>\<open>Off\<close> and the
  operating system's answer is actionable; an adoption exactly when the answer is actionable,
  the intent is not \<^verbatim>\<open>Off\<close>, and an unset intent has positive evidence; the intent is repaired
  exactly on a measured live cover with no readable intent.
\<close>

theorem cover_recovery_rules:
  "(cover_action (decide_cover_recovery i p) = Sweep \<longleftrightarrow>
      i = IntentOff \<and> p \<in> {Live, Recorded, Indeterminate}) \<and>
   (cover_action (decide_cover_recovery i p) = Adopt \<longleftrightarrow>
      i \<noteq> IntentOff \<and> p \<in> {Live, Recorded, Indeterminate} \<and> \<not> (i = IntentUnset \<and> p = Indeterminate)) \<and>
   (record_intent_on (decide_cover_recovery i p) \<longleftrightarrow> p = Live \<and> i \<in> {IntentUnset, IntentUnreadable}) \<and>
   rec_presence (decide_cover_recovery i p) = p"
  by (cases i; cases p) (simp_all add: decide_cover_recovery_def)

end
