(* ===== verification/Target_State.thy ===== *)
theory Target_State
  imports Lockdown
begin

text \<open>
  The persisted target and the startup preference of crates/bridge/src/target.rs. Both are
  state files of role \<^verbatim>\<open>Decision\<close>; \<open>'cfg\<close> stands for \<^verbatim>\<open>ProxyConfig\<close>, of which this module
  uses equality and nothing else. Placement (owner, DACL) and the redacting \<^verbatim>\<open>Dump\<close>
  implementations change no decision and are left out.
\<close>

section \<open>Data\<close>

datatype startup_behavior = DoNotConnect | RestoreLastState | AlwaysConnect

datatype 'cfg persisted_target = PersistedOff | PersistedConnected 'cfg

record 'cfg target_file =
  tf_target :: "'cfg persisted_target"

datatype 'cfg target = Off | Connected 'cfg | UnreadableTarget

definition TARGET_FILE_NAME :: string where
  "TARGET_FILE_NAME = ''bridge-target.json''"

definition target_schema :: "'cfg target_file codec \<Rightarrow> 'cfg target_file schema" where
  "target_schema C = decision_file TARGET_FILE_NAME C"

fun target_from_persisted :: "'cfg persisted_target \<Rightarrow> 'cfg target" where
  "target_from_persisted PersistedOff = Off"
| "target_from_persisted (PersistedConnected config) = Connected config"

fun target_of :: "'cfg target_file loaded \<Rightarrow> 'cfg target" where
  "target_of Absent = Off"
| "target_of (Current value _) = target_from_persisted (tf_target value)"
| "target_of (Obsolete _ _) = UnreadableTarget"
| "target_of (Newer _ _) = UnreadableTarget"
| "target_of (Corrupt _ _) = UnreadableTarget"
| "target_of (Unreadable _ _) = UnreadableTarget"

definition load_target :: "'cfg target_file codec \<Rightarrow> fs_env \<Rightarrow> world \<Rightarrow> 'cfg target option" where
  "load_target C E w = map_option (\<lambda>ob. target_of (obs_loaded ob)) (observe (target_schema C) E w)"

text \<open>
  \<^verbatim>\<open>persisted\<close> is called under \<^verbatim>\<open>apply\<close>'s guard only; its third arm is the release build's.
\<close>

fun persisted :: "'cfg target \<Rightarrow> 'cfg persisted_target" where
  "persisted Off = PersistedOff"
| "persisted (Connected config) = PersistedConnected config"
| "persisted UnreadableTarget = PersistedOff"

section \<open>Writing the target\<close>

definition apply_change :: "('cfg target \<Rightarrow> 'cfg target) \<Rightarrow> 'cfg target_file observed \<Rightarrow>
    'cfg target_file change \<times> 'cfg target" where
  "apply_change f observed =
     (let current = target_of (obs_loaded observed);
          nxt = f current;
          change = (case (nxt, obs_loaded observed) of
              (UnreadableTarget, _) \<Rightarrow> Keep
            | (_, Current _ _) \<Rightarrow> if nxt = current then Keep else Store \<lparr>tf_target = persisted nxt\<rparr>
            | _ \<Rightarrow> Store \<lparr>tf_target = persisted nxt\<rparr>)
      in (change, nxt))"

definition apply_target :: "'cfg target_file codec \<Rightarrow> fs_env \<Rightarrow> ('cfg target \<Rightarrow> 'cfg target) \<Rightarrow> world \<Rightarrow>
    world \<times> 'cfg target update_result" where
  "apply_target C E f w = vf_update (target_schema C) E (apply_change f) w"

section \<open>Startup preference\<close>

fun startup_should_connect :: "startup_behavior \<Rightarrow> bool \<Rightarrow> bool" where
  "startup_should_connect DoNotConnect last_enabled = False"
| "startup_should_connect RestoreLastState last_enabled = last_enabled"
| "startup_should_connect AlwaysConnect last_enabled = True"

fun resolve_startup_target :: "'cfg target \<Rightarrow> startup_behavior \<Rightarrow> 'cfg option \<Rightarrow> 'cfg target" where
  "resolve_startup_target t DoNotConnect candidate = Off"
| "resolve_startup_target t RestoreLastState candidate = t"
| "resolve_startup_target t AlwaysConnect candidate =
     (case t of
        Connected config \<Rightarrow> t
      | _ \<Rightarrow> (case candidate of Some config \<Rightarrow> Connected config | None \<Rightarrow> t))"

definition STARTUP_PREFERENCE_FILE_NAME :: string where
  "STARTUP_PREFERENCE_FILE_NAME = ''bridge-startup.json''"

record 'cfg startup_preference =
  on_startup :: startup_behavior
  candidate :: "'cfg option"

definition startup_schema :: "'cfg startup_preference codec \<Rightarrow> 'cfg startup_preference schema" where
  "startup_schema C = decision_file STARTUP_PREFERENCE_FILE_NAME C"

text \<open>\<^verbatim>\<open>StartupBehavior\<close> and so the preference default to restoring the last state.\<close>

definition preference_default :: "'cfg startup_preference" where
  "preference_default = \<lparr>on_startup = RestoreLastState, candidate = None\<rparr>"

fun preference_of :: "'cfg startup_preference loaded \<Rightarrow> 'cfg startup_preference" where
  "preference_of (Current value _) = value"
| "preference_of Absent = preference_default"
| "preference_of (Obsolete _ _) = preference_default"
| "preference_of (Newer _ _) = preference_default"
| "preference_of (Corrupt _ _) = preference_default"
| "preference_of (Unreadable _ _) = preference_default"

definition load_startup_preference ::
  "'cfg startup_preference codec \<Rightarrow> fs_env \<Rightarrow> world \<Rightarrow> 'cfg startup_preference option" where
  "load_startup_preference C E w =
     map_option (\<lambda>ob. preference_of (obs_loaded ob)) (observe (startup_schema C) E w)"

definition apply_startup_preference ::
  "'cfg startup_preference codec \<Rightarrow> fs_env \<Rightarrow> ('cfg startup_preference \<Rightarrow> 'cfg startup_preference) \<Rightarrow>
   world \<Rightarrow> world \<times> unit update_result" where
  "apply_startup_preference C E f w =
     vf_update (startup_schema C) E (\<lambda>observed. (Store (f (preference_of (obs_loaded observed))), ())) w"

section \<open>Session events\<close>

datatype session_event = UserStopped | GaveUp | CutoverRestart | Blipped | ProcessExiting

fun preserves_death_reason :: "session_event \<Rightarrow> bool" where
  "preserves_death_reason GaveUp = True"
| "preserves_death_reason UserStopped = False"
| "preserves_death_reason CutoverRestart = False"
| "preserves_death_reason Blipped = False"
| "preserves_death_reason ProcessExiting = False"

fun target_after :: "'cfg target \<Rightarrow> session_event \<Rightarrow> 'cfg target" where
  "target_after t UserStopped = Off"
| "target_after t GaveUp = Off"
| "target_after t CutoverRestart = t"
| "target_after t Blipped = t"
| "target_after t ProcessExiting = t"

section \<open>Lemmas\<close>

lemma target_persisted [simp]: "t \<noteq> UnreadableTarget \<Longrightarrow> target_from_persisted (persisted t) = t"
  by (cases t) simp_all

lemma load_target_total: "\<exists>t. load_target C E w = Some t"
  using observe_record_file [of Decision TARGET_FILE_NAME C E w]
  by (auto simp: load_target_def target_schema_def)

lemma load_target_clean: "load_target C no_faults w = map_option target_of (clean_read (target_schema C) w)"
  by (simp add: load_target_def clean_read_def option.map_comp comp_def)

lemma apply_change_result: "snd (apply_change f ob) = f (target_of (obs_loaded ob))"
  by (simp add: apply_change_def Let_def)

lemma apply_change_fst:
  "fst (apply_change f ob) = Keep \<and>
     (f (target_of (obs_loaded ob)) = UnreadableTarget \<or>
      (\<exists>v n. obs_loaded ob = Current v n \<and> f (target_of (obs_loaded ob)) = target_of (obs_loaded ob))) \<or>
   fst (apply_change f ob) = Store \<lparr>tf_target = persisted (f (target_of (obs_loaded ob)))\<rparr> \<and>
     f (target_of (obs_loaded ob)) \<noteq> UnreadableTarget"
  by (auto simp: apply_change_def Let_def split: target.splits loaded.splits)

lemma apply_target_no_panic: "apply_target C E f w \<noteq> (w', UPanic)"
  using update_no_panic [of "target_schema C" E "apply_change f" w]
  by (auto simp: apply_target_def target_schema_def)

text \<open>An update that meets no failing read shows its closure what a clean read finds.\<close>

lemma seen_clean:
  assumes "seen_by_update S E w = Some ob" "f_reader E = None" "f_read E = None" "f_probe E = None"
  shows "clean_read S w = Some (obs_loaded ob)"
proof (cases "w_dir w")
  case None
  with assms show ?thesis
    by (auto simp: seen_by_update_def update_read_def clean_read_def observe_def from_read_def no_faults_def
        split: if_splits)
next
  case (Some es)
  with assms show ?thesis
    by (auto simp: seen_by_update_def update_read_def clean_read_def observe_def read_through_def
        fs_read_def probe_kind_def no_faults_def split: if_splits)
qed

lemma seen_current:
  assumes "seen_by_update S E w = Some ob" "obs_loaded ob = Current v n"
  shows "clean_read S w = Some (Current v n)"
proof -
  from assms obtain es where es: "w_dir w = Some es"
    by (cases "w_dir w") (auto simp: seen_by_update_def update_read_def split: if_splits)
  with assms obtain bs where "fs_read E es (FILE_NAME S) = Ok bs" "from_read S (Ok bs) (probe_kind E es (FILE_NAME S)) = Some (Current v n)"
    by (cases "fs_read E es (FILE_NAME S)")
       (auto simp: seen_by_update_def update_read_def read_through_def from_read_def
         split: if_splits option.splits io_kind.splits)
  moreover have "fs_read no_faults es (FILE_NAME S) = Ok bs" if "fs_read E es (FILE_NAME S) = Ok bs"
    using that by (auto simp: fs_read_def no_faults_def split: option.splits)
  ultimately show ?thesis
    using es by (auto simp: clean_read_def observe_def read_through_def from_read_def no_faults_def)
qed

lemma apply_target_effect:
  assumes "codec_roundtrips C" "apply_target C E f w = (w', r)"
  shows "(case r of
      UOk t u \<Rightarrow> (\<exists>ob. seen_by_update (target_schema C) E w = Some ob \<and> t = f (target_of (obs_loaded ob))) \<and>
        (if t = UnreadableTarget then w' = w else load_target C no_faults w' = Some t)
    | UErr e \<Rightarrow> load_target C no_faults w' = load_target C no_faults w
    | UPanic \<Rightarrow> False)"
proof (cases r)
  case (UOk t u)
  note eq = assms(2) [unfolded apply_target_def UOk]
  from vf.result [OF eq] obtain ob where ob: "seen_by_update (target_schema C) E w = Some ob"
    and t: "t = f (target_of (obs_loaded ob))" by (auto simp: apply_change_result)
  from apply_change_fst [of f ob]
  have "if t = UnreadableTarget then w' = w else load_target C no_faults w' = Some t"
  proof (elim disjE conjE)
    assume "fst (apply_change f ob) = Keep"
    with vf.kept [OF eq ob] eq have "u = Unchanged" by simp
    then have w: "w' = w" using vf.unchanged eq by (metis)
    moreover assume "f (target_of (obs_loaded ob)) = UnreadableTarget"
    ultimately show ?thesis by (simp add: t)
  next
    assume "fst (apply_change f ob) = Keep"
    with vf.kept [OF eq ob] eq have "u = Unchanged" by simp
    then have w: "w' = w" using vf.unchanged eq by metis
    assume "\<exists>v n. obs_loaded ob = Current v n \<and> f (target_of (obs_loaded ob)) = target_of (obs_loaded ob)"
    with w t seen_current [OF ob] show ?thesis by (auto simp: load_target_clean)
  next
    assume st: "fst (apply_change f ob) = Store \<lparr>tf_target = persisted (f (target_of (obs_loaded ob)))\<rparr>"
      and "f (target_of (obs_loaded ob)) \<noteq> UnreadableTarget"
    with t have nu: "t \<noteq> UnreadableTarget" by simp
    from vf_update_stored [OF eq ob st] obtain s where
      "reads_back_as (target_schema C) \<lparr>tf_target = persisted t\<rparr> s"
      "clean_read (target_schema C) w' = Some (Current s (VERSION (target_schema C)))"
      by (auto simp: t)
    moreover from this(1) codec_reads_back [OF assms(1)] have "s = \<lparr>tf_target = persisted t\<rparr>"
      by (auto simp: target_schema_def)
    ultimately show ?thesis using nu by (simp add: load_target_clean)
  qed
  with ob t UOk show ?thesis by simp
next
  case (UErr e)
  with vf.failed [OF assms(2) [unfolded apply_target_def UErr]] show ?thesis
    by (simp add: load_target_clean)
next
  case UPanic
  with apply_target_no_panic assms(2) show ?thesis by blast
qed

section \<open>A sample codec\<close>

text \<open>Configurations are numbers below ten, written as one digit.\<close>

definition sample_target :: "nat target_file codec" where
  "sample_target =
     \<lparr>cd_json = sample_json,
      cd_from_slice = (\<lambda>bs. case bs of
          [_, c] \<Rightarrow> (if c = CHR ''-'' then Ok \<lparr>tf_target = PersistedOff\<rparr>
             else if of_char c < (58 :: nat) \<and> 48 \<le> (of_char c :: nat) then Ok \<lparr>tf_target = PersistedConnected (of_char c - 48)\<rparr>
             else Err (framing ''data''))
        | _ \<Rightarrow> Err (framing ''data'')),
      cd_to_vec = (\<lambda>v x. case tf_target x of
          PersistedOff \<Rightarrow> Ok ''1-''
        | PersistedConnected c \<Rightarrow> if c < 10 then Ok [CHR ''1'', char_of (48 + c)] else Err (framing ''data''))\<rparr>"

lemma sample_target_roundtrips [simp]: "codec_roundtrips sample_target"
proof -
  have m: "c < 10 \<Longrightarrow> char_of (48 + c) \<noteq> CHR ''-''" for c :: nat
  proof
    assume c: "c < 10" "char_of (48 + c) = CHR ''-''"
    then have "of_char (char_of (48 + c)) = (of_char (CHR ''-'') :: nat)" by simp
    with c(1) show False by (simp add: of_char_of)
  qed
  show ?thesis
    by (auto simp: codec_roundtrips_def sample_target_def of_char_of m
        split: persisted_target.splits if_splits intro!: target_file.equality)
qed

section \<open>Properties\<close>

text \<open>
  Every write of the target persists what it answers. A successful \<^verbatim>\<open>apply\<close> answers \<open>f\<close> of
  the target its read found, and a later clean read finds that very target, unless the answer
  is "unreadable", in which case nothing at all was written; a failed one leaves every later
  reading as it was. It never panics.
\<close>

theorem apply_target_persists:
  assumes "codec_roundtrips C" "apply_target C E f w = (w', r)"
  shows "(case r of
      UOk t u \<Rightarrow> (\<exists>ob. seen_by_update (target_schema C) E w = Some ob \<and> t = f (target_of (obs_loaded ob))) \<and>
        (if t = UnreadableTarget then w' = w else load_target C no_faults w' = Some t)
    | UErr e \<Rightarrow> load_target C no_faults w' = load_target C no_faults w
    | UPanic \<Rightarrow> False)"
  by (rule apply_target_effect [OF assms])

theorem apply_target_persists_witness:
  "load_target sample_target no_faults (fst (apply_target sample_target no_faults (\<lambda>_. Connected 7) empty_world)) = Some (Connected 7)"
proof -
  have "snd (apply_target sample_target no_faults (\<lambda>_. Connected 7) empty_world) = UOk (Connected 7) Stored"
    by code_simp
  from apply_target_persists [OF sample_target_roundtrips snd_eqD [OF this]] show ?thesis by simp
qed

text \<open>
  Only the user or the recorded startup choice authorises a connection at boot: the
  resolved target is a connection exactly when the persisted target already was that
  connection and the behaviour is not "do not connect", or the behaviour is "always connect",
  no connection was persisted, and the pushed candidate is that connection. A preference file
  that is missing or cannot be read authorises nothing: the target passes through.
\<close>

theorem boot_connect_is_authorised:
  "(resolve_startup_target t b c = Connected cfg \<longleftrightarrow>
      t = Connected cfg \<and> b \<noteq> DoNotConnect \<or>
      b = AlwaysConnect \<and> (\<forall>x. t \<noteq> Connected x) \<and> c = Some cfg) \<and>
   resolve_startup_target t (on_startup (preference_of l)) (candidate (preference_of l)) =
     (case l of Current p n \<Rightarrow> resolve_startup_target t (on_startup p) (candidate p) | _ \<Rightarrow> t)"
  by (cases b; cases t; cases c; cases l) (auto simp: preference_default_def)

text \<open>
  The target over any history of session events: a user stop or the system giving up,
  anywhere in the history, turns it off for good; restarts, blips and shutdowns never move it.
\<close>

theorem target_after_history:
  "foldl target_after t evs = (if UserStopped \<in> set evs \<or> GaveUp \<in> set evs then Off else t)"
proof (induction evs rule: rev_induct)
  case (snoc e evs)
  then show ?case by (cases e) simp_all
qed simp

end
