(* ===== verification/Reconciler.thy ===== *)
theory Reconciler
  imports Target_State
begin

text \<open>
  The reconciliation decisions of crates/bridge/src/reconciler.rs: what the standing cover and
  the tunnel do towards the persisted target, in which order, and what a torn-down session's
  covers do. The driver \<^verbatim>\<open>reconcile_once\<close> is in theory \<open>Boot\<close>.
\<close>

section \<open>Steps\<close>

datatype cover_step = CoverEngage | CoverHold | CoverRelease

datatype tunnel_step = TunnelStart | TunnelHold | TunnelStop

datatype phase = PhaseCover cover_step | PhaseTunnel tunnel_step

fun release_if_actionable :: "cover_presence \<Rightarrow> cover_step" where
  "release_if_actionable Live = CoverRelease"
| "release_if_actionable Recorded = CoverRelease"
| "release_if_actionable Indeterminate = CoverRelease"
| "release_if_actionable AbsentCover = CoverHold"
| "release_if_actionable Unreachable = CoverHold"

fun engage_if_missing :: "cover_presence \<Rightarrow> cover_step" where
  "engage_if_missing Live = CoverHold"
| "engage_if_missing Recorded = CoverEngage"
| "engage_if_missing Indeterminate = CoverEngage"
| "engage_if_missing AbsentCover = CoverEngage"
| "engage_if_missing Unreachable = CoverHold"

fun cover_step_of :: "intent \<Rightarrow> cover_presence \<Rightarrow> 'cfg target \<Rightarrow> cover_step" where
  "cover_step_of i p UnreadableTarget = CoverHold"
| "cover_step_of i p Off = release_if_actionable p"
| "cover_step_of IntentOn p (Connected _) = engage_if_missing p"
| "cover_step_of IntentUnreadable p (Connected _) = engage_if_missing p"
| "cover_step_of IntentOff p (Connected _) = release_if_actionable p"
| "cover_step_of IntentUnset p (Connected _) = release_if_actionable p"

fun tunnel_step_of :: "bool \<Rightarrow> 'cfg target \<Rightarrow> tunnel_step" where
  "tunnel_step_of live UnreadableTarget = TunnelHold"
| "tunnel_step_of live (Connected _) = (if live then TunnelHold else TunnelStart)"
| "tunnel_step_of live Off = (if live then TunnelStop else TunnelHold)"

datatype cover_disposition = ReleaseNow | KeepEngaged

fun disposition_of_step :: "cover_step \<Rightarrow> cover_disposition" where
  "disposition_of_step CoverRelease = ReleaseNow"
| "disposition_of_step CoverHold = KeepEngaged"
| "disposition_of_step CoverEngage = KeepEngaged"

fun teardown_cover_disposition ::
  "session_event \<Rightarrow> intent \<Rightarrow> cover_presence \<Rightarrow> 'cfg target \<Rightarrow> cover_disposition" where
  "teardown_cover_disposition UserStopped i p t = ReleaseNow"
| "teardown_cover_disposition CutoverRestart i p t = disposition_of_step (cover_step_of i p t)"
| "teardown_cover_disposition ProcessExiting i p t = disposition_of_step (cover_step_of i p t)"
| "teardown_cover_disposition GaveUp i p t = disposition_of_step (cover_step_of i p t)"
| "teardown_cover_disposition Blipped i p t = disposition_of_step (cover_step_of i p t)"

fun transient_cover_disposition :: "session_event \<Rightarrow> cover_disposition" where
  "transient_cover_disposition CutoverRestart = KeepEngaged"
| "transient_cover_disposition Blipped = KeepEngaged"
| "transient_cover_disposition UserStopped = ReleaseNow"
| "transient_cover_disposition GaveUp = ReleaseNow"
| "transient_cover_disposition ProcessExiting = ReleaseNow"

fun step_order :: "cover_step \<Rightarrow> tunnel_step \<Rightarrow> phase list" where
  "step_order CoverRelease tunnel = [PhaseTunnel tunnel, PhaseCover CoverRelease]"
| "step_order CoverEngage tunnel = [PhaseCover CoverEngage, PhaseTunnel tunnel]"
| "step_order CoverHold tunnel = [PhaseCover CoverHold, PhaseTunnel tunnel]"

section \<open>Abstract specification: the two surfaces as a state machine\<close>

text \<open>
  The surfaces are what the operating system answers about the cover and whether a session
  is live. \<open>surface_step\<close> is what carrying out one decided phase can do: it succeeds, and the
  surface moves, or it fails, and the surface stays as it was.
\<close>

record surfaces =
  s_cover :: cover_presence
  s_live :: bool

fun perform :: "phase \<Rightarrow> surfaces \<Rightarrow> surfaces" where
  "perform (PhaseCover CoverEngage) s = s\<lparr>s_cover := Live\<rparr>"
| "perform (PhaseCover CoverRelease) s = s\<lparr>s_cover := AbsentCover\<rparr>"
| "perform (PhaseCover CoverHold) s = s"
| "perform (PhaseTunnel TunnelStart) s = s\<lparr>s_live := True\<rparr>"
| "perform (PhaseTunnel TunnelStop) s = s\<lparr>s_live := False\<rparr>"
| "perform (PhaseTunnel TunnelHold) s = s"

inductive surface_step :: "phase \<Rightarrow> surfaces \<Rightarrow> surfaces \<Rightarrow> bool" where
  succeeded: "surface_step ph s (perform ph s)"
| failed: "surface_step ph s s"

inductive pass :: "phase list \<Rightarrow> surfaces \<Rightarrow> surfaces list \<Rightarrow> bool" where
  stop: "pass [] s []"
| step: "surface_step ph s s' \<Longrightarrow> pass phs s' tr \<Longrightarrow> pass (ph # phs) s (s' # tr)"

inductive_cases surface_stepE: "surface_step ph s s'"
inductive_cases pass_NilE: "pass [] s tr"
inductive_cases pass_ConsE: "pass (ph # phs) s tr"

lemma surface_step_iff: "surface_step ph s s' \<longleftrightarrow> s' = perform ph s \<or> s' = s"
  by (auto intro: surface_step.intros elim: surface_stepE)

lemma pass_Nil [simp]: "pass [] s tr \<longleftrightarrow> tr = []"
  by (auto intro: pass.stop elim: pass_NilE)

lemma pass_Cons [simp]:
  "pass (ph # phs) s tr \<longleftrightarrow> (\<exists>s' tr'. tr = s' # tr' \<and> (s' = perform ph s \<or> s' = s) \<and> pass phs s' tr')"
  by (auto simp: surface_step_iff intro: pass.step elim!: pass_ConsE)

definition decided :: "intent \<Rightarrow> 'cfg target \<Rightarrow> surfaces \<Rightarrow> phase list" where
  "decided i t s = step_order (cover_step_of i (s_cover s) t) (tunnel_step_of (s_live s) t)"

text \<open>What a target and an intent authorise.\<close>

definition authorised :: "intent \<Rightarrow> 'cfg target \<Rightarrow> surfaces \<Rightarrow> bool" where
  "authorised i t s =
     (case t of
        UnreadableTarget \<Rightarrow> True
      | Off \<Rightarrow> \<not> s_live s \<and> s_cover s \<in> {AbsentCover, Unreachable}
      | Connected _ \<Rightarrow> s_live s \<and>
          (if reads_armed i then s_cover s \<in> {Live, Unreachable} else s_cover s \<in> {AbsentCover, Unreachable}))"

lemma authorised_iff_hold:
  "authorised i t s \<longleftrightarrow> cover_step_of i (s_cover s) t = CoverHold \<and> tunnel_step_of (s_live s) t = TunnelHold"
  by (cases t; cases i; cases "s_cover s") (auto simp: authorised_def)

section \<open>Properties\<close>




text \<open>
  An unknown never opens the host: with an unreadable target both surfaces hold and no
  teardown but the user's own stop releases the standing cover; a firewall that cannot be
  reached never yields a release in a pass; and an unreadable intent never releases the cover
  of a connected target.
\<close>

theorem unknown_never_opens:
  "decided i UnreadableTarget s = [PhaseCover CoverHold, PhaseTunnel TunnelHold] \<and>
   (teardown_cover_disposition ev i p UnreadableTarget = ReleaseNow \<longleftrightarrow> ev = UserStopped) \<and>
   cover_step_of i Unreachable t \<noteq> CoverRelease \<and>
   cover_step_of IntentUnreadable p (Connected c) \<noteq> CoverRelease"
  by (cases ev; cases t; cases i; cases p) (simp_all add: decided_def)

end
