(* ===== verification/Plugin_Options.thy ===== *)
theory Plugin_Options
  imports Net_Addr
begin

text \<open>
  The SIP003 interface of the plugin chain, crates/garter/src/sip003.rs: the environment a plugin
  is started with and the options string, a list of segments separated by an unescaped semicolon.
  Strings are their UTF-8 bytes: the escape, the separators and the sign are ASCII, so a walk over
  bytes meets them exactly where a walk over characters does, and an escaped character that takes
  several bytes is copied whole by both.
\<close>

section \<open>Numbers (\<^verbatim>\<open>str::parse\<close>)\<close>

definition digit_value :: "char \<Rightarrow> int" where
  "digit_value c = of_char c - 48"

definition is_ascii_digit :: "char \<Rightarrow> bool" where
  "is_ascii_digit c \<longleftrightarrow> 48 \<le> (of_char c :: int) \<and> (of_char c :: int) \<le> 57"

definition decimal :: "bytes \<Rightarrow> int option" where
  "decimal ds = (if ds = [] \<or> \<not> list_all is_ascii_digit ds then None
     else Some (foldl (\<lambda>acc c. acc * 10 + digit_value c) 0 ds))"

definition parse_int :: "bool \<Rightarrow> int \<Rightarrow> int \<Rightarrow> bytes \<Rightarrow> int option" where
  "parse_int neg_ok lo hi s =
     (let (sign, ds) = (case s of
          [] \<Rightarrow> (1, [])
        | c # cs \<Rightarrow> if c = CHR ''+'' then (1, cs) else if c = CHR ''-'' \<and> neg_ok then (- 1, cs) else (1, s))
      in case decimal ds of
           None \<Rightarrow> None
         | Some v \<Rightarrow> if lo \<le> sign * v \<and> sign * v \<le> hi then Some (sign * v) else None)"

definition parse_u16 :: "bytes \<Rightarrow> int option" where
  "parse_u16 s = parse_int False 0 65535 s"

definition parse_u32 :: "bytes \<Rightarrow> int option" where
  "parse_u32 s = parse_int False 0 4294967295 s"

definition parse_i64 :: "bytes \<Rightarrow> int option" where
  "parse_i64 s = parse_int True (- 9223372036854775808) 9223372036854775807 s"

section \<open>The environment of a plugin\<close>

datatype env_value = Present bytes | NotPresent | NotUnicode

datatype env_reason = NotSet | InvalidUnicode | NotParsed

datatype env_error = EnvError string env_reason

record plugin_env =
  pe_local_host :: ip_addr
  pe_local_port :: int
  pe_remote_host :: bytes
  pe_remote_port :: int
  pe_plugin_options :: "bytes option"

definition read_env :: "(string \<Rightarrow> env_value) \<Rightarrow> string \<Rightarrow> (env_error, bytes) result" where
  "read_env env var =
     (case env var of
        Present val \<Rightarrow> Ok val
      | NotPresent \<Rightarrow> Err (EnvError var NotSet)
      | NotUnicode \<Rightarrow> Err (EnvError var InvalidUnicode))"

definition read_env_parsed :: "(bytes \<Rightarrow> 'a option) \<Rightarrow> (string \<Rightarrow> env_value) \<Rightarrow> string \<Rightarrow> (env_error, 'a) result" where
  "read_env_parsed parse env var =
     (case read_env env var of
        Err e \<Rightarrow> Err e
      | Ok val \<Rightarrow> (case parse val of Some x \<Rightarrow> Ok x | None \<Rightarrow> Err (EnvError var NotParsed)))"

definition read_env_optional :: "(string \<Rightarrow> env_value) \<Rightarrow> string \<Rightarrow> (env_error, bytes option) result" where
  "read_env_optional env var =
     (case env var of
        Present val \<Rightarrow> Ok (Some val)
      | NotPresent \<Rightarrow> Ok None
      | NotUnicode \<Rightarrow> Err (EnvError var InvalidUnicode))"

definition plugin_from_env :: "(string \<Rightarrow> env_value) \<Rightarrow> (env_error, plugin_env) result" where
  "plugin_from_env env =
     (case read_env_parsed ip_addr_from_str env ''SS_LOCAL_HOST'' of Err e \<Rightarrow> Err e | Ok local_host \<Rightarrow>
      case read_env_parsed parse_u16 env ''SS_LOCAL_PORT'' of Err e \<Rightarrow> Err e | Ok local_port \<Rightarrow>
      case read_env env ''SS_REMOTE_HOST'' of Err e \<Rightarrow> Err e | Ok remote_host \<Rightarrow>
      case read_env_parsed parse_u16 env ''SS_REMOTE_PORT'' of Err e \<Rightarrow> Err e | Ok remote_port \<Rightarrow>
      case read_env_optional env ''SS_PLUGIN_OPTIONS'' of Err e \<Rightarrow> Err e | Ok options \<Rightarrow>
      Ok \<lparr>pe_local_host = local_host, pe_local_port = local_port, pe_remote_host = remote_host,
          pe_remote_port = remote_port, pe_plugin_options = options\<rparr>)"

section \<open>Segments\<close>

datatype malformed_options = DanglingEscape | EmptyKey nat

record option_segment =
  seg_raw :: bytes
  seg_key :: bytes
  seg_value :: bytes
  seg_has_value :: bool

definition exray_value :: "option_segment \<Rightarrow> bytes" where
  "exray_value s = (if seg_has_value s then seg_value s else ''1'')"

abbreviation backslash :: char where
  "backslash \<equiv> CHR 92"

text \<open>\<open>cur\<close> is the slice from the start of the segment to the cursor.\<close>

fun split_from :: "char \<Rightarrow> bytes \<Rightarrow> bytes \<Rightarrow> (malformed_options, bytes list) result" where
  "split_from d cur [] = Ok (if cur = [] then [] else [cur])"
| "split_from d cur (ch # s) =
     (if ch = backslash then
        (case s of [] \<Rightarrow> Err DanglingEscape | c # s' \<Rightarrow> split_from d (cur @ [ch, c]) s')
      else if ch = d then map_ok ((#) cur) (split_from d [] s)
      else split_from d (cur @ [ch]) s)"

definition split_on_unescaped :: "bytes \<Rightarrow> char \<Rightarrow> (malformed_options, bytes list) result" where
  "split_on_unescaped s d = split_from d [] s"

fun walk_escaped :: "(char \<Rightarrow> bytes) \<Rightarrow> bytes \<Rightarrow> (malformed_options, bytes) result" where
  "walk_escaped on_escaped [] = Ok []"
| "walk_escaped on_escaped (ch # s) =
     (if ch = backslash then
        (case s of [] \<Rightarrow> Err DanglingEscape | c # s' \<Rightarrow> map_ok ((@) (on_escaped c)) (walk_escaped on_escaped s'))
      else map_ok ((#) ch) (walk_escaped on_escaped s))"

definition unescape_any :: "bytes \<Rightarrow> (malformed_options, bytes) result" where
  "unescape_any s = walk_escaped (\<lambda>c. [c]) s"

fun find_unescaped :: "bytes \<Rightarrow> char \<Rightarrow> nat option" where
  "find_unescaped [] target = None"
| "find_unescaped (ch # s) target =
     (if ch = backslash then
        (case s of [] \<Rightarrow> None | c # s' \<Rightarrow> map_option (\<lambda>i. i + 2) (find_unescaped s' target))
      else if ch = target then Some 0
      else map_option Suc (find_unescaped s target))"

definition option_segment_of :: "nat \<Rightarrow> bytes \<Rightarrow> (malformed_options, option_segment) result" where
  "option_segment_of index raw =
     (let eq = find_unescaped raw (CHR ''='')
      in case unescape_any (case eq of Some i \<Rightarrow> take i raw | None \<Rightarrow> raw) of
           Err e \<Rightarrow> Err e
         | Ok key \<Rightarrow>
             if key = [] then Err (EmptyKey index)
             else (case (case eq of Some i \<Rightarrow> unescape_any (drop (Suc i) raw) | None \<Rightarrow> Ok []) of
                     Err e \<Rightarrow> Err e
                   | Ok value \<Rightarrow> Ok \<lparr>seg_raw = raw, seg_key = key, seg_value = value, seg_has_value = (eq \<noteq> None)\<rparr>))"

fun collect_segments :: "nat \<Rightarrow> bytes list \<Rightarrow> (malformed_options, option_segment list) result" where
  "collect_segments index [] = Ok []"
| "collect_segments index (raw # raws) =
     (case option_segment_of index raw of
        Err e \<Rightarrow> Err e
      | Ok seg \<Rightarrow> map_ok ((#) seg) (collect_segments (Suc index) raws))"

definition split_plugin_options :: "bytes \<Rightarrow> (malformed_options, option_segment list) result" where
  "split_plugin_options opts =
     (case split_on_unescaped opts (CHR '';'') of Err e \<Rightarrow> Err e | Ok raws \<Rightarrow> collect_segments 0 raws)"

definition parse_plugin_options :: "bytes \<Rightarrow> (malformed_options, (bytes \<times> bytes) list) result" where
  "parse_plugin_options opts = map_ok (map (\<lambda>seg. (seg_key seg, seg_value seg))) (split_plugin_options opts)"

fun join_plugin_options :: "bytes list \<Rightarrow> bytes" where
  "join_plugin_options [] = []"
| "join_plugin_options [x] = x"
| "join_plugin_options (x # y # xs) = x @ '';'' @ join_plugin_options (y # xs)"

section \<open>Bounds\<close>

lemma foldl_decimal_nonneg:
  "0 \<le> acc \<Longrightarrow> list_all is_ascii_digit ds \<Longrightarrow> 0 \<le> foldl (\<lambda>acc c. acc * 10 + digit_value c) acc ds"
  by (induction ds arbitrary: acc) (simp_all add: digit_value_def is_ascii_digit_def)

lemma parse_int_range: "parse_int neg_ok lo hi s = Some v \<Longrightarrow> lo \<le> v \<and> v \<le> hi"
  by (auto simp: parse_int_def Let_def split: list.splits if_splits option.splits)

section \<open>Splitting and joining\<close>

text \<open>
  A segment's text: no escape dangles and no separator is unescaped. Splitting and finding
  walk the same pairs.
\<close>

fun closed_text :: "char \<Rightarrow> bytes \<Rightarrow> bool" where
  "closed_text d [] = True"
| "closed_text d (ch # s) =
     (if ch = backslash then (case s of [] \<Rightarrow> False | c # s' \<Rightarrow> closed_text d s')
      else ch \<noteq> d \<and> closed_text d s)"

lemma split_from_closed:
  "closed_text d x \<Longrightarrow> split_from d cur (x @ s) = split_from d (cur @ x) s"
proof (induction d x arbitrary: cur rule: closed_text.induct)
  case (2 d ch x)
  show ?case
  proof (cases "ch = backslash")
    case True
    with 2 show ?thesis by (auto split: list.splits)
  next
    case False
    with 2 show ?thesis by simp
  qed
qed simp

lemma split_closed:
  "closed_text d x \<Longrightarrow> split_on_unescaped x d = Ok (if x = [] then [] else [x])"
  using split_from_closed [of d x "[]" "[]"] by (simp add: split_on_unescaped_def)

lemma split_closed_append:
  "closed_text d x \<Longrightarrow> d \<noteq> backslash \<Longrightarrow> split_on_unescaped (x @ d # s) d = map_ok ((#) x) (split_on_unescaped s d)"
  using split_from_closed [of d x "[]" "d # s"] by (simp add: split_on_unescaped_def)

lemma split_join:
  assumes "\<forall>x \<in> set xs. closed_text (CHR '';'') x \<and> x \<noteq> []"
  shows "split_on_unescaped (join_plugin_options xs) (CHR '';'') = Ok xs"
  using assms
proof (induction xs rule: join_plugin_options.induct)
  case (3 x y xs)
  then show ?case using split_closed_append [of "CHR '';''" x "join_plugin_options (y # xs)"] by simp
next
  case (2 x)
  then show ?case by (simp add: split_closed)
qed (simp add: split_on_unescaped_def)

lemma closed_text_append: "closed_text d x \<Longrightarrow> closed_text d y \<Longrightarrow> closed_text d (x @ y)"
proof (induction d x rule: closed_text.induct)
  case (2 d ch x)
  then show ?case by (cases x) (auto split: if_splits)
qed simp

lemma split_from_parts:
  "split_from d cur s = Ok xs \<Longrightarrow> closed_text d cur \<Longrightarrow> \<forall>x \<in> set xs. closed_text d x"
proof (induction d cur s arbitrary: xs rule: split_from.induct)
  case (2 d cur ch s)
  show ?case
  proof (cases "ch = backslash")
    case True
    with 2 show ?thesis by (auto simp: closed_text_append split: list.splits)
  next
    case False
    with 2 show ?thesis by (auto simp: closed_text_append map_ok_eq_Ok split: if_splits)
  qed
qed (auto split: if_splits)

lemma split_on_unescaped_parts: "split_on_unescaped s d = Ok xs \<Longrightarrow> x \<in> set xs \<Longrightarrow> closed_text d x"
  using split_from_parts [of d "[]" s xs] by (auto simp: split_on_unescaped_def)

lemma split_from_total: "split_from d cur s = Err e \<Longrightarrow> e = DanglingEscape"
  by (induction d cur s rule: split_from.induct) (auto simp: map_ok_eq_Err split: if_splits list.splits)

text \<open>Unescaping fails exactly where an escape dangles.\<close>

lemma walk_closed: "closed_text d x \<Longrightarrow> \<exists>y. walk_escaped f x = Ok y"
proof (induction d x rule: closed_text.induct)
  case (2 d ch x)
  then show ?case by (cases x) (auto split: if_splits)
qed simp

lemma find_unescaped_splits:
  "find_unescaped x t = Some i \<Longrightarrow> t \<noteq> backslash \<Longrightarrow> closed_text d x \<Longrightarrow>
     i < length x \<and> x ! i = t \<and> closed_text d (take i x) \<and> closed_text d (drop (Suc i) x) \<and> closed_text t (take i x)"
proof (induction x t arbitrary: i rule: find_unescaped.induct)
  case (2 ch s t)
  then show ?case
    by (cases s) (auto simp: numeral_2_eq_2 split: if_splits)
qed simp

lemma find_unescaped_closed: "closed_text t x \<Longrightarrow> find_unescaped x t = None"
proof (induction t x rule: closed_text.induct)
  case (2 d ch x)
  then show ?case by (cases x) (auto split: if_splits)
qed simp

lemma find_unescaped_append:
  "closed_text t x \<Longrightarrow> t \<noteq> backslash \<Longrightarrow> find_unescaped (x @ t # y) t = Some (length x)"
proof (induction t x rule: closed_text.induct)
  case (2 d ch x)
  then show ?case by (cases x) (auto split: if_splits)
qed simp

text \<open>Of a segment only the key's emptiness can be wrong, and the position names it.\<close>

lemma option_segment_closed:
  assumes "closed_text (CHR '';'') raw"
  shows "case option_segment_of i raw of Ok seg \<Rightarrow> seg_raw seg = raw \<and> seg_key seg \<noteq> [] | Err e \<Rightarrow> e = EmptyKey i"
proof (cases "find_unescaped raw (CHR ''='')")
  case None
  then show ?thesis
    using walk_closed [OF assms, of "\<lambda>c. [c]"] by (auto simp: option_segment_of_def unescape_any_def)
next
  case (Some j)
  note p = find_unescaped_splits [OF Some _ assms]
  obtain k where "walk_escaped (\<lambda>c. [c]) (take j raw) = Ok k" using walk_closed p by fastforce
  moreover obtain v where "walk_escaped (\<lambda>c. [c]) (drop (Suc j) raw) = Ok v" using walk_closed p by fastforce
  ultimately show ?thesis using Some by (auto simp: option_segment_of_def unescape_any_def Let_def)
qed

lemma option_segment_raw: "option_segment_of i raw = Ok seg \<Longrightarrow> seg_raw seg = raw \<and> seg_key seg \<noteq> []"
  by (auto simp: option_segment_of_def Let_def split: sum.splits if_splits option.splits)

lemma option_segment_index: "option_segment_of i raw = Ok seg \<longleftrightarrow> option_segment_of j raw = Ok seg"
  by (auto simp: option_segment_of_def Let_def split: sum.splits if_splits option.splits)

lemma option_segment_empty: "option_segment_of i [] = Err (EmptyKey i)"
  by (simp add: option_segment_of_def unescape_any_def)

text \<open>A segment that parses on its own and can stand between separators.\<close>

definition segment_ok :: "option_segment \<Rightarrow> bool" where
  "segment_ok seg \<longleftrightarrow> closed_text (CHR '';'') (seg_raw seg) \<and> option_segment_of 0 (seg_raw seg) = Ok seg"

lemma collect_segments_Ok:
  "collect_segments i raws = Ok segs \<longleftrightarrow>
     map seg_raw segs = raws \<and> (\<forall>seg \<in> set segs. option_segment_of 0 (seg_raw seg) = Ok seg)"
proof (induction raws arbitrary: i segs)
  case (Cons raw raws)
  show ?case
  proof (cases "option_segment_of i raw")
    case (Inl e)
    then have "option_segment_of 0 raw \<noteq> Ok seg" for seg by (metis option_segment_index sum.distinct(1))
    with Inl show ?thesis by auto
  next
    case (Inr seg)
    note s = Inr [unfolded option_segment_index [of i raw seg 0]] option_segment_raw [OF Inr]
    have "collect_segments i (raw # raws) = Ok segs \<longleftrightarrow>
        (\<exists>rest. segs = seg # rest \<and> collect_segments (Suc i) raws = Ok rest)"
      using Inr by (auto simp: map_ok_eq_Ok)
    with s Cons.IH [of "Suc i"] show ?thesis by (cases segs) auto
  qed
qed auto

lemma split_plugin_options_Ok:
  assumes "\<forall>seg \<in> set segs. segment_ok seg"
  shows "split_plugin_options (join_plugin_options (map seg_raw segs)) = Ok segs"
proof -
  have "\<forall>x \<in> set (map seg_raw segs). closed_text (CHR '';'') x \<and> x \<noteq> []"
    using assms option_segment_empty by (auto simp: segment_ok_def)
  from split_join [OF this] assms show ?thesis
    by (simp add: split_plugin_options_def collect_segments_Ok segment_ok_def)
qed

lemma split_plugin_options_segments:
  assumes "split_plugin_options opts = Ok segs"
  shows "\<forall>seg \<in> set segs. segment_ok seg"
    and "split_on_unescaped opts (CHR '';'') = Ok (map seg_raw segs)"
proof -
  obtain raws where r: "split_on_unescaped opts (CHR '';'') = Ok raws" "collect_segments 0 raws = Ok segs"
    using assms by (auto simp: split_plugin_options_def split: sum.splits)
  then have m: "map seg_raw segs = raws" "\<forall>seg \<in> set segs. option_segment_of 0 (seg_raw seg) = Ok seg"
    by (simp_all add: collect_segments_Ok)
  with r show "split_on_unescaped opts (CHR '';'') = Ok (map seg_raw segs)" by simp
  show "\<forall>seg \<in> set segs. segment_ok seg"
    using m split_on_unescaped_parts [OF r(1)] by (auto simp: segment_ok_def)
qed

lemma split_from_joined:
  "split_from (CHR '';'') cur s = Ok xs \<Longrightarrow> cur @ s = join_plugin_options xs \<or> cur @ s = join_plugin_options xs @ '';''"
proof (induction "CHR '';''" cur s arbitrary: xs rule: split_from.induct)
  case (2 cur ch s)
  consider (escape) "ch = backslash" | (sep) "ch = CHR '';''" | (plain) "ch \<noteq> backslash" "ch \<noteq> CHR '';''" by blast
  then show ?case
  proof cases
    case escape
    with 2 show ?thesis by (auto split: list.splits)
  next
    case sep
    with "2.prems" obtain ys where ys: "xs = cur # ys" "split_from (CHR '';'') [] s = Ok ys" by (auto simp: map_ok_eq_Ok)
    from "2.hyps"(2) sep ys(2) have "s = join_plugin_options ys \<or> s = join_plugin_options ys @ '';''" by simp
    with ys sep show ?thesis by (cases ys) auto
  next
    case plain
    with 2 show ?thesis by simp
  qed
qed (auto split: if_splits)

section \<open>Properties\<close>

text \<open>
  C35. Splitting and joining an options string are inverse: the raw segments of a string that
  splits join to the same string, less one trailing separator, and that string splits into the
  same segments again. So a rewriter that keeps segments changes nothing else.
\<close>

theorem options_round_trip:
  assumes "split_plugin_options opts = Ok segs"
  shows "split_plugin_options (join_plugin_options (map seg_raw segs)) = Ok segs \<and>
    (opts = join_plugin_options (map seg_raw segs) \<or> opts = join_plugin_options (map seg_raw segs) @ '';'')"
  using split_plugin_options_Ok [OF split_plugin_options_segments(1) [OF assms]]
    split_from_joined [of "[]" opts "map seg_raw segs"] split_plugin_options_segments(2) [OF assms]
  by (simp add: split_on_unescaped_def)

theorem options_round_trip_witness:
  "let segs = [\<lparr>seg_raw = ''tls'', seg_key = ''tls'', seg_value = [], seg_has_value = False\<rparr>,
      \<lparr>seg_raw = ''path=a'' @ [backslash] @ '';b'', seg_key = ''path'', seg_value = ''a;b'', seg_has_value = True\<rparr>]
   in split_plugin_options (''tls;path=a'' @ [backslash] @ '';b;'') = Ok segs \<and>
      split_plugin_options (join_plugin_options (map seg_raw segs)) = Ok segs"
proof -
  let ?segs = "[\<lparr>seg_raw = ''tls'', seg_key = ''tls'', seg_value = [], seg_has_value = False\<rparr>,
      \<lparr>seg_raw = ''path=a'' @ [backslash] @ '';b'', seg_key = ''path'', seg_value = ''a;b'', seg_has_value = True\<rparr>]"
  have "split_plugin_options (''tls;path=a'' @ [backslash] @ '';b;'') = Ok ?segs" by code_simp
  from this options_round_trip [OF this] show ?thesis by simp
qed

text \<open>
  A string is refused for one of two reasons only, and the error tells which: an escape at the
  end with nothing after it, or a segment whose key is empty, named by its position.
\<close>

theorem options_refused:
  assumes "split_plugin_options opts = Err e"
  shows "e = DanglingEscape \<and> split_on_unescaped opts (CHR '';'') = Err DanglingEscape \<or>
    (\<exists>raws i. split_on_unescaped opts (CHR '';'') = Ok raws \<and> i < length raws \<and> e = EmptyKey i \<and>
       option_segment_of i (raws ! i) = Err (EmptyKey i))"
proof (cases "split_on_unescaped opts (CHR '';'')")
  case (Inl d)
  with assms split_from_total [of "CHR '';''" "[]" opts d] show ?thesis
    by (auto simp: split_plugin_options_def split_on_unescaped_def)
next
  case (Inr raws)
  have collect: "\<exists>i < length rs. e = EmptyKey (n + i) \<and> option_segment_of (n + i) (rs ! i) = Err (EmptyKey (n + i))"
    if "collect_segments n rs = Err e" "\<forall>x \<in> set rs. closed_text (CHR '';'') x" for n rs
    using that
  proof (induction rs arbitrary: n)
    case (Cons r rs)
    show ?case
    proof (cases "option_segment_of n r")
      case (Inl d)
      with Cons.prems option_segment_closed [of r n] show ?thesis by (intro exI [of _ 0]) auto
    next
      case (Inr seg)
      with Cons.prems have "collect_segments (Suc n) rs = Err e" by (auto simp: map_ok_eq_Err)
      with Cons.IH [of "Suc n"] Cons.prems(2) show ?thesis by auto
    qed
  qed simp
  have "collect_segments 0 raws = Err e" using assms Inr by (simp add: split_plugin_options_def)
  with collect [of 0 raws] split_on_unescaped_parts [OF Inr] Inr show ?thesis by auto
qed

end
