(* ===== verification/Addr_Text.thy ===== *)
theory Addr_Text
  imports Net_Addr
begin

text \<open>
  How \<^verbatim>\<open>core::net\<close> prints addresses, and the string operations of \<^verbatim>\<open>core::str\<close> that work on lines
  and white space: what the sources put into plugin options and packet-filter rule sets, and how
  they read a tool's output. This is the standard library, so it has no counterpart under src/.
\<close>

section \<open>Addresses\<close>

function radix_digits :: "int \<Rightarrow> int \<Rightarrow> int list" where
  "radix_digits b n = (if n < b \<or> b < 2 then [n] else radix_digits b (n div b) @ [n mod b])"
  by pat_completeness auto

termination
  by (relation "measure (\<lambda>(b, n). nat n)") (auto simp: int_div_less_self)

declare radix_digits.simps [simp del]

definition digit_char :: "int \<Rightarrow> char" where
  "digit_char d = char_of (if d < 10 then 48 + d else 87 + d)"

definition show_radix :: "int \<Rightarrow> int \<Rightarrow> bytes" where
  "show_radix b n = map digit_char (radix_digits b n)"

fun join_with :: "bytes \<Rightarrow> bytes list \<Rightarrow> bytes" where
  "join_with sep [] = []"
| "join_with sep [x] = x"
| "join_with sep (x # y # xs) = x @ sep @ join_with sep (y # xs)"

definition digits_be :: "int \<Rightarrow> nat \<Rightarrow> int \<Rightarrow> int list" where
  "digits_be base n v = map (\<lambda>i. v div base ^ (n - 1 - i) mod base) [0..<n]"

definition display_v4 :: "ipv4 \<Rightarrow> bytes" where
  "display_v4 a = join_with ''.'' (map (show_radix 10) (digits_be 256 4 (uint a)))"

text \<open>The first longest run of zero segments, as start and length.\<close>

fun longest_zeroes :: "nat \<Rightarrow> nat \<times> nat \<Rightarrow> nat \<times> nat \<Rightarrow> int list \<Rightarrow> nat \<times> nat" where
  "longest_zeroes i current longest [] = longest"
| "longest_zeroes i current longest (g # gs) =
     (if g = 0 then
        (let c = (if snd current = 0 then (i, 1) else (fst current, snd current + 1))
         in longest_zeroes (Suc i) c (if snd c > snd longest then c else longest) gs)
      else longest_zeroes (Suc i) (0, 0) longest gs)"

definition display_v6 :: "ipv6 \<Rightarrow> bytes" where
  "display_v6 a =
     (case to_ipv4_mapped a of
        Some v4 \<Rightarrow> ''::ffff:'' @ display_v4 v4
      | None \<Rightarrow>
          (let gs = digits_be 65536 8 (uint a);
               show_groups = (\<lambda>xs. join_with '':'' (map (show_radix 16) xs));
               (start, len) = longest_zeroes 0 (0, 0) (0, 0) gs
           in if len > 1 then show_groups (take start gs) @ ''::'' @ show_groups (drop (start + len) gs)
              else show_groups gs))"

fun display_ip :: "ip_addr \<Rightarrow> bytes" where
  "display_ip (V4 a) = display_v4 a"
| "display_ip (V6 a) = display_v6 a"

section \<open>Lines, words and white space\<close>

definition newline :: char where
  "newline = CHR 0x0A"

definition unterminated :: "bytes \<Rightarrow> bytes" where
  "unterminated acc = rev (case acc of [] \<Rightarrow> [] | c # cs \<Rightarrow> if c = CHR 0x0D then cs else acc)"

text \<open>\<^verbatim>\<open>str::lines\<close>; the accumulator holds the current line backwards.\<close>

fun lines_from :: "bytes \<Rightarrow> bytes \<Rightarrow> bytes list" where
  "lines_from acc [] = (if acc = [] then [] else [rev acc])"
| "lines_from acc (c # cs) = (if c = newline then unterminated acc # lines_from [] cs else lines_from (c # acc) cs)"

definition lines :: "bytes \<Rightarrow> bytes list" where
  "lines s = lines_from [] s"

text \<open>The encodings of the characters with the Unicode property \<^verbatim>\<open>White_Space\<close>.\<close>

definition white_space :: "bytes list" where
  "white_space =
     map (\<lambda>c. [c]) [CHR 0x09, CHR 0x0A, CHR 0x0B, CHR 0x0C, CHR 0x0D, CHR 0x20] @
     [[CHR 0xC2, CHR 0x85], [CHR 0xC2, CHR 0xA0], [CHR 0xE1, CHR 0x9A, CHR 0x80]] @
     map (\<lambda>c. [CHR 0xE2, CHR 0x80, c])
       [CHR 0x80, CHR 0x81, CHR 0x82, CHR 0x83, CHR 0x84, CHR 0x85, CHR 0x86, CHR 0x87, CHR 0x88, CHR 0x89, CHR 0x8A,
        CHR 0xA8, CHR 0xA9, CHR 0xAF] @
     [[CHR 0xE2, CHR 0x81, CHR 0x9F], [CHR 0xE3, CHR 0x80, CHR 0x80]]"

fun strip_from :: "nat \<Rightarrow> bytes list \<Rightarrow> bytes \<Rightarrow> bytes" where
  "strip_from 0 ws s = s"
| "strip_from (Suc n) ws s =
     (case find (starts_with s) ws of None \<Rightarrow> s | Some w \<Rightarrow> strip_from n ws (drop (length w) s))"

text \<open>Every round takes at least one byte, so as many rounds as there are bytes strip everything.\<close>

definition trim_start :: "bytes \<Rightarrow> bytes" where
  "trim_start s = strip_from (length s) white_space s"

definition trim :: "bytes \<Rightarrow> bytes" where
  "trim s = (let t = trim_start s in rev (strip_from (length t) (map rev white_space) (rev t)))"

fun take_word :: "bytes \<Rightarrow> bytes" where
  "take_word [] = []"
| "take_word (c # cs) = (if list_ex (starts_with (c # cs)) white_space then [] else c # take_word cs)"

text \<open>\<^verbatim>\<open>split_whitespace().next()\<close>.\<close>

definition first_word :: "bytes \<Rightarrow> bytes option" where
  "first_word s = (let t = trim_start s in if t = [] then None else Some (take_word t))"

text \<open>What follows the first occurrence, as \<^verbatim>\<open>split_once(pat)\<close> has it in its second half, and \<^verbatim>\<open>contains\<close>.\<close>

fun after_first :: "bytes \<Rightarrow> bytes \<Rightarrow> bytes option" where
  "after_first pat [] = (if pat = [] then Some [] else None)"
| "after_first pat (c # cs) = (if starts_with (c # cs) pat then Some (drop (length pat) (c # cs)) else after_first pat cs)"

definition contains :: "bytes \<Rightarrow> bytes \<Rightarrow> bool" where
  "contains s pat \<longleftrightarrow> after_first pat s \<noteq> None"

lemma white_space_nonempty: "w \<in> set white_space \<Longrightarrow> w \<noteq> []"
  by (auto simp: white_space_def)

lemma strip_from_done:
  assumes "\<forall>w \<in> set ws. w \<noteq> []" "length s \<le> n"
  shows "find (starts_with (strip_from n ws s)) ws = None"
  using assms(2)
proof (induction n arbitrary: s)
  case 0
  with assms(1) show ?case by (auto simp: find_None_iff starts_with_def)
next
  case (Suc n)
  show ?case
  proof (cases "find (starts_with s) ws")
    case (Some w)
    with assms(1) have "w \<noteq> []" by (auto simp: find_Some_iff)
    then have "0 < length w" by simp
    with Suc(2) have "length (drop (length w) s) \<le> n" by (simp only: length_drop)
    from Suc(1) [OF this] Some show ?thesis by simp
  qed simp
qed

section \<open>Only address characters\<close>

definition address_char :: "char \<Rightarrow> bool" where
  "address_char c \<longleftrightarrow> c \<in> set ''0123456789abcdef.:''"

lemma radix_digits_bound: "2 \<le> b \<Longrightarrow> 0 \<le> n \<Longrightarrow> d \<in> set (radix_digits b n) \<Longrightarrow> 0 \<le> d \<and> d < b"
proof (induction b n rule: radix_digits.induct)
  case (1 b n)
  then show ?case using radix_digits.simps [of b n] by (auto simp: pos_imp_zdiv_nonneg_iff split: if_splits)
qed

lemma digit_char_plain: "0 \<le> d \<Longrightarrow> d < 16 \<Longrightarrow> address_char (digit_char d)"
proof -
  assume "0 \<le> d" "d < 16"
  then have "d \<in> set [0..15]" by simp
  moreover have "list_all (\<lambda>d. address_char (digit_char d)) [0..15]" by code_simp
  ultimately show ?thesis by (simp only: list_all_iff)
qed

lemma show_radix_plain: "b \<in> {10, 16} \<Longrightarrow> 0 \<le> n \<Longrightarrow> list_all address_char (show_radix b n)"
  using radix_digits_bound [of b n] by (fastforce simp: show_radix_def list_all_iff intro!: digit_char_plain)

lemma digits_be_nonneg: "0 < base \<Longrightarrow> d \<in> set (digits_be base n v) \<Longrightarrow> 0 \<le> d"
  by (auto simp: digits_be_def)

lemma join_with_plain: "list_all P sep \<Longrightarrow> \<forall>x \<in> set xs. list_all P x \<Longrightarrow> list_all P (join_with sep xs)"
  by (induction sep xs rule: join_with.induct) auto

lemma display_v4_plain: "list_all address_char (display_v4 a)"
  using digits_be_nonneg [of 256 _ 4 "uint a"]
  by (auto simp: display_v4_def address_char_def intro!: join_with_plain show_radix_plain)

lemma display_v6_plain: "list_all address_char (display_v6 a)"
proof -
  have groups: "list_all address_char (join_with '':'' (map (show_radix 16) xs))" if "set xs \<subseteq> set (digits_be 65536 8 v)" for xs v
  proof -
    have "0 \<le> d" if "d \<in> set xs" for d
      using that \<open>set xs \<subseteq> _\<close> digits_be_nonneg [of 65536 d 8 v] by auto
    then show ?thesis by (auto simp: address_char_def intro!: join_with_plain show_radix_plain)
  qed
  have "list_all address_char ''::ffff:''" "list_all address_char ''::''" by (simp_all add: address_char_def)
  then show ?thesis
    using groups [OF set_take_subset] groups [OF set_drop_subset] groups [OF order.refl] display_v4_plain
    by (auto simp: display_v6_def Let_def split: option.splits prod.splits)
qed

lemma display_v4_nonempty: "\<exists>c cs. display_v4 a = c # cs \<and> c \<notin> {CHR ''/'', CHR ''?'', CHR ''#''}"
proof -
  have "display_v4 a \<noteq> []"
    by (simp add: display_v4_def digits_be_def upt_rec show_radix_def)
  then obtain c cs where c: "display_v4 a = c # cs" by (cases "display_v4 a") auto
  with display_v4_plain [of a] show ?thesis by (auto simp: address_char_def)
qed

end
