(* ===== verification/Plugin_Directives.thy ===== *)
theory Plugin_Directives
  imports Plugin_Options Addr_Text
begin

text \<open>
  The options Hole hands to its v2ray-family plugins, crates/bridge/src/proxy/plugin.rs with
  crates/bridge/src/dns/ech.rs: whose \<^verbatim>\<open>ech-doh\<close> URL wins, whether the plugin would refuse its
  configuration, whether it will fetch an ECH configuration at all, and the rewritten string.
  The \<^verbatim>\<open>url\<close> crate is the parameter \<open>U\<close>: the host of a URL that parses.
\<close>

section \<open>The ECH lookup's resolver (dns/ech.rs)\<close>

datatype pin_source = Answered ip_addr | NoQueryNeeded | SecureBootstrapFailed | ResolverDeselected

record ech_doh =
  ech_url :: bytes
  ech_resolver :: ip_addr
  ech_source :: pin_source

fun doh_url_for_ip :: "ip_addr \<Rightarrow> bytes" where
  "doh_url_for_ip (V4 v4) = ''https://'' @ display_v4 v4 @ ''/dns-query''"
| "doh_url_for_ip (V6 v6) = ''https://['' @ display_v6 v6 @ '']/dns-query''"

fun verified_ip :: "pin_source \<Rightarrow> ip_addr option" where
  "verified_ip (Answered ip) = Some ip"
| "verified_ip NoQueryNeeded = None"
| "verified_ip SecureBootstrapFailed = None"
| "verified_ip ResolverDeselected = None"

definition is_pinned :: "ech_doh \<Rightarrow> bool" where
  "is_pinned e = (verified_ip (ech_source e) \<noteq> None)"

type_synonym url_host = "bytes \<Rightarrow> bytes option"

definition authority_is_a_name :: "url_host \<Rightarrow> bytes \<Rightarrow> bool" where
  "authority_is_a_name U url =
     (case U url of
        Some host \<Rightarrow> ip_addr_from_str (trim_end_char (CHR '']'') (dropWhile (\<lambda>c. c = CHR ''['') host)) = None
      | None \<Rightarrow> True)"

section \<open>What ex-ray accepts\<close>

datatype effective_ech = EchNone | EchHoles | EchOperators bytes

definition takes_ech_directives :: "bytes \<Rightarrow> bool" where
  "takes_ech_directives plugin_name \<longleftrightarrow> plugin_name \<in> {''v2ray-plugin'', ''ex-ray'', ''galoshes''}"

definition hole_ech_doh_outranks :: "url_host \<Rightarrow> ech_doh \<Rightarrow> bytes \<Rightarrow> bool" where
  "hole_ech_doh_outranks U e config_value \<longleftrightarrow> is_pinned e \<or> authority_is_a_name U config_value"

definition ex_ray_flag_value :: "option_segment \<Rightarrow> bytes" where
  "ex_ray_flag_value s = (if seg_has_value s then seg_value s else ''1'')"

text \<open>\<^verbatim>\<open>segments.iter().find(|s| s.key == key)\<close>, read as ex-ray reads it.\<close>

definition flag :: "option_segment list \<Rightarrow> bytes \<Rightarrow> bytes option" where
  "flag segs key = map_option ex_ray_flag_value (find (\<lambda>s. seg_key s = key) segs)"

definition flag_is :: "option_segment list \<Rightarrow> bytes \<Rightarrow> (bytes \<Rightarrow> bool) \<Rightarrow> bool" where
  "flag_is segs key p = (case flag segs key of Some v \<Rightarrow> p v | None \<Rightarrow> False)"

definition ech_doh_displaces :: "url_host \<Rightarrow> option_segment list \<Rightarrow> ech_doh option \<Rightarrow> bool" where
  "ech_doh_displaces U segs ech =
     (case (ech, flag segs ''ech-doh'') of
        (Some e, Some v) \<Rightarrow> hole_ech_doh_outranks U e v
      | _ \<Rightarrow> False)"

definition ex_ray_value_is_https_url :: "bytes \<Rightarrow> bool" where
  "ex_ray_value_is_https_url v \<longleftrightarrow>
     length v \<ge> 8 \<and> eq_ignore_ascii_case (take 8 v) ''https://'' \<and>
     takeWhile (\<lambda>c. c \<notin> {CHR ''/'', CHR ''?'', CHR ''#''}) (drop 8 v) \<noteq> []"

definition ex_ray_parses_as_uint32 :: "bytes \<Rightarrow> int option" where
  "ex_ray_parses_as_uint32 v = (if v = [] \<or> \<not> list_all is_ascii_digit v then None else parse_u32 v)"

text \<open>The UTF-8 encodings of the characters \<^verbatim>\<open>str::trim\<close> removes.\<close>

definition white_space :: "bytes list" where
  "white_space =
     map (\<lambda>n. [char_of (n :: nat)]) [9, 10, 11, 12, 13, 32] @ map (map char_of)
       ([[0xC2, 0x85], [0xC2, 0xA0], [0xE1, 0x9A, 0x80]] @ map (\<lambda>n. [0xE2, 0x80, 0x80 + n]) [0..<11] @
        [[0xE2, 0x80, 0xA8], [0xE2, 0x80, 0xA9], [0xE2, 0x80, 0xAF], [0xE2, 0x81, 0x9F], [0xE3, 0x80, 0x80 :: nat]])"

lemma starts_with_shortens: "w \<noteq> [] \<Longrightarrow> starts_with s w \<Longrightarrow> length s - length w < length s"
  by (cases s) (auto simp: starts_with_def)

function strip_white :: "bytes list \<Rightarrow> bytes \<Rightarrow> bytes" where
  "strip_white ws s =
     (case find (\<lambda>w. w \<noteq> [] \<and> starts_with s w) ws of None \<Rightarrow> s | Some w \<Rightarrow> strip_white ws (drop (length w) s))"
  by pat_completeness auto

termination
  by (relation "measure (\<lambda>(ws, s). length s)") (auto simp: find_Some_iff starts_with_shortens)

declare strip_white.simps [simp del]

definition str_trim :: "bytes \<Rightarrow> bytes" where
  "str_trim s = rev (strip_white (map rev white_space) (rev (strip_white white_space s)))"

definition is_ascii_alphanumeric :: "char \<Rightarrow> bool" where
  "is_ascii_alphanumeric c \<longleftrightarrow> (let n = of_char c :: int in (48 \<le> n \<and> n \<le> 57) \<or> (65 \<le> n \<and> n \<le> 90) \<or> (97 \<le> n \<and> n \<le> 122))"

definition v2ray_core_normalize :: "bytes \<Rightarrow> bytes" where
  "v2ray_core_normalize value =
     (let unbracketed = (if value \<noteq> [] \<and> hd value = CHR ''['' \<and> last value = CHR '']'' then butlast (tl value) else value)
      in if unbracketed \<noteq> [] \<and> (\<not> is_ascii_alphanumeric (hd unbracketed) \<or> \<not> is_ascii_alphanumeric (last unbracketed))
         then str_trim unbracketed else unbracketed)"

definition v2ray_core_parses_as_a_domain :: "bytes \<Rightarrow> bool" where
  "v2ray_core_parses_as_a_domain value =
     (let normalized = v2ray_core_normalize value in normalized \<noteq> [] \<and> ip_addr_from_str normalized = None)"

definition v2ray_core_parses_as_an_ip :: "bytes \<Rightarrow> bool" where
  "v2ray_core_parses_as_an_ip value \<longleftrightarrow> ip_addr_from_str (v2ray_core_normalize value) \<noteq> None"

definition ex_ray_local_addr_is_invalid :: "bytes \<Rightarrow> bool" where
  "ex_ray_local_addr_is_invalid value \<longleftrightarrow> CHR ''|'' \<in> set value \<or> \<not> v2ray_core_parses_as_an_ip value"

fun unspecified :: "ip_addr \<Rightarrow> bool" where
  "unspecified (V4 a) = (a = 0)"
| "unspecified (V6 a) = (case to_ipv4_mapped a of Some v4 \<Rightarrow> v4 = 0 | None \<Rightarrow> a = 0)"

definition ex_ray_remote_addr_is_invalid :: "bytes \<Rightarrow> bool" where
  "ex_ray_remote_addr_is_invalid value =
     (case ip_addr_from_str (v2ray_core_normalize value) of
        Some ip \<Rightarrow> unspecified ip
      | None \<Rightarrow> v2ray_core_normalize value = [])"

definition resolved_ech_doh_is_empty :: "url_host \<Rightarrow> option_segment list \<Rightarrow> ech_doh option \<Rightarrow> bool" where
  "resolved_ech_doh_is_empty U segs ech =
     (if ech \<noteq> None \<and> (flag segs ''ech-doh'' = None \<or> ech_doh_displaces U segs ech) then False
      else case flag segs ''ech-doh'' of None \<Rightarrow> True | Some v \<Rightarrow> v = [])"

definition out_of_range :: "int \<Rightarrow> bytes \<Rightarrow> bool" where
  "out_of_range hi v \<longleftrightarrow> (case parse_i64 v of Some n \<Rightarrow> \<not> (0 \<le> n \<and> n \<le> hi) | None \<Rightarrow> True)"

definition invalid_port :: "bytes \<Rightarrow> bool" where
  "invalid_port v \<longleftrightarrow> (case ex_ray_parses_as_uint32 v of Some p \<Rightarrow> \<not> (p \<noteq> 0 \<and> p \<le> 65535) | None \<Rightarrow> True)"

definition server_present :: "option_segment list \<Rightarrow> bool" where
  "server_present segs = list_ex (\<lambda>s. seg_key s = ''server'') segs"

definition tls_enabled :: "option_segment list \<Rightarrow> bool" where
  "tls_enabled segs \<longleftrightarrow> list_ex (\<lambda>s. seg_key s = ''tls'') segs \<or> flag segs ''mode'' = Some ''quic''"

definition mux_concurrency_rejected :: "option_segment list \<Rightarrow> bool" where
  "mux_concurrency_rejected segs \<longleftrightarrow>
     flag segs ''mode'' \<noteq> Some ''quic'' \<and> \<not> server_present segs \<and>
     (let mux = (case flag segs ''mux'' of None \<Rightarrow> 1 | Some v \<Rightarrow> (case parse_i64 v of Some n \<Rightarrow> n | None \<Rightarrow> 1))
      in mux \<noteq> 0 \<and> \<not> (1 \<le> mux \<and> mux \<le> 1024))"

text \<open>
  \<^verbatim>\<open>ex_ray_fatal_config_error\<close>: the checks in the order of the source, each with the key it
  returns; the first that fires is the answer.
\<close>

definition fatal_checks :: "url_host \<Rightarrow> option_segment list \<Rightarrow> ech_doh option \<Rightarrow> (bool \<times> bytes) list" where
  "fatal_checks U segs ech =
     (let local_addr_key = (if server_present segs then ''remoteAddr'' else ''localAddr'');
          remote_addr_key = (if server_present segs then ''localAddr'' else ''remoteAddr'')
      in map (\<lambda>k. (flag_is segs k (\<lambda>v. parse_i64 v = None), k)) [''mux'', ''tcp-keepalive''] @
         [(flag_is segs ''tls'' (\<lambda>v. v \<noteq> ''1''), ''tls'')] @
         map (\<lambda>k. (flag_is segs k (\<lambda>v. v = []), k)) [''host'', ''path''] @
         map (\<lambda>k. (flag_is segs k (\<lambda>v. v \<noteq> ''1''), k)) [''server'', ''fastOpen'', ''__android_vpn''] @
         [(flag_is segs ''fwmark'' (\<lambda>v. parse_i64 v = None), ''fwmark''),
          (flag_is segs ''ech'' (\<lambda>v. v \<notin> {''never'', ''auto'', ''always''}), ''ech''),
          (flag_is segs ''ech-doh'' (\<lambda>v. v \<noteq> [] \<and> \<not> ech_doh_displaces U segs ech \<and> \<not> ex_ray_value_is_https_url v), ''ech-doh''),
          (\<not> server_present segs \<and> flag_is segs ''tcp-keepalive'' (out_of_range 32767), ''tcp-keepalive''),
          (flag_is segs ''localPort'' invalid_port, ''localPort''),
          (flag_is segs local_addr_key ex_ray_local_addr_is_invalid, local_addr_key),
          (flag_is segs ''remotePort'' invalid_port, ''remotePort''),
          (flag_is segs remote_addr_key ex_ray_remote_addr_is_invalid, remote_addr_key)] @
         map (\<lambda>k. (flag_is segs k (out_of_range 4294967295), k)) [''mux'', ''fwmark''] @
         [(flag_is segs ''mode'' (\<lambda>v. v \<notin> {''websocket'', ''quic''}), ''mode''),
          (flag segs ''ech'' = Some ''always'' \<and> \<not> tls_enabled segs, ''ech''),
          (\<not> tls_enabled segs \<and> list_ex (\<lambda>k. flag_is segs k (\<lambda>v. v \<noteq> [])) [''cert'', ''certRaw'', ''key''], ''cert''),
          (server_present segs \<and> flag_is segs ''tcp-keepalive'' (out_of_range 32767), ''tcp-keepalive''),
          (flag segs ''ech'' = Some ''always'' \<and> tls_enabled segs \<and> resolved_ech_doh_is_empty U segs ech, ''ech-doh''),
          (mux_concurrency_rejected segs, ''mux'')])"

definition ex_ray_fatal_config_error :: "url_host \<Rightarrow> option_segment list \<Rightarrow> ech_doh option \<Rightarrow> bytes option" where
  "ex_ray_fatal_config_error U segs ech = map_option snd (find fst (fatal_checks U segs ech))"

definition EX_RAY_DEFAULT_HOST :: bytes where
  "EX_RAY_DEFAULT_HOST = ''cloudfront.com''"

definition V2RAY_CORE_EXP_8357_PREFIX :: bytes where
  "V2RAY_CORE_EXP_8357_PREFIX = ''experiment:8357''"

definition ech_fetch_is_reachable :: "url_host \<Rightarrow> option_segment list \<Rightarrow> ech_doh option \<Rightarrow> bool" where
  "ech_fetch_is_reachable U segs ech =
     (if ex_ray_fatal_config_error U segs ech \<noteq> None then False
      else if flag segs ''ech'' = Some ''never'' then False
      else
        let sni0 = (case flag segs ''host'' of None \<Rightarrow> EX_RAY_DEFAULT_HOST | Some v \<Rightarrow> v);
            sni1 = (if starts_with sni0 V2RAY_CORE_EXP_8357_PREFIX then drop (length V2RAY_CORE_EXP_8357_PREFIX) sni0 else sni0);
            sni2 = (if sni1 = [] then (case flag segs ''remoteAddr'' of None \<Rightarrow> [] | Some v \<Rightarrow> v) else sni1)
        in tls_enabled segs \<and> v2ray_core_parses_as_a_domain sni2)"

definition classify_ech_doh :: "url_host \<Rightarrow> option_segment list \<Rightarrow> ech_doh option \<Rightarrow> effective_ech \<times> bool" where
  "classify_ech_doh U segs ech =
     (let displaces = ech_doh_displaces U segs ech
      in if \<not> ech_fetch_is_reachable U segs ech then (EchNone, displaces)
         else (if ech \<noteq> None \<and> (flag segs ''ech-doh'' = None \<or> displaces) then EchHoles
               else (case flag segs ''ech-doh'' of
                       Some v \<Rightarrow> if v \<noteq> [] then EchOperators v else EchNone
                     | None \<Rightarrow> EchNone), displaces))"

definition effective_ech_doh :: "url_host \<Rightarrow> bytes \<Rightarrow> bytes option \<Rightarrow> ech_doh option \<Rightarrow> effective_ech" where
  "effective_ech_doh U plugin_name opts ech =
     (if \<not> takes_ech_directives plugin_name then EchNone
      else case split_plugin_options (case opts of Some o' \<Rightarrow> o' | None \<Rightarrow> []) of
             Err _ \<Rightarrow> EchNone
           | Ok segs \<Rightarrow> fst (classify_ech_doh U segs ech))"

definition inject_plugin_directives :: "url_host \<Rightarrow> bytes \<Rightarrow> bytes option \<Rightarrow> ech_doh option \<Rightarrow>
    (malformed_options, bytes option) result" where
  "inject_plugin_directives U plugin_name opts ech =
     (if \<not> takes_ech_directives plugin_name then
        (case opts of
           Some o' \<Rightarrow> map_ok (\<lambda>_. Some o') (split_plugin_options o')
         | None \<Rightarrow> Ok None)
      else case split_plugin_options (case opts of Some o' \<Rightarrow> o' | None \<Rightarrow> []) of
             Err e \<Rightarrow> Err e
           | Ok segs \<Rightarrow>
               (let displaces = snd (classify_ech_doh U segs ech);
                    owned = (if displaces then [''loglevel'', ''ech-doh''] else [''loglevel'']);
                    directive = (case ech of Some e \<Rightarrow> [''ech-doh='' @ ech_url e] | None \<Rightarrow> [])
                in Ok (Some (join_plugin_options
                     (map seg_raw (filter (\<lambda>s. seg_key s \<notin> set owned) segs) @ [''loglevel=debug''] @ directive)))))"

section \<open>The text of a pinned URL\<close>

text \<open>Nothing an address prints as can separate or escape.\<close>

definition url_char :: "char \<Rightarrow> bool" where
  "url_char c \<longleftrightarrow> c \<noteq> backslash \<and> c \<noteq> CHR '';''"

lemma address_char_url: "address_char c \<Longrightarrow> url_char c"
  by (auto simp: address_char_def url_char_def)

lemma doh_url_plain: "list_all url_char (doh_url_for_ip ip)"
proof -
  have "list_all url_char s" if "list_all address_char s" for s
    using that by (rule list.pred_mono_strong) (rule address_char_url)
  then show ?thesis using display_v4_plain display_v6_plain by (cases ip) (simp_all add: url_char_def)
qed

lemma doh_url_https: "ex_ray_value_is_https_url (doh_url_for_ip ip)" "doh_url_for_ip ip \<noteq> []"
proof -
  show "ex_ray_value_is_https_url (doh_url_for_ip ip)"
  proof (cases ip)
    case (V4 a)
    obtain c cs where "display_v4 a = c # cs" "c \<notin> {CHR ''/'', CHR ''?'', CHR ''#''}" using display_v4_nonempty by blast
    with V4 show ?thesis by (simp add: ex_ray_value_is_https_url_def)
  next
    case (V6 a)
    then show ?thesis by (simp add: ex_ray_value_is_https_url_def)
  qed
  show "doh_url_for_ip ip \<noteq> []" by (cases ip) simp_all
qed

section \<open>Flags\<close>

lemma flag_append: "flag (xs @ ys) k = (case flag xs k of None \<Rightarrow> flag ys k | Some v \<Rightarrow> Some v)"
  by (induction xs) (auto simp: flag_def)

lemma flag_filter: "flag (filter (\<lambda>s. seg_key s \<notin> K) segs) k = (if k \<in> K then None else flag segs k)"
  by (induction segs) (auto simp: flag_def)

lemma flag_present: "list_ex (\<lambda>s. seg_key s = k) segs \<longleftrightarrow> flag segs k \<noteq> None"
  by (induction segs) (auto simp: flag_def)

lemma flag_Cons: "flag (s # ss) k = (if seg_key s = k then Some (ex_ray_flag_value s) else flag ss k)" "flag [] k = None"
  by (simp_all add: flag_def)

text \<open>Every check reads the segments through first-wins flags only.\<close>

lemma server_present_flag: "server_present segs \<longleftrightarrow> flag segs ''server'' \<noteq> None"
  by (simp add: server_present_def flag_present)

lemma tls_enabled_flag: "tls_enabled segs \<longleftrightarrow> flag segs ''tls'' \<noteq> None \<or> flag segs ''mode'' = Some ''quic''"
  by (simp add: tls_enabled_def flag_present)

definition same_but_directives :: "option_segment list \<Rightarrow> option_segment list \<Rightarrow> bool" where
  "same_but_directives segs segs' \<longleftrightarrow> (\<forall>k. k \<noteq> ''ech-doh'' \<and> k \<noteq> ''loglevel'' \<longrightarrow> flag segs k = flag segs' k)"

lemma same_flag: "same_but_directives segs segs' \<Longrightarrow> k \<noteq> ''ech-doh'' \<Longrightarrow> k \<noteq> ''loglevel'' \<Longrightarrow> flag segs k = flag segs' k"
  by (simp add: same_but_directives_def)

definition bad_ech_doh :: "url_host \<Rightarrow> option_segment list \<Rightarrow> ech_doh option \<Rightarrow> bool" where
  "bad_ech_doh U segs ech =
     flag_is segs ''ech-doh'' (\<lambda>v. v \<noteq> [] \<and> \<not> ech_doh_displaces U segs ech \<and> \<not> ex_ray_value_is_https_url v)"

lemma fatal_checks_cong:
  assumes "same_but_directives segs segs'" "bad_ech_doh U segs ech = bad_ech_doh U segs' ech'"
    and "resolved_ech_doh_is_empty U segs ech = resolved_ech_doh_is_empty U segs' ech'"
  shows "fatal_checks U segs ech = fatal_checks U segs' ech'"
proof -
  note f = same_flag [OF assms(1)]
  have flags: "flag_is segs k p = flag_is segs' k p" if "k \<noteq> ''ech-doh''" "k \<noteq> ''loglevel''" for k p
    using f [OF that] by (simp add: flag_is_def)
  have s: "server_present segs = server_present segs'" "tls_enabled segs = tls_enabled segs'"
    by (simp_all add: server_present_flag tls_enabled_flag f)
  show ?thesis
    unfolding fatal_checks_def mux_concurrency_rejected_def assms(2) [unfolded bad_ech_doh_def] assms(3) s
    by (simp add: flags f Let_def)
qed

lemma reachable_cong:
  assumes "same_but_directives segs segs'" "bad_ech_doh U segs ech = bad_ech_doh U segs' ech'"
    and "resolved_ech_doh_is_empty U segs ech = resolved_ech_doh_is_empty U segs' ech'"
  shows "ech_fetch_is_reachable U segs ech = ech_fetch_is_reachable U segs' ech'"
  unfolding ech_fetch_is_reachable_def ex_ray_fatal_config_error_def fatal_checks_cong [OF assms]
  by (simp add: same_flag [OF assms(1)] tls_enabled_flag Let_def)

section \<open>The rewritten string\<close>

lemma walk_plain: "list_all (\<lambda>c. c \<noteq> backslash) x \<Longrightarrow> walk_escaped (\<lambda>c. [c]) x = Ok x"
  by (induction x) auto

lemma closed_plain: "list_all url_char x \<Longrightarrow> closed_text (CHR '';'') x"
  by (induction x) (auto simp: url_char_def)

definition loglevel_segment :: option_segment where
  "loglevel_segment = \<lparr>seg_raw = ''loglevel=debug'', seg_key = ''loglevel'', seg_value = ''debug'', seg_has_value = True\<rparr>"

definition ech_doh_segment :: "bytes \<Rightarrow> option_segment" where
  "ech_doh_segment url = \<lparr>seg_raw = ''ech-doh='' @ url, seg_key = ''ech-doh'', seg_value = url, seg_has_value = True\<rparr>"

lemma loglevel_segment_ok: "segment_ok loglevel_segment"
  by code_simp

lemma ech_doh_segment_ok:
  assumes "list_all url_char url"
  shows "segment_ok (ech_doh_segment url)"
proof -
  have "walk_escaped (\<lambda>c. [c]) url = Ok url"
    by (rule walk_plain) (use assms in \<open>auto simp: url_char_def list_all_iff\<close>)
  moreover have "find_unescaped (''ech-doh='' @ url) (CHR ''='') = Some 7" by simp
  ultimately show ?thesis
    using closed_plain [OF assms]
    by (simp add: segment_ok_def ech_doh_segment_def option_segment_of_def unescape_any_def Let_def)
qed

definition owned_keys :: "bool \<Rightarrow> bytes set" where
  "owned_keys displaces = (if displaces then {''loglevel'', ''ech-doh''} else {''loglevel''})"

definition injected_segments :: "url_host \<Rightarrow> option_segment list \<Rightarrow> ech_doh option \<Rightarrow> option_segment list" where
  "injected_segments U segs ech =
     filter (\<lambda>s. seg_key s \<notin> owned_keys (ech_doh_displaces U segs ech)) segs @ [loglevel_segment] @
     (case ech of Some e \<Rightarrow> [ech_doh_segment (ech_url e)] | None \<Rightarrow> [])"

text \<open>An \<open>ech_doh\<close> as \<^verbatim>\<open>ech_doh_url\<close> builds it.\<close>

definition own_url :: "ech_doh option \<Rightarrow> bool" where
  "own_url ech = (case ech of Some e \<Rightarrow> ech_url e = doh_url_for_ip (ech_resolver e) | None \<Rightarrow> True)"

lemma inject_splits:
  assumes "takes_ech_directives name" "own_url ech" "inject_plugin_directives U name opts ech = Ok out"
  obtains segs res where "split_plugin_options (case opts of Some o' \<Rightarrow> o' | None \<Rightarrow> []) = Ok segs" "out = Some res"
    "split_plugin_options res = Ok (injected_segments U segs ech)"
proof -
  obtain segs where segs: "split_plugin_options (case opts of Some o' \<Rightarrow> o' | None \<Rightarrow> []) = Ok segs"
    using assms(1,3) by (auto simp: inject_plugin_directives_def split: sum.splits)
  have d: "snd (classify_ech_doh U segs ech) = ech_doh_displaces U segs ech" by (simp add: classify_ech_doh_def Let_def)
  have raws: "map seg_raw (injected_segments U segs ech) =
      map seg_raw (filter (\<lambda>s. seg_key s \<notin> owned_keys (ech_doh_displaces U segs ech)) segs) @ [''loglevel=debug''] @
      (case ech of Some e \<Rightarrow> [''ech-doh='' @ ech_url e] | None \<Rightarrow> [])"
    by (simp add: injected_segments_def loglevel_segment_def ech_doh_segment_def split: option.splits)
  have out: "out = Some (join_plugin_options (map seg_raw (injected_segments U segs ech)))"
    using assms(1,3) segs unfolding raws
    by (simp add: inject_plugin_directives_def d owned_keys_def Let_def insert_commute cong: filter_cong split: if_splits)
  have "\<forall>s \<in> set (injected_segments U segs ech). segment_ok s"
    using split_plugin_options_segments(1) [OF segs] assms(2) doh_url_plain
    by (auto simp: injected_segments_def own_url_def loglevel_segment_ok ech_doh_segment_ok split: option.splits)
  from split_plugin_options_Ok [OF this] that [OF segs out] show ?thesis by simp
qed

lemma injected_flags:
  "flag (injected_segments U segs ech) k =
     (if k = ''loglevel'' then Some ''debug''
      else if k = ''ech-doh'' then
        (case (ech, flag segs ''ech-doh'', ech_doh_displaces U segs ech) of
           (_, Some v, False) \<Rightarrow> Some v
         | (Some e, _, _) \<Rightarrow> Some (ech_url e)
         | (None, _, _) \<Rightarrow> None)
      else flag segs k)"
proof -
  have d: "ech \<noteq> None \<and> flag segs ''ech-doh'' \<noteq> None" if "ech_doh_displaces U segs ech"
    using that by (auto simp: ech_doh_displaces_def split: option.splits)
  have "flag (injected_segments U segs ech) k =
      (case (if k \<in> owned_keys (ech_doh_displaces U segs ech) then None else flag segs k) of
         Some v \<Rightarrow> Some v
       | None \<Rightarrow> if k = ''loglevel'' then Some ''debug''
           else (case ech of Some e \<Rightarrow> if k = ''ech-doh'' then Some (ech_url e) else None | None \<Rightarrow> None))"
    by (simp add: injected_segments_def flag_append flag_filter flag_Cons loglevel_segment_def ech_doh_segment_def
        ex_ray_flag_value_def split: option.split)
  with d show ?thesis
    by (cases "k = ''loglevel''"; cases "k = ''ech-doh''"; cases "ech_doh_displaces U segs ech")
      (simp_all add: owned_keys_def split: option.split)
qed

lemma injected_same: "same_but_directives segs (injected_segments U segs ech)"
  by (simp add: same_but_directives_def injected_flags)

lemma no_own_never_displaces: "\<not> ech_doh_displaces U segs None"
  by (simp add: ech_doh_displaces_def)

lemma own_url_good:
  assumes "own_url (Some e)"
  shows "ech_url e \<noteq> []" "ex_ray_value_is_https_url (ech_url e)"
  using assms doh_url_https [of "ech_resolver e"] by (simp_all add: own_url_def)

text \<open>The gate, evaluated before the rewrite, sees what ex-ray sees after it.\<close>

lemma injected_ech_doh:
  assumes "own_url ech"
  shows "bad_ech_doh U segs ech = bad_ech_doh U (injected_segments U segs ech) None"
    and "resolved_ech_doh_is_empty U segs ech = resolved_ech_doh_is_empty U (injected_segments U segs ech) None"
  using assms own_url_good
  by (auto simp: bad_ech_doh_def resolved_ech_doh_is_empty_def flag_is_def injected_flags no_own_never_displaces
      ech_doh_displaces_def split: option.splits bool.splits)

lemmas injected_reachable = reachable_cong [OF injected_same injected_ech_doh]

section \<open>Properties\<close>

text \<open>What ex-ray, started with an options string, dials for its ECH configuration.\<close>

definition ex_ray_dials :: "url_host \<Rightarrow> bytes \<Rightarrow> bytes option" where
  "ex_ray_dials U opts =
     (case split_plugin_options opts of
        Err _ \<Rightarrow> None
      | Ok segs \<Rightarrow>
          if ech_fetch_is_reachable U segs None
          then (case flag segs ''ech-doh'' of Some v \<Rightarrow> if v = [] then None else Some v | None \<Rightarrow> None)
          else None)"

text \<open>
  The answer the cover's permit is derived from, read off the user's options, is what ex-ray
  does with the rewritten string: it dials Hole's URL exactly when the answer is Hole's, the
  operator's URL exactly when the answer is that one, and nothing otherwise.
\<close>

lemma effective_is_what_ex_ray_dials:
  assumes "takes_ech_directives name" "own_url ech" "inject_plugin_directives U name opts ech = Ok (Some res)"
  shows "ex_ray_dials U res =
    (case effective_ech_doh U name opts ech of
       EchNone \<Rightarrow> None
     | EchHoles \<Rightarrow> map_option ech_url ech
     | EchOperators v \<Rightarrow> Some v)"
proof -
  obtain segs where segs: "split_plugin_options (case opts of Some o' \<Rightarrow> o' | None \<Rightarrow> []) = Ok segs"
    "split_plugin_options res = Ok (injected_segments U segs ech)"
    using inject_splits [OF assms] by (metis option.inject)
  note r = injected_reachable [OF assms(2), of U segs]
  have e: "effective_ech_doh U name opts ech = fst (classify_ech_doh U segs ech)"
    using assms(1) segs(1) by (simp add: effective_ech_doh_def)
  show ?thesis
    using assms(2) own_url_good
    by (auto simp: e classify_ech_doh_def ex_ray_dials_def segs(2) r injected_flags Let_def ech_doh_displaces_def
        split: option.splits bool.splits)
qed

definition sample_ech :: ech_doh where
  "sample_ech = \<lparr>ech_url = ''https://1.1.1.1/dns-query'', ech_resolver = V4 0x01010101, ech_source = NoQueryNeeded\<rparr>"

lemma sample_ech_own: "own_url (Some sample_ech)"
  by code_simp

lemma sample_dials:
  "ex_ray_dials (\<lambda>_. None) ''tls;loglevel=debug;ech-doh=https://1.1.1.1/dns-query'' = Some ''https://1.1.1.1/dns-query''"
proof -
  have i: "inject_plugin_directives (\<lambda>_. None) ''ex-ray'' (Some ''tls;ech-doh=https://d/'') (Some sample_ech) =
      Ok (Some ''tls;loglevel=debug;ech-doh=https://1.1.1.1/dns-query'')" by code_simp
  have e: "effective_ech_doh (\<lambda>_. None) ''ex-ray'' (Some ''tls;ech-doh=https://d/'') (Some sample_ech) = EchHoles"
    by code_simp
  have t: "takes_ech_directives ''ex-ray''" by (simp add: takes_ech_directives_def)
  from effective_is_what_ex_ray_dials [OF t sample_ech_own i] e show ?thesis by (simp add: sample_ech_def)
qed

text \<open>
  The rewrite sets what it owns and nothing else: every other key reads as before, first
  occurrence first, and the log level is Hole's. A string the plugin would refuse is refused.
\<close>

theorem injection_preserves_options:
  assumes "takes_ech_directives name" "own_url ech"
  shows "case split_plugin_options (case opts of Some o' \<Rightarrow> o' | None \<Rightarrow> []) of
      Err e \<Rightarrow> inject_plugin_directives U name opts ech = Err e
    | Ok segs \<Rightarrow> (\<exists>res segs'. inject_plugin_directives U name opts ech = Ok (Some res) \<and> split_plugin_options res = Ok segs' \<and>
        flag segs' ''loglevel'' = Some ''debug'' \<and>
        (\<forall>k. k \<noteq> ''ech-doh'' \<and> k \<noteq> ''loglevel'' \<longrightarrow> flag segs' k = flag segs k) \<and>
        ex_ray_fatal_config_error U segs' None = ex_ray_fatal_config_error U segs ech)"
proof (cases "split_plugin_options (case opts of Some o' \<Rightarrow> o' | None \<Rightarrow> [])")
  case (Inl e)
  with assms(1) show ?thesis by (simp add: inject_plugin_directives_def)
next
  case (Inr segs)
  then obtain out where out: "inject_plugin_directives U name opts ech = Ok out"
    using assms(1) by (simp add: inject_plugin_directives_def Let_def)
  obtain res where res: "out = Some res" "split_plugin_options res = Ok (injected_segments U segs ech)"
    using inject_splits [OF assms out] Inr by (metis sum.inject(2))
  have "ex_ray_fatal_config_error U (injected_segments U segs ech) None = ex_ray_fatal_config_error U segs ech"
    unfolding ex_ray_fatal_config_error_def fatal_checks_cong [OF injected_same injected_ech_doh [OF assms(2)]] ..
  with Inr out res show ?thesis by (auto simp: injected_flags)
qed

theorem injection_preserves_options_witness:
  "\<exists>res. inject_plugin_directives (\<lambda>_. None) ''galoshes'' (Some ''tls;mux=0'') (Some sample_ech) = Ok (Some res)"
proof -
  have t: "takes_ech_directives ''galoshes''" by (simp add: takes_ech_directives_def)
  have s: "split_plugin_options ''tls;mux=0'' = Ok [\<lparr>seg_raw = ''tls'', seg_key = ''tls'', seg_value = [], seg_has_value = False\<rparr>,
      \<lparr>seg_raw = ''mux=0'', seg_key = ''mux'', seg_value = ''0'', seg_has_value = True\<rparr>]" by code_simp
  from injection_preserves_options [OF t sample_ech_own, of "\<lambda>_. None" "Some ''tls;mux=0''"] s show ?thesis by auto
qed

text \<open>An option that, when given, is a number between two bounds.\<close>

definition flag_within :: "option_segment list \<Rightarrow> bytes \<Rightarrow> (bytes \<Rightarrow> int option) \<Rightarrow> int \<Rightarrow> int \<Rightarrow> bool" where
  "flag_within segs key parse lo hi =
     (case flag segs key of
        None \<Rightarrow> True
      | Some v \<Rightarrow> (case parse v of Some n \<Rightarrow> lo \<le> n \<and> n \<le> hi | None \<Rightarrow> False))"

lemma port_within: "\<not> flag_is segs k invalid_port \<Longrightarrow> flag_within segs k parse_u32 1 65535"
  by (fastforce simp: flag_within_def flag_is_def invalid_port_def ex_ray_parses_as_uint32_def parse_u32_def
      split: option.splits if_splits dest: parse_int_range)

lemma range_within: "\<not> flag_is segs k (out_of_range hi) \<Longrightarrow> flag_within segs k parse_i64 0 hi"
  by (auto simp: flag_within_def flag_is_def out_of_range_def split: option.splits)

lemma mux_within:
  "\<not> flag_is segs ''mux'' (out_of_range 4294967295) \<Longrightarrow> \<not> mux_concurrency_rejected segs \<Longrightarrow>
     flag_within segs ''mux'' parse_i64 0 (if flag segs ''mode'' = Some ''quic'' \<or> server_present segs then 4294967295 else 1024)"
  by (auto simp: flag_within_def flag_is_def out_of_range_def mux_concurrency_rejected_def Let_def split: option.splits)

text \<open>
  C36. A configuration the gate lets through is in range: ports are 1 to 65535, the keep-alive is
  at most 32767, the mark and the multiplexing count fit 32 bits, and on the websocket client the
  count is at most 1024.
\<close>

theorem accepted_options_in_range:
  assumes "ex_ray_fatal_config_error U segs ech = None"
  shows "flag_within segs ''localPort'' parse_u32 1 65535 \<and> flag_within segs ''remotePort'' parse_u32 1 65535 \<and>
    flag_within segs ''tcp-keepalive'' parse_i64 0 32767 \<and> flag_within segs ''fwmark'' parse_i64 0 4294967295 \<and>
    flag_within segs ''mux'' parse_i64 0 (if flag segs ''mode'' = Some ''quic'' \<or> server_present segs then 4294967295 else 1024)"
proof -
  have "find fst (fatal_checks U segs ech) = None" using assms by (simp add: ex_ray_fatal_config_error_def)
  then have passed: "\<not> b" if "(b, k) \<in> set (fatal_checks U segs ech)" for b k
    using find_None_iff [of fst "fatal_checks U segs ech"] that by (metis fst_conv)
  note in_checks = fatal_checks_def Let_def
  have "\<not> flag_is segs ''localPort'' invalid_port" "\<not> flag_is segs ''remotePort'' invalid_port"
    by (rule passed [of _ "''localPort''"], simp add: in_checks) (rule passed [of _ "''remotePort''"], simp add: in_checks)
  moreover have "\<not> flag_is segs ''tcp-keepalive'' (out_of_range 32767)"
    using passed [of "\<not> server_present segs \<and> flag_is segs ''tcp-keepalive'' (out_of_range 32767)" "''tcp-keepalive''"]
      passed [of "server_present segs \<and> flag_is segs ''tcp-keepalive'' (out_of_range 32767)" "''tcp-keepalive''"]
    by (cases "server_present segs") (simp_all add: in_checks)
  moreover have "\<not> flag_is segs ''mux'' (out_of_range 4294967295)" "\<not> flag_is segs ''fwmark'' (out_of_range 4294967295)"
    by (rule passed [of _ "''mux''"], simp add: in_checks) (rule passed [of _ "''fwmark''"], simp add: in_checks)
  moreover have "\<not> mux_concurrency_rejected segs"
    by (rule passed [of _ "''mux''"], simp add: in_checks)
  ultimately show ?thesis by (blast intro: port_within range_within mux_within)
qed

definition sample_url :: url_host where
  "sample_url s = (if s = ''https://1.1.1.1/dns-query'' then Some ''1.1.1.1'' else None)"

definition sample_segments :: "option_segment list" where
  "sample_segments = [\<lparr>seg_raw = ''mux=8'', seg_key = ''mux'', seg_value = ''8'', seg_has_value = True\<rparr>,
     \<lparr>seg_raw = ''localPort=1984'', seg_key = ''localPort'', seg_value = ''1984'', seg_has_value = True\<rparr>]"

theorem accepted_options_in_range_witness:
  "ex_ray_fatal_config_error sample_url sample_segments None = None \<and> flag_within sample_segments ''mux'' parse_i64 0 1024"
proof -
  have "ex_ray_fatal_config_error sample_url sample_segments None = None" by code_simp
  moreover have "flag sample_segments ''mode'' = None" "\<not> server_present sample_segments" by code_simp+
  ultimately show ?thesis using accepted_options_in_range [of sample_url sample_segments None] by simp
qed

end
