(* ===== verification/Dns_Wire.thy ===== *)
theory Dns_Wire
  imports Plugin_Options Addr_Text
begin

text \<open>
  The byte formats of the DNS forwarder, crates/bridge/src/dns/forwarder.rs: the synthesized
  SERVFAIL, the length-prefixed exchange of DNS over TCP, and the HTTP/1.1 response of DNS over
  HTTPS. A slice taken past the end of its buffer panics in the source; \<open>synthesize_servfail\<close> is
  \<open>None\<close> there.
\<close>

unbundle bit_operations_syntax

definition MAX_REPLY_SIZE :: int where
  "MAX_REPLY_SIZE = 16 * 1024"

definition byte_at :: "bytes \<Rightarrow> nat \<Rightarrow> int" where
  "byte_at bs i = of_char (bs ! i)"

definition byte_char :: "int \<Rightarrow> char" where
  "byte_char n = char_of n"

section \<open>SERVFAIL\<close>

definition RCODE_SERVFAIL :: int where
  "RCODE_SERVFAIL = 2"

text \<open>The end of the first question, walked label by label.\<close>

function question_end_from :: "bytes \<Rightarrow> nat \<Rightarrow> nat option" where
  "question_end_from q i =
     (if length q \<le> i then None
      else
        (let len = byte_at q i
         in if len = 0 then Some (i + 1 + 4)
            else if len AND 0xC0 \<noteq> 0 then Some (i + 2 + 4)
            else
              (let next = i + 1 + nat len
               in if length q \<le> next then None else question_end_from q next)))"
  by pat_completeness auto

termination
  by (relation "measure (\<lambda>(q, i). length q - i)") auto

declare question_end_from.simps [simp del]

definition question_end :: "bytes \<Rightarrow> nat option" where
  "question_end q = question_end_from q 0"

definition servfail_header :: "bytes \<Rightarrow> bytes" where
  "servfail_header query =
     (if 2 \<le> length query then take 2 query else [CHR 0x00, CHR 0x00]) @
     [byte_char (0x80 OR (if 4 \<le> length query then byte_at query 2 AND 0x79 else 0)),
      byte_char (0x80 OR (RCODE_SERVFAIL AND 0x0F))] @
     (if 6 \<le> length query then take 2 (drop 4 query) else [CHR 0x00, CHR 0x00]) @
     replicate 6 (CHR 0x00)"

definition synthesize_servfail :: "bytes \<Rightarrow> bytes option" where
  "synthesize_servfail query =
     (if 12 < length query then
        (case question_end (drop 12 query) of
           Some qend \<Rightarrow>
             if length query < 12 + qend then None
             else Some (servfail_header query @ take qend (drop 12 query))
         | None \<Rightarrow> Some (servfail_header query))
      else Some (servfail_header query))"

section \<open>Errors and streams\<close>

text \<open>
  An error as the walks over \<^verbatim>\<open>source()\<close> see it: an \<^verbatim>\<open>io::Error\<close> with its errno and its inner
  error, an error of rustls, or any other error, the last two with their source.
\<close>

datatype certificate_error =
    UnknownIssuer | CertBadSignature | Revoked | UnknownRevocationStatus | OtherCertificateError

datatype crl_error = CrlBadSignature | OtherCrlError

datatype rustls_error = InvalidCertificate certificate_error | InvalidCertRevocationList crl_error | OtherRustlsError

datatype error_node =
    IoError "int option" "error_node option"
  | RustlsError rustls_error "error_node option"
  | OtherError "error_node option"

text \<open>\<^verbatim>\<open>io::Error::new(kind, "...")\<close>: a custom error around a string.\<close>

definition io_error_new :: error_node where
  "io_error_new = IoError None (Some (OtherError None))"

text \<open>
  An awaited call is answered, fails, or is still outstanding when the attempt's budget fires and
  drops it.
\<close>

datatype 'a io_reply = Ready 'a | IoFailed error_node | Outstanding

fun io_bind :: "'a io_reply \<Rightarrow> ('a \<Rightarrow> 'b io_reply) \<Rightarrow> 'b io_reply" where
  "io_bind (Ready x) k = k x"
| "io_bind (IoFailed e) k = IoFailed e"
| "io_bind Outstanding k = Outstanding"

text \<open>What a stream still yields, and how it ends.\<close>

datatype stream_end = EndOfFile | Broken error_node | Stalled

record incoming =
  in_bytes :: bytes
  in_end :: stream_end

definition read_exact :: "nat \<Rightarrow> incoming \<Rightarrow> (bytes \<times> incoming) io_reply" where
  "read_exact n s =
     (if n \<le> length (in_bytes s) then Ready (take n (in_bytes s), s\<lparr>in_bytes := drop n (in_bytes s)\<rparr>)
      else case in_end s of EndOfFile \<Rightarrow> IoFailed io_error_new | Broken e \<Rightarrow> IoFailed e | Stalled \<Rightarrow> Outstanding)"

text \<open>\<^verbatim>\<open>take(cap).read_to_end()\<close>.\<close>

definition read_to_end :: "int \<Rightarrow> incoming \<Rightarrow> bytes io_reply" where
  "read_to_end cap s =
     (if cap \<le> int (length (in_bytes s)) then Ready (take (nat cap) (in_bytes s))
      else case in_end s of EndOfFile \<Rightarrow> Ready (in_bytes s) | Broken e \<Rightarrow> IoFailed e | Stalled \<Rightarrow> Outstanding)"

text \<open>A connected peer: how the write and the flush of a request end, and what it sends back for it.\<close>

record peer =
  peer_write :: "bytes \<Rightarrow> unit io_reply"
  peer_flush :: "bytes \<Rightarrow> unit io_reply"
  peer_sends :: "bytes \<Rightarrow> incoming"

section \<open>DNS over TCP\<close>

definition to_be_bytes :: "int \<Rightarrow> bytes" where
  "to_be_bytes n = [byte_char (n div 256 mod 256), byte_char (n mod 256)]"

definition from_be_bytes :: "bytes \<Rightarrow> int" where
  "from_be_bytes bs = byte_at bs 0 * 256 + byte_at bs 1"

definition framed :: "bytes \<Rightarrow> bytes" where
  "framed message = to_be_bytes (int (length message)) @ message"

definition read_framed :: "incoming \<Rightarrow> bytes io_reply" where
  "read_framed s =
     io_bind (read_exact 2 s) (\<lambda>(len_buf, rest).
       (let reply_len = from_be_bytes len_buf
        in if reply_len > MAX_REPLY_SIZE then IoFailed io_error_new
           else io_bind (read_exact (nat reply_len) rest) (\<lambda>(reply, _). Ready reply)))"

definition exchange_tcp_framed :: "peer \<Rightarrow> bytes \<Rightarrow> bytes io_reply" where
  "exchange_tcp_framed stream query =
     (if int (length query) > 65535 then IoFailed io_error_new
      else
        (let f = framed query
         in io_bind (peer_write stream f) (\<lambda>_.
              io_bind (peer_flush stream f) (\<lambda>_. read_framed (peer_sends stream f)))))"

section \<open>DNS over HTTPS\<close>

definition CRLF :: bytes where
  "CRLF = [CHR 0x0D, CHR 0x0A]"

definition https_request :: "bytes \<Rightarrow> bytes \<Rightarrow> bytes \<Rightarrow> bytes" where
  "https_request host path query =
     ''POST '' @ path @ '' HTTP/1.1'' @ CRLF @
     ''Host: '' @ host @ CRLF @
     ''User-Agent: hole-bridge/dns-forwarder'' @ CRLF @
     ''Accept: application/dns-message'' @ CRLF @
     ''Content-Type: application/dns-message'' @ CRLF @
     ''Content-Length: '' @ show_radix 10 (int (length query)) @ CRLF @
     ''Connection: close'' @ CRLF @ CRLF @ query"

datatype http_error =
    NoSeparator
  | NonUtf8Head
  | MissingStatusCode
  | Non200 bytes
  | UnexpectedContentType bytes
  | MissingContentLength
  | HttpReplyTooLarge
  | ShortBody

fun find_double_crlf :: "bytes \<Rightarrow> nat option" where
  "find_double_crlf [] = None"
| "find_double_crlf (c # cs) =
     (if starts_with (c # cs) (CRLF @ CRLF) then Some 0 else map_option Suc (find_double_crlf cs))"

text \<open>\<^verbatim>\<open>split("\r\n")\<close>; the accumulator holds the current piece backwards.\<close>

fun split_crlf :: "bytes \<Rightarrow> bytes \<Rightarrow> bytes list" where
  "split_crlf acc [] = [rev acc]"
| "split_crlf acc [c] = [rev (c # acc)]"
| "split_crlf acc (c # d # cs) =
     (if c = CHR 0x0D \<and> d = CHR 0x0A then rev acc # split_crlf [] cs else split_crlf (c # acc) (d # cs))"

text \<open>The second of the parts of \<^verbatim>\<open>splitn(3, ' ')\<close>.\<close>

definition status_code :: "bytes \<Rightarrow> bytes option" where
  "status_code status_line =
     map_option (takeWhile (\<lambda>c. c \<noteq> CHR '' '')) (after_first '' '' status_line)"

definition split_colon :: "bytes \<Rightarrow> (bytes \<times> bytes) option" where
  "split_colon l = map_option (\<lambda>v. (takeWhile (\<lambda>c. c \<noteq> CHR '':'') l, v)) (after_first '':'' l)"

text \<open>The headers' fold: the last length and the last content type win; a length that does not parse unsets it.\<close>

definition header_step :: "bytes \<Rightarrow> int option \<times> bytes option \<Rightarrow> int option \<times> bytes option" where
  "header_step l acc =
     (case split_colon l of
        None \<Rightarrow> acc
      | Some (k, v) \<Rightarrow>
          (let key = to_ascii_lowercase (trim k)
           in if key = ''content-length'' then (parse_int False 0 18446744073709551615 (trim v), snd acc)
              else if key = ''content-type'' then (fst acc, Some (trim v))
              else acc))"

definition body_of :: "int option \<Rightarrow> bytes \<Rightarrow> (http_error, bytes) result" where
  "body_of content_length body =
     (case content_length of
        None \<Rightarrow> Err MissingContentLength
      | Some n \<Rightarrow>
          if n > MAX_REPLY_SIZE then Err HttpReplyTooLarge
          else if int (length body) < n then Err ShortBody
          else Ok (take (nat n) body))"

definition parse_http_dns_response :: "bytes \<Rightarrow> (http_error, bytes) result" where
  "parse_http_dns_response resp =
     (case find_double_crlf resp of
        None \<Rightarrow> Err NoSeparator
      | Some body_sep \<Rightarrow>
          (let head = take body_sep resp; body = drop (body_sep + 4) resp
           in case from_utf8 head of
                None \<Rightarrow> Err NonUtf8Head
              | Some head_str \<Rightarrow>
                  (let ls = split_crlf [] head_str; status_line = hd ls
                   in case status_code status_line of
                        None \<Rightarrow> Err MissingStatusCode
                      | Some code \<Rightarrow>
                          if code \<noteq> ''200'' then Err (Non200 status_line)
                          else
                            (let (content_length, content_type) = fold header_step (tl ls) (None, None)
                             in case content_type of
                                  Some ct \<Rightarrow>
                                    if \<not> eq_ignore_ascii_case ct ''application/dns-message''
                                    then Err (UnexpectedContentType ct) else body_of content_length body
                                | None \<Rightarrow> body_of content_length body))))"

section \<open>Lemmas\<close>

lemma of_char_byte_char: "0 \<le> n \<Longrightarrow> n < 256 \<Longrightarrow> (of_char (byte_char n) :: int) = n"
  by (simp add: byte_char_def of_char_of)

lemma io_bind_Ready: "io_bind m k = Ready y \<longleftrightarrow> (\<exists>x. m = Ready x \<and> k x = Ready y)"
  by (cases m) auto

lemma from_be_to_be: "0 \<le> n \<Longrightarrow> n < 65536 \<Longrightarrow> from_be_bytes (to_be_bytes n) = n"
  by (simp add: from_be_bytes_def to_be_bytes_def byte_at_def of_char_byte_char)

lemma length_to_be_bytes [simp]: "length (to_be_bytes n) = 2"
  by (simp add: to_be_bytes_def)

lemma read_exact_append [simp]:
  "length m = n \<Longrightarrow> read_exact n \<lparr>in_bytes = m @ s, in_end = e\<rparr> = Ready (m, \<lparr>in_bytes = s, in_end = e\<rparr>)"
  by (simp add: read_exact_def)

text \<open>A framed message is read back whatever follows it; one above the bound is refused.\<close>

lemma read_framed_framed:
  assumes "int (length m) < 65536"
  shows "read_framed \<lparr>in_bytes = framed m @ s, in_end = e\<rparr> =
           (if int (length m) \<le> MAX_REPLY_SIZE then Ready m else IoFailed io_error_new)"
  using assms from_be_to_be [of "int (length m)"]
    read_exact_append [of "to_be_bytes (int (length m))" 2 "m @ s" e]
  by (simp add: read_framed_def framed_def Let_def)

lemma read_framed_bound: "read_framed s = Ready m \<Longrightarrow> int (length m) \<le> MAX_REPLY_SIZE"
  by (auto simp: read_framed_def read_exact_def MAX_REPLY_SIZE_def Let_def io_bind_Ready split: if_splits stream_end.splits)

lemma exchange_bound: "exchange_tcp_framed p q = Ready m \<Longrightarrow> int (length m) \<le> MAX_REPLY_SIZE"
  by (auto simp: exchange_tcp_framed_def Let_def io_bind_Ready dest: read_framed_bound split: if_splits)

lemma body_of_Ok: "body_of n body = Ok m \<longleftrightarrow> (\<exists>k. n = Some k \<and> k \<le> MAX_REPLY_SIZE \<and> k \<le> int (length body) \<and> m = take (nat k) body)"
  by (auto simp: body_of_def split: option.splits)

lemma parse_http_bound: "parse_http_dns_response s = Ok m \<Longrightarrow> int (length m) \<le> MAX_REPLY_SIZE"
  by (auto simp: parse_http_dns_response_def Let_def body_of_Ok MAX_REPLY_SIZE_def
      split: option.splits if_splits prod.splits)

text \<open>A head of lines that are not empty and hold no carriage return is found and split as it was joined.\<close>

definition header_line :: "bytes \<Rightarrow> bool" where
  "header_line l \<longleftrightarrow> l \<noteq> [] \<and> CHR 0x0D \<notin> set l"

lemma crlf_start: "starts_with (c # cs) (CRLF @ t) \<Longrightarrow> c = CHR 0x0D"
  by (simp add: starts_with_def CRLF_def)

lemma find_skip_line:
  "CHR 0x0D \<notin> set l \<Longrightarrow> find_double_crlf (l @ s) = map_option (\<lambda>i. length l + i) (find_double_crlf s)"
proof (induction l)
  case (Cons c l)
  then have "\<not> starts_with (c # l @ s) (CRLF @ CRLF)" using crlf_start by force
  with Cons show ?case by (simp add: option.map_comp comp_def)
qed (cases "find_double_crlf s"; simp)

lemma find_skip_crlf:
  assumes "header_line l"
  shows "find_double_crlf (CRLF @ l @ s) = map_option (\<lambda>i. 2 + length l + i) (find_double_crlf s)"
proof -
  obtain c cs where l: "l = c # cs" "c \<noteq> CHR 0x0D" "CHR 0x0D \<notin> set cs" using assms by (cases l) (auto simp: header_line_def)
  have "\<not> starts_with (CHR 0x0D # CHR 0x0A # l @ s) (CRLF @ CRLF)" using l by (simp add: starts_with_def CRLF_def)
  moreover have "\<not> starts_with (CHR 0x0A # l @ s) (CRLF @ CRLF)" by (simp add: starts_with_def CRLF_def)
  moreover have "find_double_crlf (l @ s) = map_option (\<lambda>i. length l + i) (find_double_crlf s)"
    using assms find_skip_line by (simp add: header_line_def)
  ultimately show ?thesis by (simp add: CRLF_def option.map_comp comp_def)
qed

lemma find_head_end:
  "list_all header_line (l # ls) \<Longrightarrow>
     find_double_crlf (join_with CRLF (l # ls) @ CRLF @ CRLF @ s) = Some (length (join_with CRLF (l # ls)))"
proof -
  have tail: "list_all header_line ls \<Longrightarrow>
      find_double_crlf (concat (map (\<lambda>x. CRLF @ x) ls) @ CRLF @ CRLF @ s) = Some (length (concat (map (\<lambda>x. CRLF @ x) ls)))" for ls
  proof (induction ls)
    case Nil
    show ?case by (simp add: CRLF_def starts_with_def)
  next
    case (Cons x xs)
    then show ?case using find_skip_crlf [of x "concat (map (\<lambda>x. CRLF @ x) xs) @ CRLF @ CRLF @ s"] by (simp add: CRLF_def)
  qed
  have join: "join_with CRLF (l # ls) = l @ concat (map (\<lambda>x. CRLF @ x) ls)" for l ls
    by (induction ls arbitrary: l) simp_all
  assume "list_all header_line (l # ls)"
  with tail [of ls] show ?thesis by (simp add: join find_skip_line header_line_def)
qed

lemma split_crlf_line: "CHR 0x0D \<notin> set l \<Longrightarrow> split_crlf acc l = [rev acc @ l]"
proof (induction acc l rule: split_crlf.induct)
  case (3 acc c d cs)
  then show ?case by auto
qed simp_all

lemma split_crlf_skip: "CHR 0x0D \<notin> set l \<Longrightarrow> split_crlf acc (l @ CRLF @ s) = (rev acc @ l) # split_crlf [] s"
proof (induction l arbitrary: acc)
  case Nil
  show ?case by (cases s) (simp_all add: CRLF_def)
next
  case (Cons c l)
  show ?case
  proof (cases l)
    case Nil
    with Cons show ?thesis by (simp add: CRLF_def)
  next
    case (Cons d l')
    with Cons.prems Cons.IH [of "c # acc"] show ?thesis by auto
  qed
qed

lemma split_crlf_join: "list_all header_line (l # ls) \<Longrightarrow> split_crlf [] (join_with CRLF (l # ls)) = l # ls"
proof (induction ls arbitrary: l)
  case Nil
  then show ?case by (simp add: split_crlf_line header_line_def)
next
  case (Cons x xs)
  then show ?case using split_crlf_skip [of l "[]" "join_with CRLF (x # xs)"] by (simp add: header_line_def)
qed

lemma flag_byte_range: "0 \<le> (0x80 OR (x AND 0x79 :: int))" "(0x80 OR (x AND 0x79 :: int)) < 256"
proof -
  have "0 \<le> x AND 0x79" "x AND 0x79 \<le> 0x79" by (simp_all add: AND_upper2)
  then show "0 \<le> (0x80 OR (x AND 0x79 :: int))" "(0x80 OR (x AND 0x79 :: int)) < 256"
    using OR_upper [of "0x80" 8 "x AND 0x79"] by simp_all
qed

lemma servfail_header_shape:
  assumes "12 \<le> length q"
  shows "length (servfail_header q) = 12" "take 2 (servfail_header q) = take 2 q"
    "take 2 (drop 4 (servfail_header q)) = take 2 (drop 4 q)"
    "byte_at (servfail_header q) 2 = 0x80 OR (byte_at q 2 AND 0x79)" "byte_at (servfail_header q) 3 = 0x82"
    "drop 6 (servfail_header q) = replicate 6 (CHR 0x00)"
proof -
  have h: "servfail_header q = take 2 q @ [byte_char (0x80 OR (byte_at q 2 AND 0x79)), byte_char 0x82] @
      take 2 (drop 4 q) @ replicate 6 (CHR 0x00)"
    using assms by (simp add: servfail_header_def RCODE_SERVFAIL_def)
  show "length (servfail_header q) = 12" "take 2 (servfail_header q) = take 2 q"
    "take 2 (drop 4 (servfail_header q)) = take 2 (drop 4 q)"
    "drop 6 (servfail_header q) = replicate 6 (CHR 0x00)"
    unfolding h using assms by (simp_all add: min_def)
  show "byte_at (servfail_header q) 2 = 0x80 OR (byte_at q 2 AND 0x79)" "byte_at (servfail_header q) 3 = 0x82"
    unfolding h using assms flag_byte_range [of "byte_at q 2"]
    by (simp_all add: byte_at_def nth_append min_def of_char_byte_char)
qed

end
