(* ===== verification/Dns_Forwarder.thy ===== *)
theory Dns_Forwarder
  imports Dns_Wire Net_Addr
begin

text \<open>
  The DNS forwarder, crates/bridge/src/dns/forwarder.rs, with the provider table of
  crates/bridge/src/dns/providers.rs and \<^verbatim>\<open>DnsConfig\<close> of crates/common/src/config.rs.

  One attempt runs against \<open>attempt_net\<close>, what the connector and the peer answer to it: each
  awaited call is ready, has failed, or is outstanding when the budget fires. The network may
  answer an attempt by all the attempts before it, which \<open>fw_attempts\<close> records. Clocks are
  readings of the same record. The lines the forwarder logs are kept in \<open>fw_log\<close>, each with what it
  reports. The TLS configuration is not modelled: a handshake is one call of the peer.
\<close>

type_synonym u64 = "64 word"

section \<open>Configuration and providers\<close>

datatype dns_protocol = PlainUdp | PlainTcp | Tls | Https

record dns_config =
  dns_enabled :: bool
  dns_servers :: "ip_addr list"
  dns_protocol :: dns_protocol
  allow_insecure_bootstrap :: bool

fun is_ipv4 :: "ip_addr \<Rightarrow> bool" where
  "is_ipv4 (V4 a) = True"
| "is_ipv4 (V6 a) = False"

record known_provider =
  tls_dns_name :: bytes
  doh_url :: bytes

definition CLOUDFLARE :: known_provider where
  "CLOUDFLARE = \<lparr>tls_dns_name = ''cloudflare-dns.com'', doh_url = ''https://cloudflare-dns.com/dns-query''\<rparr>"

definition GOOGLE :: known_provider where
  "GOOGLE = \<lparr>tls_dns_name = ''dns.google'', doh_url = ''https://dns.google/dns-query''\<rparr>"

definition QUAD9 :: known_provider where
  "QUAD9 = \<lparr>tls_dns_name = ''dns.quad9.net'', doh_url = ''https://dns.quad9.net/dns-query''\<rparr>"

definition OPENDNS :: known_provider where
  "OPENDNS = \<lparr>tls_dns_name = ''dns.opendns.com'', doh_url = ''https://doh.opendns.com/dns-query''\<rparr>"

definition ADGUARD :: known_provider where
  "ADGUARD = \<lparr>tls_dns_name = ''dns.adguard-dns.com'', doh_url = ''https://dns.adguard-dns.com/dns-query''\<rparr>"

definition PROVIDER_TABLE :: "(bytes \<times> known_provider) list" where
  "PROVIDER_TABLE =
     [(''1.1.1.1'', CLOUDFLARE), (''1.0.0.1'', CLOUDFLARE),
      (''2606:4700:4700::1111'', CLOUDFLARE), (''2606:4700:4700::1001'', CLOUDFLARE),
      (''8.8.8.8'', GOOGLE), (''8.8.4.4'', GOOGLE),
      (''2001:4860:4860::8888'', GOOGLE), (''2001:4860:4860::8844'', GOOGLE),
      (''9.9.9.9'', QUAD9), (''149.112.112.112'', QUAD9), (''2620:fe::fe'', QUAD9), (''2620:fe::9'', QUAD9),
      (''208.67.222.222'', OPENDNS), (''208.67.220.220'', OPENDNS),
      (''94.140.14.14'', ADGUARD), (''94.140.15.15'', ADGUARD)]"

definition provider_lookup :: "ip_addr \<Rightarrow> known_provider option" where
  "provider_lookup ip = map_option snd (find (\<lambda>(addr, _). ip_addr_from_str addr = Some ip) PROVIDER_TABLE)"

section \<open>Layers, causes and errors\<close>

datatype upstream_layer = ConnectLayer | TlsLayer | HttpLayer | IoLayer | TimeoutLayer

datatype upstream_cause =
    CauseUnreachable
  | CauseCertificateRejected
  | CauseTlsFailed
  | CauseBadResponse
  | CauseIo
  | CauseConnectTimeout
  | CauseExchangeTimeout

fun cause_rank :: "upstream_cause \<Rightarrow> nat" where
  "cause_rank CauseCertificateRejected = 6"
| "cause_rank CauseTlsFailed = 5"
| "cause_rank CauseBadResponse = 4"
| "cause_rank CauseIo = 3"
| "cause_rank CauseExchangeTimeout = 2"
| "cause_rank CauseConnectTimeout = 1"
| "cause_rank CauseUnreachable = 0"

datatype forward_failure = MalformedQuery | NoUpstream | Upstream upstream_cause

text \<open>
  \<open>first_os_errno\<close> and \<open>first_rustls_error\<close> descend through the inner error of an \<^verbatim>\<open>io::Error\<close> and
  through the source of every other error.
\<close>

fun first_os_errno :: "error_node \<Rightarrow> int option" where
  "first_os_errno (IoError (Some errno) inner) = Some errno"
| "first_os_errno (IoError None inner) = (case inner of Some e \<Rightarrow> first_os_errno e | None \<Rightarrow> None)"
| "first_os_errno (RustlsError r src) = (case src of Some e \<Rightarrow> first_os_errno e | None \<Rightarrow> None)"
| "first_os_errno (OtherError src) = (case src of Some e \<Rightarrow> first_os_errno e | None \<Rightarrow> None)"

fun first_rustls_error :: "error_node \<Rightarrow> rustls_error option" where
  "first_rustls_error (RustlsError r src) = Some r"
| "first_rustls_error (IoError errno inner) = (case inner of Some e \<Rightarrow> first_rustls_error e | None \<Rightarrow> None)"
| "first_rustls_error (OtherError src) = (case src of Some e \<Rightarrow> first_rustls_error e | None \<Rightarrow> None)"

fun is_trust_chain_rejection :: "rustls_error \<Rightarrow> bool" where
  "is_trust_chain_rejection (InvalidCertificate c) \<longleftrightarrow>
     c \<in> {UnknownIssuer, CertBadSignature, Revoked, UnknownRevocationStatus}"
| "is_trust_chain_rejection (InvalidCertRevocationList c) \<longleftrightarrow> c = CrlBadSignature"
| "is_trust_chain_rejection OtherRustlsError \<longleftrightarrow> False"

record upstream_err =
  ue_layer :: upstream_layer
  ue_source :: error_node
  ue_elapsed_ms :: u64
  ue_budget_ms :: u64
  ue_socks5_ms :: "u64 option"
  ue_tls_ms :: "u64 option"
  ue_tcp_wrote :: "u64 option"
  ue_tcp_read :: "u64 option"
  ue_udp_sent :: "u64 option"
  ue_udp_received :: "u64 option"
  ue_os_errno :: "int option"
  ue_decorated :: bool

definition upstream_err_new :: "upstream_layer \<Rightarrow> error_node \<Rightarrow> upstream_err" where
  "upstream_err_new layer source =
     \<lparr>ue_layer = layer, ue_source = source, ue_elapsed_ms = 0, ue_budget_ms = 0, ue_socks5_ms = None,
      ue_tls_ms = None, ue_tcp_wrote = None, ue_tcp_read = None, ue_udp_sent = None,
      ue_udp_received = None, ue_os_errno = first_os_errno source, ue_decorated = False\<rparr>"

definition cause :: "upstream_err \<Rightarrow> upstream_cause" where
  "cause e =
     (case ue_layer e of
        ConnectLayer \<Rightarrow> CauseUnreachable
      | TimeoutLayer \<Rightarrow>
          if ue_socks5_ms e \<noteq> None \<or> ue_udp_sent e \<noteq> None then CauseExchangeTimeout else CauseConnectTimeout
      | HttpLayer \<Rightarrow> CauseBadResponse
      | IoLayer \<Rightarrow> CauseIo
      | TlsLayer \<Rightarrow>
          (case first_rustls_error (ue_source e) of
             Some r \<Rightarrow> if is_trust_chain_rejection r then CauseCertificateRejected else CauseTlsFailed
           | None \<Rightarrow> CauseTlsFailed))"

section \<open>One attempt\<close>

datatype server_name = DnsName bytes | IpAddressName ip_addr

text \<open>
  What one attempt meets. \<open>an_sni_ok\<close> is \<^verbatim>\<open>ServerName::try_from\<close> of rustls; \<open>an_read\<close> and
  \<open>an_written\<close> are the transport's byte counters when they are read, after the attempt.
\<close>

record attempt_net =
  an_sni_ok :: "bytes \<Rightarrow> bool"
  an_connect :: "unit io_reply"
  an_socks5_ms :: u64
  an_tls :: "server_name \<Rightarrow> unit io_reply"
  an_tls_ms :: u64
  an_tls_so_far :: u64
  an_peer :: peer
  an_send :: "bytes \<Rightarrow> unit io_reply"
  an_recv :: "bytes \<Rightarrow> bytes io_reply"
  an_read :: u64
  an_written :: u64
  an_elapsed_ms :: u64
  an_logged_at :: int

record attempt_state =
  as_socks5_ms :: "u64 option"
  as_tls_started :: bool
  as_tls_ms :: "u64 option"
  as_stream :: "(u64 \<times> u64) option"
  as_datagram :: "(u64 \<times> u64) option"

definition probe_default :: attempt_state where
  "probe_default =
     \<lparr>as_socks5_ms = None, as_tls_started = False, as_tls_ms = None, as_stream = None, as_datagram = None\<rparr>"

text \<open>The counter handles are shared with the transport: what they are read as is already known here.\<close>

definition probe_connected :: "attempt_net \<Rightarrow> attempt_state \<Rightarrow> attempt_state" where
  "probe_connected N p = p\<lparr>as_socks5_ms := Some (an_socks5_ms N), as_stream := Some (an_read N, an_written N)\<rparr>"

definition probe_associated :: "attempt_net \<Rightarrow> attempt_state \<Rightarrow> attempt_state" where
  "probe_associated N p = p\<lparr>as_datagram := Some (an_read N, an_written N)\<rparr>"

definition probe_bytes :: "attempt_state \<Rightarrow> u64 \<times> u64" where
  "probe_bytes p =
     (let (sr, sw) = (case as_stream p of Some c \<Rightarrow> c | None \<Rightarrow> (0, 0));
          (dr, dw) = (case as_datagram p of Some c \<Rightarrow> c | None \<Rightarrow> (0, 0))
      in (sr + dr, sw + dw))"

definition probe_apply :: "attempt_net \<Rightarrow> attempt_state \<Rightarrow> upstream_err \<Rightarrow> upstream_err" where
  "probe_apply N p e =
     (let e1 = e\<lparr>ue_decorated := True, ue_socks5_ms := as_socks5_ms p,
                 ue_tls_ms := (case as_tls_ms p of
                                 Some t \<Rightarrow> Some t
                               | None \<Rightarrow> if as_tls_started p then Some (an_tls_so_far N) else None)\<rparr>;
          e2 = (case as_stream p of
                  Some (r, w) \<Rightarrow> e1\<lparr>ue_tcp_read := Some r, ue_tcp_wrote := Some w\<rparr>
                | None \<Rightarrow> e1)
      in case as_datagram p of
           Some (r, w) \<Rightarrow> e2\<lparr>ue_udp_sent := Some w, ue_udp_received := Some r\<rparr>
         | None \<Rightarrow> e2)"

text \<open>
  A transport's future: what it has published when it ends, and its result, \<open>None\<close> when it is
  still waiting as the budget fires.
\<close>

type_synonym attempt = "attempt_state \<times> (upstream_err, bytes) result option"

fun awaiting :: "upstream_layer \<Rightarrow> 'a io_reply \<Rightarrow> attempt_state \<Rightarrow> ('a \<Rightarrow> attempt) \<Rightarrow> attempt" where
  "awaiting layer (Ready x) p k = k x"
| "awaiting layer (IoFailed e) p k = (p, Some (Err (upstream_err_new layer e)))"
| "awaiting layer Outstanding p k = (p, None)"

definition forward_udp :: "attempt_net \<Rightarrow> bytes \<Rightarrow> attempt_state \<Rightarrow> attempt" where
  "forward_udp N query p =
     awaiting ConnectLayer (an_connect N) p (\<lambda>_.
       (let p = probe_associated N p
        in awaiting IoLayer (an_send N query) p (\<lambda>_.
             awaiting IoLayer (an_recv N query) p (\<lambda>datagram.
               (p, Some (Ok (take (nat MAX_REPLY_SIZE) datagram)))))))"

definition forward_tcp :: "attempt_net \<Rightarrow> bytes \<Rightarrow> attempt_state \<Rightarrow> attempt" where
  "forward_tcp N query p =
     awaiting ConnectLayer (an_connect N) p (\<lambda>_.
       (let p = probe_connected N p
        in awaiting IoLayer (exchange_tcp_framed (an_peer N) query) p (\<lambda>reply. (p, Some (Ok reply)))))"

definition tls_server_name_for :: "attempt_net \<Rightarrow> ip_addr \<Rightarrow> (error_node, server_name) result" where
  "tls_server_name_for N server =
     (case provider_lookup server of
        Some p \<Rightarrow> if an_sni_ok N (tls_dns_name p) then Ok (DnsName (tls_dns_name p)) else Err io_error_new
      | None \<Rightarrow> Ok (IpAddressName server))"

definition split_https_url :: "bytes \<Rightarrow> (error_node, bytes \<times> bytes) result" where
  "split_https_url url =
     (if starts_with url ''https://'' then
        (let rest = drop 8 url
         in case after_first ''/'' rest of
              Some p \<Rightarrow> Ok (takeWhile (\<lambda>c. c \<noteq> CHR ''/'') rest, CHR ''/'' # p)
            | None \<Rightarrow> Ok (rest, ''/''))
      else Err io_error_new)"

definition https_target_for :: "attempt_net \<Rightarrow> ip_addr \<Rightarrow> (error_node, server_name \<times> bytes \<times> bytes) result" where
  "https_target_for N server =
     (case provider_lookup server of
        Some p \<Rightarrow>
          (case split_https_url (doh_url p) of
             Err e \<Rightarrow> Err e
           | Ok (host, path) \<Rightarrow>
               if an_sni_ok N host then Ok (DnsName host, host, path) else Err io_error_new)
      | None \<Rightarrow>
          (let host = (case server of V4 v4 \<Rightarrow> display_v4 v4 | V6 v6 \<Rightarrow> ''['' @ display_v6 v6 @ '']'')
           in Ok (IpAddressName server, host, ''/dns-query'')))"

definition forward_tls :: "attempt_net \<Rightarrow> ip_addr \<Rightarrow> bytes \<Rightarrow> attempt_state \<Rightarrow> attempt" where
  "forward_tls N ip query p =
     awaiting ConnectLayer (an_connect N) p (\<lambda>_.
       (let p = probe_connected N p
        in case tls_server_name_for N ip of
             Err e \<Rightarrow> (p, Some (Err (upstream_err_new TlsLayer e)))
           | Ok name \<Rightarrow>
               (let p = p\<lparr>as_tls_started := True\<rparr>
                in awaiting TlsLayer (an_tls N name) p (\<lambda>_.
                     (let p = p\<lparr>as_tls_ms := Some (an_tls_ms N)\<rparr>
                      in awaiting IoLayer (exchange_tcp_framed (an_peer N) query) p (\<lambda>reply. (p, Some (Ok reply))))))))"

definition forward_https :: "attempt_net \<Rightarrow> ip_addr \<Rightarrow> bytes \<Rightarrow> attempt_state \<Rightarrow> attempt" where
  "forward_https N ip query p =
     (case https_target_for N ip of
        Err e \<Rightarrow> (p, Some (Err (upstream_err_new HttpLayer e)))
      | Ok (name, host, path) \<Rightarrow>
          awaiting ConnectLayer (an_connect N) p (\<lambda>_.
            (let p = (probe_connected N p)\<lparr>as_tls_started := True\<rparr>
             in awaiting TlsLayer (an_tls N name) p (\<lambda>_.
                  (let p = p\<lparr>as_tls_ms := Some (an_tls_ms N)\<rparr>;
                       req = https_request host path query
                   in awaiting IoLayer (peer_write (an_peer N) req) p (\<lambda>_.
                        awaiting IoLayer (peer_flush (an_peer N) req) p (\<lambda>_.
                          awaiting IoLayer (read_to_end (MAX_REPLY_SIZE * 4) (peer_sends (an_peer N) req)) p (\<lambda>resp.
                            (p, Some (case parse_http_dns_response resp of
                                        Ok reply \<Rightarrow> Ok reply
                                      | Err _ \<Rightarrow> Err (upstream_err_new HttpLayer io_error_new)))))))))))"

definition run_transport :: "dns_protocol \<Rightarrow> attempt_net \<Rightarrow> ip_addr \<Rightarrow> bytes \<Rightarrow> attempt" where
  "run_transport protocol N ip query =
     (case protocol of
        PlainUdp \<Rightarrow> forward_udp N query probe_default
      | PlainTcp \<Rightarrow> forward_tcp N query probe_default
      | Tls \<Rightarrow> forward_tls N ip query probe_default
      | Https \<Rightarrow> forward_https N ip query probe_default)"

section \<open>The log throttle\<close>

definition LOG_FULL_LIMIT :: u32 where
  "LOG_FULL_LIMIT = 3"

text \<open>Instants and durations are counted in nanoseconds.\<close>

definition SUMMARY_INTERVAL :: int where
  "SUMMARY_INTERVAL = 60 * 1000000000"

record throttle_state =
  ts_logged :: u32
  ts_suppressed :: u32
  ts_first_at :: int
  ts_last_summary_at :: int

datatype throttle_decision = LogFull | Suppress | SuppressAndSummary u32 int

definition throttle_new :: "int \<Rightarrow> throttle_state" where
  "throttle_new now = \<lparr>ts_logged = 0, ts_suppressed = 0, ts_first_at = now, ts_last_summary_at = now\<rparr>"

definition duration_since :: "int \<Rightarrow> int \<Rightarrow> int" where
  "duration_since now earlier = max 0 (now - earlier)"

definition throttle :: "int \<Rightarrow> throttle_state \<Rightarrow> throttle_state \<times> throttle_decision" where
  "throttle now st =
     (if ts_logged st < LOG_FULL_LIMIT then (st\<lparr>ts_logged := ts_logged st + 1\<rparr>, LogFull)
      else
        (let st = st\<lparr>ts_suppressed := ts_suppressed st + 1\<rparr>
         in if duration_since now (ts_last_summary_at st) \<ge> SUMMARY_INTERVAL
            then (st\<lparr>ts_suppressed := 0, ts_last_summary_at := now\<rparr>,
                  SuppressAndSummary (ts_suppressed st) (duration_since now (ts_first_at st)))
            else (st, Suppress)))"

section \<open>The forwarder\<close>

datatype log_line =
    ShortQueryLine nat
  | SkippingIpv6Line ip_addr dns_protocol
  | UpstreamFailedLine ip_addr dns_protocol upstream_err
  | UpstreamSummaryLine ip_addr dns_protocol u32 int

record forwarder =
  fw_config :: dns_config
  fw_ipv6_bypass :: bool
  fw_throttle :: "ip_addr \<rightharpoonup> throttle_state"
  fw_skip_logged :: "ip_addr set"
  fw_read :: u64
  fw_written :: u64
  fw_connects :: u64
  fw_associates :: u64
  fw_connect_timeouts :: u64
  fw_attempts :: "socket_addr list"
  fw_log :: "log_line list"

definition forwarder_new :: "dns_config \<Rightarrow> bool \<Rightarrow> forwarder" where
  "forwarder_new config ipv6_bypass_available =
     \<lparr>fw_config = config, fw_ipv6_bypass = ipv6_bypass_available, fw_throttle = Map.empty,
      fw_skip_logged = {}, fw_read = 0, fw_written = 0, fw_connects = 0, fw_associates = 0,
      fw_connect_timeouts = 0, fw_attempts = [], fw_log = []\<rparr>"

text \<open>The network: what the next attempt meets, by the attempts so far, its target, its query and its budget.\<close>

type_synonym network = "socket_addr list \<Rightarrow> socket_addr \<Rightarrow> bytes \<Rightarrow> int \<Rightarrow> attempt_net"

definition as_millis :: "int \<Rightarrow> u64" where
  "as_millis d = word_of_int (d div 1000000)"

record upstream_activity =
  ua_read :: u64
  ua_written :: u64
  ua_connects :: u64
  ua_associates :: u64
  ua_connect_timeouts :: u64

definition activity :: "forwarder \<Rightarrow> upstream_activity" where
  "activity fw =
     \<lparr>ua_read = fw_read fw, ua_written = fw_written fw, ua_connects = fw_connects fw,
      ua_associates = fw_associates fw, ua_connect_timeouts = fw_connect_timeouts fw\<rparr>"

definition saturating_sub :: "u64 \<Rightarrow> u64 \<Rightarrow> u64" where
  "saturating_sub a b = (if b \<le> a then a - b else 0)"

definition since :: "upstream_activity \<Rightarrow> upstream_activity \<Rightarrow> upstream_activity" where
  "since later earlier =
     \<lparr>ua_read = saturating_sub (ua_read later) (ua_read earlier),
      ua_written = saturating_sub (ua_written later) (ua_written earlier),
      ua_connects = saturating_sub (ua_connects later) (ua_connects earlier),
      ua_associates = saturating_sub (ua_associates later) (ua_associates earlier),
      ua_connect_timeouts = saturating_sub (ua_connect_timeouts later) (ua_connect_timeouts earlier)\<rparr>"

fun default_port :: "dns_protocol \<Rightarrow> u16" where
  "default_port PlainUdp = 53"
| "default_port PlainTcp = 53"
| "default_port Tls = 853"
| "default_port Https = 443"

definition target_for :: "dns_protocol \<Rightarrow> ip_addr \<Rightarrow> socket_addr" where
  "target_for protocol server = \<lparr>sa_ip = server, sa_port = default_port protocol\<rparr>"

definition forward_one ::
  "network \<Rightarrow> socket_addr \<Rightarrow> bytes \<Rightarrow> int \<Rightarrow> forwarder \<Rightarrow> (upstream_err, bytes) result \<times> forwarder" where
  "forward_one net target query budget fw =
     (let N = net (fw_attempts fw) target query budget;
          (probe, out) = run_transport (dns_protocol (fw_config fw)) N (sa_ip target) query;
          result = (case out of Some r \<Rightarrow> r | None \<Rightarrow> Err (upstream_err_new TimeoutLayer io_error_new));
          (read, written) = probe_bytes probe;
          fw = fw\<lparr>fw_attempts := fw_attempts fw @ [target],
                  fw_read := fw_read fw + read,
                  fw_written := fw_written fw + written,
                  fw_connects := fw_connects fw + of_bool (as_stream probe \<noteq> None),
                  fw_associates := fw_associates fw + of_bool (as_datagram probe \<noteq> None)\<rparr>
      in case result of
           Ok reply \<Rightarrow> (Ok reply, fw)
         | Err e \<Rightarrow>
             (let e = probe_apply N probe (e\<lparr>ue_elapsed_ms := an_elapsed_ms N, ue_budget_ms := as_millis budget\<rparr>)
              in (Err e,
                  if cause e = CauseConnectTimeout
                  then fw\<lparr>fw_connect_timeouts := fw_connect_timeouts fw + 1\<rparr> else fw)))"

definition log_ipv6_skip_once :: "ip_addr \<Rightarrow> forwarder \<Rightarrow> forwarder" where
  "log_ipv6_skip_once server fw =
     (if server \<in> fw_skip_logged fw then fw
      else fw\<lparr>fw_skip_logged := insert server (fw_skip_logged fw),
              fw_log := fw_log fw @ [SkippingIpv6Line server (dns_protocol (fw_config fw))]\<rparr>)"

definition log_upstream_failure :: "int \<Rightarrow> ip_addr \<Rightarrow> upstream_err \<Rightarrow> forwarder \<Rightarrow> forwarder" where
  "log_upstream_failure now server e fw =
     (let st = (case fw_throttle fw server of Some st \<Rightarrow> st | None \<Rightarrow> throttle_new now);
          (st', decision) = throttle now st;
          fw = fw\<lparr>fw_throttle := (fw_throttle fw)(server \<mapsto> st')\<rparr>;
          protocol = dns_protocol (fw_config fw)
      in case decision of
           LogFull \<Rightarrow> fw\<lparr>fw_log := fw_log fw @ [UpstreamFailedLine server protocol e]\<rparr>
         | Suppress \<Rightarrow> fw
         | SuppressAndSummary count window \<Rightarrow>
             fw\<lparr>fw_log := fw_log fw @ [UpstreamSummaryLine server protocol count (window div 1000000000)]\<rparr>)"

fun fold_cause :: "upstream_cause option \<Rightarrow> upstream_cause \<Rightarrow> upstream_cause option" where
  "fold_cause None c = Some c"
| "fold_cause (Some w) c = (if cause_rank c > cause_rank w then Some c else Some w)"

definition skips :: "forwarder \<Rightarrow> ip_addr \<Rightarrow> bool" where
  "skips fw server \<longleftrightarrow> \<not> is_ipv4 server \<and> \<not> fw_ipv6_bypass fw"

fun walk_servers ::
  "network \<Rightarrow> bytes \<Rightarrow> int \<Rightarrow> ip_addr list \<Rightarrow> upstream_cause option \<Rightarrow> forwarder \<Rightarrow>
     (forward_failure, bytes) result \<times> forwarder" where
  "walk_servers net query budget [] worst fw =
     (Err (case worst of Some c \<Rightarrow> Upstream c | None \<Rightarrow> NoUpstream), fw)"
| "walk_servers net query budget (server # rest) worst fw =
     (if skips fw server then walk_servers net query budget rest worst (log_ipv6_skip_once server fw)
      else
        (let target = target_for (dns_protocol (fw_config fw)) server;
             now = an_logged_at (net (fw_attempts fw) target query budget)
         in case forward_one net target query budget fw of
              (Ok reply, fw) \<Rightarrow> (Ok reply, fw)
            | (Err e, fw) \<Rightarrow>
                walk_servers net query budget rest (fold_cause worst (cause e)) (log_upstream_failure now server e fw)))"

definition try_forward ::
  "network \<Rightarrow> bytes \<Rightarrow> int \<Rightarrow> forwarder \<Rightarrow> (forward_failure, bytes) result \<times> forwarder" where
  "try_forward net query per_upstream fw =
     (if length query < 12
      then (Err MalformedQuery, fw\<lparr>fw_log := fw_log fw @ [ShortQueryLine (length query)]\<rparr>)
      else walk_servers net query per_upstream (dns_servers (fw_config fw)) None fw)"

definition TUNNEL_QUERY_TIMEOUT :: int where
  "TUNNEL_QUERY_TIMEOUT = 10 * 1000000000"

definition DIRECT_UPSTREAM_TIMEOUT :: int where
  "DIRECT_UPSTREAM_TIMEOUT = 3 * 1000000000"

text \<open>\<open>None\<close> is a panic.\<close>

definition forward :: "network \<Rightarrow> bytes \<Rightarrow> forwarder \<Rightarrow> bytes option \<times> forwarder" where
  "forward net query fw =
     (if length query < 12 then (synthesize_servfail query, fw)
      else case try_forward net query TUNNEL_QUERY_TIMEOUT fw of
             (Ok reply, fw) \<Rightarrow> (Some reply, fw)
           | (Err _, fw) \<Rightarrow> (synthesize_servfail query, fw))"

end
