(* ===== verification/Proxy_Manager.thy ===== *)
theory Proxy_Manager
  imports Reconciler Filter_Engine Plugin_Directives Dns_Forwarder
begin

text \<open>
  The bridge's proxy manager (crates/bridge/src/proxy\_manager.rs), with the resolver pinning it
  uses (crates/bridge/src/dns/ech.rs) and the stop phases (crates/bridge/src/service\_stop.rs).

  The manager is generic over its proxy, routing and DNS providers: every call it makes
  through them, and every guard it drops or disarms, is an \<open>action\<close> on the trace \<open>pm_trace\<close>, in
  order, and \<open>pm_env\<close> answers each call. An answer may depend on everything that happened
  before it (the trace), so that a call may fail once and succeed later. \<open>e_cancelled\<close> is the
  cancellation token at that point; an awaited call that observes the token may answer
  \<^verbatim>\<open>Cancelled\<close> itself. \<open>e_meanwhile\<close> is what other writers did to the state directory while
  \<^verbatim>\<open>start_inner\<close> ran (the escape of the tray takes no lock).

  Parameters not modelled here: the bootstrap resolution, the effective ECH directive of the
  plugin options, the forwarder self-test and the shadowsocks configuration, each an answer of
  \<open>pm_env\<close>. Logging, redaction arming and diagnostics snapshots are left out, as are the
  device's identity, the app ids and the traffic window (they decide nothing here).
\<close>

section \<open>Configuration\<close>

datatype tunnel_mode = Full | SocksOnly

record server_entry =
  se_id :: string
  se_name :: string
  se_server :: string
  se_port :: u16
  se_method :: string
  se_password :: string
  se_plugin :: "string option"
  se_plugin_opts :: "string option"
  se_validation :: "string option"

record proxy_config =
  pc_server :: server_entry
  pc_local_port :: u16
  pc_tunnel_mode :: tunnel_mode
  pc_filters :: "filter_rule list"
  pc_dns :: dns_config
  pc_proxy_socks5 :: bool
  pc_proxy_http :: bool
  pc_local_port_http :: u16
  pc_diagnostic_plugin_tap :: bool

section \<open>Resolver pinning (dns/ech.rs)\<close>

definition first_resolver :: "ip_addr list \<Rightarrow> ip_addr option" where
  "first_resolver servers =
     (case find is_ipv4 servers of
        Some ip \<Rightarrow> Some ip
      | None \<Rightarrow> (case servers of ip # _ \<Rightarrow> Some ip | [] \<Rightarrow> None))"

definition ech_doh_url :: "dns_config \<Rightarrow> pin_source \<Rightarrow> ech_doh option" where
  "ech_doh_url dns source =
     map_option (\<lambda>ip. \<lparr>ech_url = doh_url_for_ip ip, ech_resolver = ip, ech_source = source\<rparr>)
       (case verified_ip source of Some ip \<Rightarrow> Some ip | None \<Rightarrow> first_resolver (dns_servers dns))"

fun revalidate :: "pin_source \<Rightarrow> ip_addr list \<Rightarrow> pin_source" where
  "revalidate (Answered ip) servers = (if ip \<notin> set servers then ResolverDeselected else Answered ip)"
| "revalidate NoQueryNeeded servers = NoQueryNeeded"
| "revalidate SecureBootstrapFailed servers = SecureBootstrapFailed"
| "revalidate ResolverDeselected servers = ResolverDeselected"

section \<open>Errors, phases and actions\<close>

datatype proxy_error =
    AlreadyRunning
  | Cancelled
  | LockdownIntentNotPersisted
  | Runtime string
  | RoutingFailed string
  | DnsConfinementFailed
  | MalformedPluginOptions
  | NetworkBlocked
  | OtherProxyError string

datatype last_error = FromError proxy_error | DeathReason

datatype stop_phase =
    StopRequested | AcquireProxy | PersistTarget | RestoreDns | StopEngine | ReapPlugins
  | StopProxy | TearDownRoutes | SettleCover | CloseEtw | DropResources | ShutdownRuntime

fun checkpoint :: "stop_phase \<Rightarrow> nat" where
  "checkpoint StopRequested = 1"
| "checkpoint AcquireProxy = 2"
| "checkpoint PersistTarget = 3"
| "checkpoint RestoreDns = 4"
| "checkpoint StopEngine = 5"
| "checkpoint ReapPlugins = 6"
| "checkpoint StopProxy = 7"
| "checkpoint TearDownRoutes = 8"
| "checkpoint SettleCover = 9"
| "checkpoint CloseEtw = 10"
| "checkpoint DropResources = 11"
| "checkpoint ShutdownRuntime = 12"

datatype action =
    EnterPhase stop_phase
  | InstallFailclosed ip_addr "ip_addr option" bool
  | DropTransient
  | DisarmTransient
  | InstallLockdown bool
  | DropLockdown
  | DisarmLockdown
  | ReleaseAllCovers bool
  | StartPlugins "bytes option" bool
  | KillPlugins
  | DropPlugins
  | StartProxy bool
  | StopProxyTask
  | DropProxy
  | NewDispatcher bool
  | ShutdownDispatcher
  | SwapRules
  | InstallRoutes bool
  | DropRoutes
  | ApplyDns bool
  | ShutdownDns

type_synonym trace = "action list"

datatype self_test = SelfTestOk | SelfTestCancelled | SelfTestFailed proxy_error

datatype dispatcher_start = DispatcherUp | DispatcherCancelled | DispatcherFailed proxy_error

datatype dns_error = DnsCancelled | DnsConfine | DnsIo string

record pm_env =
  e_display :: "proxy_error \<Rightarrow> string"
  e_lockdown_codec :: "lockdown_state codec"
  e_target_codec :: "proxy_config target_file codec"
  e_fs :: "trace \<Rightarrow> fs_env"
  e_cancelled :: "trace \<Rightarrow> bool"
  e_meanwhile :: "world \<Rightarrow> world"
  e_presence :: "trace \<Rightarrow> cover_presence"
  e_resolve :: "trace \<Rightarrow> proxy_config \<Rightarrow> (proxy_error, ip_addr \<times> pin_source) result"
  e_url_host :: url_host
  e_failclosed :: "trace \<Rightarrow> ip_addr \<Rightarrow> ip_addr option \<Rightarrow> proxy_error option"
  e_plugins :: "trace \<Rightarrow> proxy_config \<Rightarrow> bytes option \<Rightarrow> (proxy_error, bool) result"
  e_ss_config :: "proxy_config \<Rightarrow> ip_addr \<Rightarrow> proxy_error option"
  e_gateway :: "trace \<Rightarrow> ip_addr \<Rightarrow> (proxy_error, bool) result"
  e_start_proxy :: "trace \<Rightarrow> proxy_config \<Rightarrow> proxy_error option"
  e_local_dns :: "trace \<Rightarrow> proxy_config \<Rightarrow> (proxy_error, bool) result"
  e_self_test :: "trace \<Rightarrow> bool \<Rightarrow> self_test"
  e_dispatcher :: "trace \<Rightarrow> dispatcher_start"
  e_install_routes :: "trace \<Rightarrow> proxy_error option"
  e_install_lockdown :: "trace \<Rightarrow> proxy_error option"
  e_apply_dns :: "trace \<Rightarrow> dns_error option"
  e_release_all :: "trace \<Rightarrow> proxy_error option"
  e_stop_proxy :: "trace \<Rightarrow> proxy_error option"
  e_proxy_alive :: "trace \<Rightarrow> bool"
  e_plugins_alive :: "trace \<Rightarrow> bool"

section \<open>State\<close>

record blocked_start =
  bs_host :: string
  bs_server_ip :: ip_addr
  bs_pin :: pin_source
  bs_resolver_permit :: "ip_addr option"

record running_state =
  rs_dns :: bool
  rs_dispatcher :: "filter_rule list option"
  rs_plugin_chain :: bool
  rs_routes :: bool
  rs_lockdown :: bool
  rs_udp :: bool
  rs_ipv6 :: bool

datatype posture = Idle | PendingStart blocked_start | Session running_state

record pm =
  pm_posture :: posture
  pm_last_error :: "last_error option"
  pm_death_reason :: bool
  pm_active_config :: "proxy_config option"
  pm_udp :: bool
  pm_ipv6 :: bool
  pm_has_state_dir :: bool
  pm_adopted :: bool
  pm_invalidated :: bool
  pm_dir :: world
  pm_trace :: trace

definition new_with_dns :: "bool \<Rightarrow> world \<Rightarrow> pm" where
  "new_with_dns has_dir w =
     \<lparr>pm_posture = Idle, pm_last_error = None, pm_death_reason = False, pm_active_config = None,
      pm_udp = True, pm_ipv6 = True, pm_has_state_dir = has_dir, pm_adopted = False,
      pm_invalidated = False, pm_dir = w, pm_trace = []\<rparr>"

definition act :: "action \<Rightarrow> pm \<Rightarrow> pm" where
  "act a s = s\<lparr>pm_trace := pm_trace s @ [a]\<rparr>"

fun posture_session :: "posture \<Rightarrow> running_state option" where
  "posture_session (Session r) = Some r"
| "posture_session Idle = None"
| "posture_session (PendingStart b) = None"

fun posture_pending :: "posture \<Rightarrow> blocked_start option" where
  "posture_pending (PendingStart b) = Some b"
| "posture_pending Idle = None"
| "posture_pending (Session r) = None"

text \<open>\<^verbatim>\<open>take_pending\<close> whose result is dropped: the guard's destructor disengages the cover.\<close>

definition take_pending :: "pm \<Rightarrow> pm" where
  "take_pending s =
     (case posture_pending (pm_posture s) of
        Some b \<Rightarrow> act DropTransient (s\<lparr>pm_posture := Idle\<rparr>)
      | None \<Rightarrow> s)"

text \<open>
  \<^verbatim>\<open>hold_pending\<close> and \<^verbatim>\<open>commit_session\<close>; that they are reached with an idle posture (the
  \<^verbatim>\<open>debug_assert\<close>) is part of the invariant below: no guard is replaced while it is held.
\<close>

definition hold_pending :: "blocked_start \<Rightarrow> pm \<Rightarrow> pm" where
  "hold_pending b s = s\<lparr>pm_posture := PendingStart b\<rparr>"

definition commit_session :: "running_state \<Rightarrow> pm \<Rightarrow> pm" where
  "commit_session r s = s\<lparr>pm_posture := Session r\<rparr>"

datatype proxy_state = Stopped | Running

definition pm_state :: "pm \<Rightarrow> proxy_state" where
  "pm_state s = (if posture_session (pm_posture s) \<noteq> None then Running else Stopped)"

definition blocked_until_connected :: "pm \<Rightarrow> bool" where
  "blocked_until_connected s = (posture_pending (pm_posture s) \<noteq> None)"

section \<open>The lockdown intent, seen by the manager\<close>

text \<open>\<open>load_intent\<close> cannot panic (its schema is linked), so the default is never used.\<close>

definition pm_intent :: "pm_env \<Rightarrow> pm \<Rightarrow> intent option" where
  "pm_intent E s =
     (if pm_has_state_dir s
      then Some (case load_intent (e_lockdown_codec E) (e_fs E (pm_trace s)) (pm_dir s) of
                   Some i \<Rightarrow> i | None \<Rightarrow> IntentUnreadable)
      else None)"

definition lockdown_enabled :: "pm_env \<Rightarrow> pm \<Rightarrow> bool" where
  "lockdown_enabled E s =
     (case pm_intent E s of
        None \<Rightarrow> pm_adopted s
      | Some i \<Rightarrow> i \<noteq> IntentOff \<and> (pm_adopted s \<or> reads_armed i))"

definition standing_cover_expected :: "pm_env \<Rightarrow> pm \<Rightarrow> bool" where
  "standing_cover_expected E s =
     (case pm_intent E s of
        None \<Rightarrow> pm_adopted s
      | Some i \<Rightarrow> i \<noteq> IntentOff \<and> (pm_adopted s \<or> installs_standing_cover i))"

definition effective_lockdown_intent :: "pm_env \<Rightarrow> pm \<Rightarrow> intent" where
  "effective_lockdown_intent E s =
     (let i = (case pm_intent E s of Some i \<Rightarrow> i | None \<Rightarrow> IntentUnset)
      in if i \<noteq> IntentOff \<and> pm_adopted s then IntentOn else i)"

definition set_standing_cover_adopted :: "bool \<Rightarrow> pm \<Rightarrow> pm" where
  "set_standing_cover_adopted b s = s\<lparr>pm_adopted := b\<rparr>"

definition set_lockdown_intent :: "pm_env \<Rightarrow> bool \<Rightarrow> pm \<Rightarrow> pm \<times> proxy_error option" where
  "set_lockdown_intent E enabled s =
     (if \<not> pm_has_state_dir s then (s, Some (Runtime ''no state_dir''))
      else case set_enabled (e_lockdown_codec E) (e_fs E (pm_trace s)) enabled (pm_dir s) of
          (w, UOk _ _) \<Rightarrow> (s\<lparr>pm_dir := w\<rparr>, None)
        | (w, _) \<Rightarrow> (s\<lparr>pm_dir := w\<rparr>, Some (Runtime ''lockdown persist'')))"

definition release_all_covers :: "pm_env \<Rightarrow> pm \<Rightarrow> pm \<times> proxy_error option" where
  "release_all_covers E s =
     (let r = e_release_all E (pm_trace s) in (act (ReleaseAllCovers (r = None)) s, r))"

definition turn_lockdown_off :: "pm_env \<Rightarrow> pm \<Rightarrow> pm \<times> proxy_error option" where
  "turn_lockdown_off E s =
     (case release_all_covers E (take_pending s) of
        (s1, Some e) \<Rightarrow> (s1, Some e)
      | (s1, None) \<Rightarrow>
          (case set_lockdown_intent E False (set_standing_cover_adopted False s1) of
             (s2, None) \<Rightarrow> (s2, None)
           | (s2, Some _) \<Rightarrow> (s2, Some LockdownIntentNotPersisted)))"

definition promote_adopted_claim :: "pm_env \<Rightarrow> pm \<Rightarrow> pm" where
  "promote_adopted_claim E s =
     (case pm_intent E s of
        None \<Rightarrow> s
      | Some IntentOn \<Rightarrow> s
      | Some IntentOff \<Rightarrow> s
      | Some _ \<Rightarrow> fst (set_lockdown_intent E True s))"

definition suppresses_reachability_probe :: "cover_presence \<Rightarrow> bool \<Rightarrow> bool \<Rightarrow> bool" where
  "suppresses_reachability_probe cover transient_pending standing_expected =
     (is_present cover \<or> transient_pending \<or> standing_expected)"

section \<open>Stopping\<close>

definition persist_session_event :: "pm_env \<Rightarrow> session_event \<Rightarrow> pm \<Rightarrow> pm \<times> proxy_config target" where
  "persist_session_event E ev s =
     (if \<not> pm_has_state_dir s then (s, target_after UnreadableTarget ev)
      else
        (let fs = e_fs E (pm_trace s)
         in case apply_target (e_target_codec E) fs (\<lambda>t. target_after t ev) (pm_dir s) of
              (w, UOk t _) \<Rightarrow> (s\<lparr>pm_dir := w\<rparr>, t)
            | (w, UErr _) \<Rightarrow>
                (s\<lparr>pm_dir := w\<rparr>,
                 case load_target (e_target_codec E) fs w of Some t \<Rightarrow> t | None \<Rightarrow> UnreadableTarget)
            | (w, UPanic) \<Rightarrow> (s\<lparr>pm_dir := w\<rparr>, UnreadableTarget)))"

definition apply_cover_disposition :: "pm_env \<Rightarrow> cover_disposition \<Rightarrow> bool \<Rightarrow> pm \<Rightarrow> pm" where
  "apply_cover_disposition E disposition cover s =
     (case disposition of
        ReleaseNow \<Rightarrow>
          (let (s1, r) = release_all_covers E s;
               s2 = (if r = None then set_standing_cover_adopted False s1 else s1)
           in if cover then act DropLockdown s2 else s2)
      | KeepEngaged \<Rightarrow> if cover then act DisarmLockdown s else s)"

text \<open>\<^verbatim>\<open>run_phase\<close>: the phase is entered, and its work done, only when the work exists.\<close>

definition run_phase :: "bool \<Rightarrow> stop_phase \<Rightarrow> action \<Rightarrow> pm \<Rightarrow> pm" where
  "run_phase work ph a s = (if work then act a (act (EnterPhase ph) s) else s)"

definition stop_session_work :: "pm_env \<Rightarrow> running_state \<Rightarrow> pm \<Rightarrow> pm \<times> proxy_error option" where
  "stop_session_work E r s =
     (let s1 = run_phase (rs_dns r) RestoreDns ShutdownDns s;
          s2 = run_phase (rs_dispatcher r \<noteq> None) StopEngine ShutdownDispatcher s1;
          s3 = run_phase (rs_plugin_chain r) ReapPlugins KillPlugins s2;
          s4 = (if rs_plugin_chain r then act DropPlugins s3 else s3);
          s5 = act (EnterPhase StopProxy) s4;
          res = e_stop_proxy E (pm_trace s5);
          s6 = act StopProxyTask s5;
          s7 = run_phase (rs_routes r) TearDownRoutes DropRoutes s6
      in (s7, res))"

definition settle_session :: "pm_env \<Rightarrow> session_event \<Rightarrow> proxy_config target \<Rightarrow> bool \<Rightarrow> pm \<Rightarrow> pm" where
  "settle_session E ev target lockdown s =
     (let s1 = act (EnterPhase SettleCover) s;
          presence = e_presence E (pm_trace s1);
          intent = effective_lockdown_intent E s1;
          s2 = apply_cover_disposition E (teardown_cover_disposition ev intent presence target) lockdown s1;
          s3 = (if preserves_death_reason ev then s2 else s2\<lparr>pm_last_error := None, pm_death_reason := False\<rparr>)
      in s3\<lparr>pm_active_config := None, pm_udp := True, pm_ipv6 := True\<rparr>)"

definition stop_with :: "pm_env \<Rightarrow> session_event \<Rightarrow> pm \<Rightarrow> pm \<times> proxy_error option" where
  "stop_with E ev s =
     (let s0 = (if pm_has_state_dir s then act (EnterPhase PersistTarget) s else s);
          (s1, target) = persist_session_event E ev s0
      in case pm_posture s1 of
           Idle \<Rightarrow> (s1, None)
         | PendingStart b \<Rightarrow>
             (let s2 = act (EnterPhase SettleCover) (s1\<lparr>pm_posture := Idle\<rparr>);
                  s3 = act (case transient_cover_disposition ev of
                              ReleaseNow \<Rightarrow> DropTransient | KeepEngaged \<Rightarrow> DisarmTransient) s2
              in (s3\<lparr>pm_last_error := None, pm_death_reason := False\<rparr>, None))
         | Session r \<Rightarrow>
             (let (s2, res) = stop_session_work E r (s1\<lparr>pm_posture := Idle\<rparr>)
              in (settle_session E ev target (rs_lockdown r) s2, res)))"

definition check_health :: "pm_env \<Rightarrow> pm \<Rightarrow> pm \<times> session_event option" where
  "check_health E s =
     (case posture_session (pm_posture s) of
        None \<Rightarrow> (s, None)
      | Some r \<Rightarrow>
          if \<not> e_proxy_alive E (pm_trace s) \<or> rs_plugin_chain r \<and> \<not> e_plugins_alive E (pm_trace s)
          then (s\<lparr>pm_last_error := Some DeathReason, pm_death_reason := True\<rparr>, Some GaveUp)
          else (s, None))"

section \<open>The phases of a start (\<open>start_inner\<close>)\<close>

text \<open>
  The guards a start holds so far; on an error they drop in reverse order of declaration, after
  the dispatcher was shut down explicitly.
\<close>

record held =
  h_plugins :: bool
  h_proxy :: bool
  h_dispatcher :: bool
  h_routes :: bool
  h_lockdown :: bool

definition act_if :: "bool \<Rightarrow> action \<Rightarrow> pm \<Rightarrow> pm" where
  "act_if b a s = (if b then act a s else s)"

definition unwind :: "held \<Rightarrow> pm \<Rightarrow> pm" where
  "unwind h s =
     act_if (h_plugins h) DropPlugins
       (act_if (h_proxy h) DropProxy
         (act_if (h_routes h) DropRoutes
           (act_if (h_lockdown h) DropLockdown
             (act_if (h_dispatcher h) ShutdownDispatcher s))))"

definition abort :: "held \<Rightarrow> proxy_error \<Rightarrow> pm \<Rightarrow> pm \<times> (proxy_error, 'a) result" where
  "abort h e s = (unwind h s, Err e)"

definition udp_available_from_chain :: "bool option \<Rightarrow> bool" where
  "udp_available_from_chain transports = (case transports of Some udp \<Rightarrow> udp | None \<Rightarrow> True)"

definition pure_vpn :: "proxy_config \<Rightarrow> bool" where
  "pure_vpn cfg = (pc_tunnel_mode cfg = Full \<and> \<not> pc_proxy_socks5 cfg)"

definition proxy_start_err_to_io_err :: "pm_env \<Rightarrow> proxy_error \<Rightarrow> string" where
  "proxy_start_err_to_io_err E e = (case e of Runtime io \<Rightarrow> io | _ \<Rightarrow> e_display E e)"

text \<open>Phases 0 to 2: cancel checkpoint, plugin chain, shadowsocks configuration.\<close>

definition start_plugin_chain :: "pm_env \<Rightarrow> proxy_config \<Rightarrow> string \<Rightarrow> ech_doh option \<Rightarrow> pm \<Rightarrow> pm \<times> (proxy_error, bool) result" where
  "start_plugin_chain E cfg plugin_name ech s =
     (case inject_plugin_directives (e_url_host E) plugin_name (se_plugin_opts (pc_server cfg)) ech of
        Err _ \<Rightarrow> (s, Err MalformedPluginOptions)
      | Ok merged_opts \<Rightarrow>
          (let r = e_plugins E (pm_trace s) cfg merged_opts
           in (act (StartPlugins merged_opts (case r of Ok _ \<Rightarrow> True | Err _ \<Rightarrow> False)) s, r)))"

definition start_plugins :: "pm_env \<Rightarrow> proxy_config \<Rightarrow> ip_addr \<Rightarrow> ech_doh option \<Rightarrow> pm \<Rightarrow>
    pm \<times> (proxy_error, held \<times> bool) result" where
  "start_plugins E cfg ip ech s =
     (let h0 = \<lparr>h_plugins = False, h_proxy = False, h_dispatcher = False, h_routes = False, h_lockdown = False\<rparr>
      in if e_cancelled E (pm_trace s) then (s, Err Cancelled)
         else
           (let (s1, chain) = (case se_plugin (pc_server cfg) of
                  None \<Rightarrow> (s, Ok None)
                | Some plugin_name \<Rightarrow>
                    (case start_plugin_chain E cfg plugin_name ech s of (s1, r) \<Rightarrow> (s1, map_ok Some r)))
            in case chain of
                 Err e \<Rightarrow> (s1, Err e)
               | Ok transports \<Rightarrow>
                   (let h = h0\<lparr>h_plugins := transports \<noteq> None\<rparr>
                    in if e_cancelled E (pm_trace s1) then abort h Cancelled s1
                       else case e_ss_config E cfg ip of
                              Some e \<Rightarrow> abort h e s1
                            | None \<Rightarrow> (s1, Ok (h, udp_available_from_chain transports)))))"

text \<open>The proxy task, racing the token; a pure-VPN start reports a bind failure as an I/O error.\<close>

definition start_proxy_task :: "pm_env \<Rightarrow> proxy_config \<Rightarrow> held \<Rightarrow> pm \<Rightarrow> pm \<times> (proxy_error, held) result" where
  "start_proxy_task E cfg h s =
     (if e_cancelled E (pm_trace s) then abort h Cancelled s
      else
        (let r = e_start_proxy E (pm_trace s) cfg; s1 = act (StartProxy (r = None)) s
         in case r of
              None \<Rightarrow> (s1, Ok (h\<lparr>h_proxy := True\<rparr>))
            | Some e \<Rightarrow>
                if pure_vpn cfg
                then abort h (if e_cancelled E (pm_trace s1) then Cancelled else Runtime (proxy_start_err_to_io_err E e)) s1
                else abort h e s1))"

text \<open>Phase 4: the forwarder and its self-test.\<close>

definition start_forwarder :: "pm_env \<Rightarrow> proxy_config \<Rightarrow> bool \<Rightarrow> bool \<Rightarrow> held \<Rightarrow> pm \<Rightarrow>
    pm \<times> (proxy_error, bool) result" where
  "start_forwarder E cfg transient_pending expected h s =
     (if e_cancelled E (pm_trace s) then abort h Cancelled s
      else
        (case e_local_dns E (pm_trace s) cfg of
           Err e \<Rightarrow> abort h e s
         | Ok False \<Rightarrow> (s, Ok False)
         | Ok True \<Rightarrow>
             (let probe = \<not> suppresses_reachability_probe (e_presence E (pm_trace s)) transient_pending expected
              in case e_self_test E (pm_trace s) probe of
                   SelfTestOk \<Rightarrow> (s, Ok True)
                 | SelfTestCancelled \<Rightarrow> abort h Cancelled s
                 | SelfTestFailed e \<Rightarrow> abort h (if e_cancelled E (pm_trace s) then Cancelled else e) s)))"

text \<open>Phases 5 and 6: the dispatcher and the routes.\<close>

definition start_routes :: "pm_env \<Rightarrow> held \<Rightarrow> pm \<Rightarrow> pm \<times> (proxy_error, held) result" where
  "start_routes E h s =
     (if e_cancelled E (pm_trace s) then abort h Cancelled s
      else
        (case e_dispatcher E (pm_trace s) of
           DispatcherFailed e \<Rightarrow> abort h e (act (NewDispatcher False) s)
         | DispatcherCancelled \<Rightarrow> abort h Cancelled (act (NewDispatcher False) s)
         | DispatcherUp \<Rightarrow>
             (let s1 = act (NewDispatcher True) s; h1 = h\<lparr>h_dispatcher := True\<rparr>
              in if e_cancelled E (pm_trace s1) then abort h1 Cancelled s1
                 else case e_install_routes E (pm_trace s1) of
                        Some e \<Rightarrow> abort h1 e (act (InstallRoutes False) s1)
                      | None \<Rightarrow> (act (InstallRoutes True) s1, Ok (h1\<lparr>h_routes := True\<rparr>)))))"

text \<open>The standing cover: the intent is read afresh, an engage error is fatal.\<close>

definition start_lockdown :: "pm_env \<Rightarrow> bool \<Rightarrow> held \<Rightarrow> pm \<Rightarrow> pm \<times> (proxy_error, held) result" where
  "start_lockdown E expected h s =
     (let s1 = s\<lparr>pm_dir := e_meanwhile E (pm_dir s)\<rparr>;
          expected' = (if pm_intent E s1 = Some IntentOff then False else expected)
      in if \<not> expected' then (s1, Ok h)
         else case e_install_lockdown E (pm_trace s1) of
                Some e \<Rightarrow> abort h e (act (InstallLockdown False) s1)
              | None \<Rightarrow> (promote_adopted_claim E (act (InstallLockdown True) s1), Ok (h\<lparr>h_lockdown := True\<rparr>)))"

text \<open>Phase 7: DNS confinement, fatal on every error.\<close>

definition start_dns :: "pm_env \<Rightarrow> bool \<Rightarrow> held \<Rightarrow> pm \<Rightarrow> pm \<times> (proxy_error, bool) result" where
  "start_dns E forwarder h s =
     (if \<not> forwarder then (s, Ok False)
      else case e_apply_dns E (pm_trace s) of
             None \<Rightarrow> (act (ApplyDns True) s, Ok True)
           | Some DnsCancelled \<Rightarrow> abort h Cancelled (act (ApplyDns False) s)
           | Some DnsConfine \<Rightarrow> abort h DnsConfinementFailed (act (ApplyDns False) s)
           | Some (DnsIo m) \<Rightarrow> abort h (Runtime m) (act (ApplyDns False) s))"

definition pm_bind :: "pm \<times> (proxy_error, 'a) result \<Rightarrow> ('a \<Rightarrow> pm \<Rightarrow> pm \<times> (proxy_error, 'b) result) \<Rightarrow>
    pm \<times> (proxy_error, 'b) result" where
  "pm_bind m f = (case m of (s, Err e) \<Rightarrow> (s, Err e) | (s, Ok a) \<Rightarrow> f a s)"

definition start_socks_only :: "pm_env \<Rightarrow> proxy_config \<Rightarrow> held \<Rightarrow> bool \<Rightarrow> pm \<Rightarrow>
    pm \<times> (proxy_error, running_state) result" where
  "start_socks_only E cfg h udp s =
     pm_bind (start_proxy_task E cfg h s) (\<lambda>h1 s1.
       (s1, Ok \<lparr>rs_dns = False, rs_dispatcher = None, rs_plugin_chain = h_plugins h1, rs_routes = False,
               rs_lockdown = False, rs_udp = udp, rs_ipv6 = False\<rparr>))"

definition start_full :: "pm_env \<Rightarrow> proxy_config \<Rightarrow> ip_addr \<Rightarrow> bool \<Rightarrow> bool \<Rightarrow> held \<Rightarrow> bool \<Rightarrow> pm \<Rightarrow>
    pm \<times> (proxy_error, running_state) result" where
  "start_full E cfg ip transient_pending expected h udp s =
     (case e_gateway E (pm_trace s) ip of
        Err e \<Rightarrow> abort h e s
      | Ok ipv6 \<Rightarrow>
          pm_bind (start_proxy_task E cfg h s) (\<lambda>h1 s1.
          pm_bind (start_forwarder E cfg transient_pending expected h1 s1) (\<lambda>forwarder s2.
          pm_bind (start_routes E h1 s2) (\<lambda>h2 s3.
          pm_bind (start_lockdown E expected h2 s3) (\<lambda>h3 s4.
          pm_bind (start_dns E forwarder h3 s4) (\<lambda>dns s5.
            (s5, Ok \<lparr>rs_dns = dns, rs_dispatcher = Some (pc_filters cfg), rs_plugin_chain = h_plugins h3,
                    rs_routes = True, rs_lockdown = h_lockdown h3, rs_udp = udp, rs_ipv6 = ipv6\<rparr>)))))))"

definition start_inner :: "pm_env \<Rightarrow> proxy_config \<Rightarrow> ip_addr \<Rightarrow> ech_doh option \<Rightarrow> bool \<Rightarrow> bool \<Rightarrow> pm \<Rightarrow>
    pm \<times> (proxy_error, running_state) result" where
  "start_inner E cfg ip ech transient_pending expected s =
     pm_bind (start_plugins E cfg ip ech s) (\<lambda>(h, udp) s1.
       if pc_tunnel_mode cfg = SocksOnly then start_socks_only E cfg h udp s1
       else start_full E cfg ip transient_pending expected h udp s1)"

section \<open>Starting (\<open>start_cancellable\<close>)\<close>

definition host_of :: "proxy_config \<Rightarrow> string" where
  "host_of cfg = se_server (pc_server cfg)"

text \<open>Up to the resolution: drop a pending start the escape invalidated or one for another server.\<close>

definition start_entry :: "proxy_config \<Rightarrow> pm \<Rightarrow> pm" where
  "start_entry cfg s =
     (let s1 = (if pm_invalidated s then take_pending (s\<lparr>pm_invalidated := False\<rparr>) else s);
          s2 = s1\<lparr>pm_death_reason := False\<rparr>
      in case posture_pending (pm_posture s2) of
           Some b \<Rightarrow> if bs_host b \<noteq> host_of cfg then take_pending s2 else s2
         | None \<Rightarrow> s2)"

text \<open>A retry under the held cover reuses its address and revalidates its pin.\<close>

definition start_resolve :: "pm_env \<Rightarrow> proxy_config \<Rightarrow> pm \<Rightarrow> (proxy_error, ip_addr \<times> pin_source) result" where
  "start_resolve E cfg s =
     (case posture_pending (pm_posture s) of
        Some b \<Rightarrow>
          if bs_host b = host_of cfg then Ok (bs_server_ip b, revalidate (bs_pin b) (dns_servers (pc_dns cfg)))
          else if e_cancelled E (pm_trace s) then Err Cancelled else e_resolve E (pm_trace s) cfg
      | None \<Rightarrow> if e_cancelled E (pm_trace s) then Err Cancelled else e_resolve E (pm_trace s) cfg)"

text \<open>The resolver the cover permits: Hole's candidate, when it is the effective directive.\<close>

definition ech_candidate :: "proxy_config \<Rightarrow> pin_source \<Rightarrow> ech_doh option" where
  "ech_candidate cfg pin = (if se_plugin (pc_server cfg) = None then None else ech_doh_url (pc_dns cfg) pin)"

definition ech_resolver_permit :: "pm_env \<Rightarrow> proxy_config \<Rightarrow> pin_source \<Rightarrow> ip_addr option" where
  "ech_resolver_permit E cfg pin =
     (if effective_ech_doh (e_url_host E) (case se_plugin (pc_server cfg) of Some p \<Rightarrow> p | None \<Rightarrow> [])
           (se_plugin_opts (pc_server cfg)) (ech_candidate cfg pin) = EchHoles
      then map_option ech_resolver (ech_candidate cfg pin) else None)"

text \<open>What a covered retry gives up when its permit drifted: the old permit and its pin.\<close>

definition repair_fallback :: "proxy_config \<Rightarrow> bool \<Rightarrow> bool \<Rightarrow> ip_addr option \<Rightarrow> pm \<Rightarrow>
    (ip_addr option \<times> pin_source) option" where
  "repair_fallback cfg covered lockdown_on permit s =
     (if covered \<and> \<not> lockdown_on then
        (case posture_pending (pm_posture s) of
           Some b \<Rightarrow>
             if bs_host b = host_of cfg \<and> bs_resolver_permit b \<noteq> permit
             then Some (bs_resolver_permit b, bs_pin b) else None
         | None \<Rightarrow> None)
      else None)"

definition install_failclosed_cover :: "pm_env \<Rightarrow> ip_addr \<Rightarrow> ip_addr option \<Rightarrow> pm \<Rightarrow> pm \<times> proxy_error option" where
  "install_failclosed_cover E ip permit s =
     (let r = e_failclosed E (pm_trace s) ip permit in (act (InstallFailclosed ip permit (r = None)) s, r))"

text \<open>Engage the corrected cover; when that fails, restore the one a repair gave up.\<close>

definition engage_cover :: "pm_env \<Rightarrow> proxy_config \<Rightarrow> ip_addr \<Rightarrow> pin_source \<Rightarrow> ip_addr option \<Rightarrow>
    (ip_addr option \<times> pin_source) option \<Rightarrow> pm \<Rightarrow> pm" where
  "engage_cover E cfg ip pin permit fallback s =
     (let engaged_pin = (case fallback of None \<Rightarrow> pin | Some (_, original) \<Rightarrow> original)
      in case install_failclosed_cover E ip permit s of
           (s1, None) \<Rightarrow>
             hold_pending \<lparr>bs_host = host_of cfg, bs_server_ip = ip, bs_pin = engaged_pin, bs_resolver_permit = permit\<rparr> s1
         | (s1, Some e) \<Rightarrow>
             (case fallback of
                None \<Rightarrow> s1\<lparr>pm_last_error := Some (FromError e)\<rparr>
              | Some (old_permit, original) \<Rightarrow>
                  (case install_failclosed_cover E ip old_permit s1 of
                     (s2, None) \<Rightarrow>
                       (hold_pending \<lparr>bs_host = host_of cfg, bs_server_ip = ip, bs_pin = original,
                          bs_resolver_permit = old_permit\<rparr> s2)\<lparr>pm_last_error := Some (FromError e)\<rparr>
                   | (s2, Some _) \<Rightarrow> s2\<lparr>pm_last_error := Some (FromError e)\<rparr>)))"

definition cover_for_start :: "pm_env \<Rightarrow> proxy_config \<Rightarrow> bool \<Rightarrow> bool \<Rightarrow> ip_addr \<Rightarrow> pin_source \<Rightarrow> pm \<Rightarrow> pm" where
  "cover_for_start E cfg covered lockdown_on ip pin s =
     (let permit = ech_resolver_permit E cfg pin;
          fallback = repair_fallback cfg covered lockdown_on permit s;
          s1 = (if fallback \<noteq> None then take_pending s else s)
      in if covered \<and> \<not> lockdown_on
         then (if posture_pending (pm_posture s1) = None then engage_cover E cfg ip pin permit fallback s1 else s1)
         else take_pending s1)"

definition start_cancellable :: "pm_env \<Rightarrow> proxy_config \<Rightarrow> bool \<Rightarrow> pm \<Rightarrow> pm \<times> proxy_error option" where
  "start_cancellable E cfg covered s =
     (if posture_session (pm_posture s) \<noteq> None then (s, Some AlreadyRunning)
      else
        (let s1 = start_entry cfg s
         in case start_resolve E cfg s1 of
              Err e \<Rightarrow>
                (if e = Cancelled then s1 else s1\<lparr>pm_last_error := Some (FromError e)\<rparr>, Some e)
            | Ok (ip, pin) \<Rightarrow>
                (let lockdown_on = standing_cover_expected E s1;
                     s2 = cover_for_start E cfg covered lockdown_on ip pin s1;
                     transient_pending = (posture_pending (pm_posture s2) \<noteq> None)
                 in case start_inner E cfg ip (ech_candidate cfg pin) transient_pending lockdown_on s2 of
                      (s3, Ok r) \<Rightarrow>
                        ((commit_session r ((take_pending s3)\<lparr>pm_udp := rs_udp r, pm_ipv6 := rs_ipv6 r\<rparr>))
                           \<lparr>pm_active_config := Some cfg, pm_last_error := None\<rparr>, None)
                    | (s3, Err e) \<Rightarrow>
                        if e = Cancelled then (take_pending s3, Some Cancelled)
                        else (s3\<lparr>pm_last_error := Some (FromError e)\<rparr>, Some e))))"

definition start :: "pm_env \<Rightarrow> proxy_config \<Rightarrow> pm \<Rightarrow> pm \<times> proxy_error option" where
  "start E cfg s = start_cancellable (E\<lparr>e_cancelled := \<lambda>_. False\<rparr>) cfg False s"

section \<open>Reloading\<close>

definition structural_same :: "proxy_config \<Rightarrow> proxy_config \<Rightarrow> bool" where
  "structural_same active cfg \<longleftrightarrow>
     pc_server active = pc_server cfg \<and> pc_local_port active = pc_local_port cfg \<and>
     pc_tunnel_mode active = pc_tunnel_mode cfg \<and> pc_dns active = pc_dns cfg \<and>
     pc_proxy_socks5 active = pc_proxy_socks5 cfg \<and> pc_proxy_http active = pc_proxy_http cfg \<and>
     pc_local_port_http active = pc_local_port_http cfg \<and>
     pc_diagnostic_plugin_tap active = pc_diagnostic_plugin_tap cfg"

definition session_swap_rules :: "filter_rule list \<Rightarrow> pm \<Rightarrow> pm" where
  "session_swap_rules us s =
     (case pm_posture s of
        Session r \<Rightarrow>
          if rs_dispatcher r \<noteq> None then act SwapRules (s\<lparr>pm_posture := Session (r\<lparr>rs_dispatcher := Some us\<rparr>)\<rparr>) else s
      | _ \<Rightarrow> s)"

definition reload :: "pm_env \<Rightarrow> proxy_config \<Rightarrow> pm \<Rightarrow> pm \<times> proxy_error option" where
  "reload E cfg s =
     (case pm_active_config s of
        None \<Rightarrow> start E cfg s
      | Some active \<Rightarrow>
          if structural_same active cfg
          then ((session_swap_rules (pc_filters cfg) s)\<lparr>pm_active_config := Some cfg\<rparr>, None)
          else (case stop_with E Blipped s of
                  (s1, Some e) \<Rightarrow> (s1, Some e)
                | (s1, None) \<Rightarrow> start E cfg s1))"

section \<open>The transient cover as the trace shows it\<close>

text \<open>
  \<open>guarded tr\<close>: a guard of the transient cover is held after the calls \<open>tr\<close>; \<open>one_guard tr\<close>: the
  transient cover, a global singleton, was never engaged while a guard was held, and no guard
  was dropped or disarmed that was not held.
\<close>

definition guard_step :: "bool \<Rightarrow> action \<Rightarrow> bool" where
  "guard_step g a =
     (case a of
        InstallFailclosed _ _ success \<Rightarrow> g \<or> success
      | DropTransient \<Rightarrow> False
      | DisarmTransient \<Rightarrow> False
      | _ \<Rightarrow> g)"

definition guarded :: "trace \<Rightarrow> bool" where
  "guarded tr = foldl guard_step False tr"

fun respects_from :: "bool \<Rightarrow> trace \<Rightarrow> bool" where
  "respects_from g [] = True"
| "respects_from g (a # tr) =
     ((case a of
         InstallFailclosed _ _ _ \<Rightarrow> \<not> g
       | DropTransient \<Rightarrow> g
       | DisarmTransient \<Rightarrow> g
       | _ \<Rightarrow> True) \<and> respects_from (guard_step g a) tr)"

definition one_guard :: "trace \<Rightarrow> bool" where
  "one_guard tr = respects_from False tr"

text \<open>The invariant: a guard is held exactly in the pending posture.\<close>

definition pm_inv :: "pm \<Rightarrow> bool" where
  "pm_inv s \<longleftrightarrow> one_guard (pm_trace s) \<and> (guarded (pm_trace s) \<longleftrightarrow> posture_pending (pm_posture s) \<noteq> None)"

section \<open>Library: what the calls of a start and a stop leave alone\<close>

fun neutral :: "action \<Rightarrow> bool" where
  "neutral (InstallFailclosed _ _ _) = False"
| "neutral DropTransient = False"
| "neutral DisarmTransient = False"
| "neutral _ = True"

text \<open>
  \<open>quiet s s'\<close>: the posture is the same and the trace grew by calls that do not touch the
  transient cover.
\<close>

definition quiet :: "pm \<Rightarrow> pm \<Rightarrow> bool" where
  "quiet s s' \<longleftrightarrow> pm_posture s' = pm_posture s \<and> pm_has_state_dir s' = pm_has_state_dir s \<and>
     (\<exists>tr. pm_trace s' = pm_trace s @ tr \<and> list_all neutral tr)"

lemma quiet_refl [simp, intro]: "quiet s s"
  by (auto simp: quiet_def)

lemma quiet_trans: "quiet s t \<Longrightarrow> quiet t u \<Longrightarrow> quiet s u"
  by (auto simp: quiet_def)

lemma quiet_act [intro!]: "quiet s t \<Longrightarrow> neutral a \<Longrightarrow> quiet s (act a t)"
  by (auto simp: quiet_def act_def)

lemma quiet_act_if [intro!]: "quiet s t \<Longrightarrow> neutral a \<Longrightarrow> quiet s (act_if b a t)"
  by (auto simp: act_if_def)

lemma quiet_run_phase [intro!]: "quiet s t \<Longrightarrow> neutral a \<Longrightarrow> quiet s (run_phase b ph a t)"
  by (auto simp: run_phase_def)

lemma quiet_fields [simp]:
  "quiet s (t\<lparr>pm_dir := w\<rparr>) \<longleftrightarrow> quiet s t"
  "quiet s (t\<lparr>pm_last_error := e\<rparr>) \<longleftrightarrow> quiet s t"
  "quiet s (t\<lparr>pm_death_reason := d\<rparr>) \<longleftrightarrow> quiet s t"
  "quiet s (t\<lparr>pm_adopted := d\<rparr>) \<longleftrightarrow> quiet s t"
  "quiet s (t\<lparr>pm_active_config := c\<rparr>) \<longleftrightarrow> quiet s t"
  "quiet s (t\<lparr>pm_udp := b\<rparr>) \<longleftrightarrow> quiet s t"
  "quiet s (t\<lparr>pm_ipv6 := b\<rparr>) \<longleftrightarrow> quiet s t"
  by (simp_all add: quiet_def)

lemma quiet_unwind [intro!]: "quiet s t \<Longrightarrow> quiet s (unwind h t)"
  unfolding unwind_def by (intro quiet_act_if) auto

lemma quiet_set_intent: "set_lockdown_intent E b s = (s', r) \<Longrightarrow> quiet s s'"
  by (auto simp: set_lockdown_intent_def split: if_splits prod.splits update_result.splits)

lemma quiet_promote [intro]: "quiet s (promote_adopted_claim E s)"
  unfolding promote_adopted_claim_def
  by (auto split: option.splits intent.splits intro: quiet_set_intent [of E True s, OF prod.collapse [symmetric]])

lemma quiet_persist: "persist_session_event E ev s = (s', t) \<Longrightarrow> quiet s s'"
  by (auto simp: persist_session_event_def Let_def split: if_splits prod.splits update_result.splits)

lemma quiet_release: "release_all_covers E s = (s', r) \<Longrightarrow> quiet s s'"
  by (auto simp: release_all_covers_def Let_def)

lemma quiet_disposition [intro]: "quiet s (apply_cover_disposition E d c s)"
proof (cases d)
  case ReleaseNow
  obtain s1 r where r: "release_all_covers E s = (s1, r)" by force
  from quiet_release [OF r] ReleaseNow r show ?thesis
    by (auto simp: apply_cover_disposition_def set_standing_cover_adopted_def)
qed (auto simp: apply_cover_disposition_def)

lemma quiet_settle [intro]: "quiet s (settle_session E ev t l s)"
  unfolding settle_session_def Let_def
  by (simp add: if_distrib [of "quiet s"] quiet_trans [OF quiet_act [OF quiet_refl] quiet_disposition])

lemma quiet_work: "stop_session_work E r s = (s', res) \<Longrightarrow> quiet s s'"
  unfolding stop_session_work_def Let_def by (auto intro!: quiet_run_phase quiet_act)

lemma start_plugin_chain_cases:
  assumes "start_plugin_chain E cfg n ech s = (s1, r)"
  shows "(s1 = s \<and> r = Err MalformedPluginOptions) \<or> (\<exists>opts e. s1 = act (StartPlugins opts False) s \<and> r = Err e) \<or>
    (\<exists>opts x. s1 = act (StartPlugins opts True) s \<and> r = Ok x)"
  using assms by (auto simp: start_plugin_chain_def Let_def split: sum.splits)

lemma quiet_start_plugins: "start_plugins E cfg ip ech s = (s', r) \<Longrightarrow> quiet s s'"
proof (cases "se_plugin (pc_server cfg)")
  case (Some n)
  assume eq: "start_plugins E cfg ip ech s = (s', r)"
  obtain s1 r1 where c: "start_plugin_chain E cfg n ech s = (s1, r1)" by force
  from start_plugin_chain_cases [OF c] eq Some c show ?thesis
    unfolding start_plugins_def Let_def abort_def
    by (auto split: if_splits option.splits)
qed (auto simp: start_plugins_def Let_def abort_def split: if_splits option.splits)

lemma quiet_start_proxy_task: "start_proxy_task E cfg h s = (s', r) \<Longrightarrow> quiet s s'"
  unfolding start_proxy_task_def Let_def abort_def
  by (auto split: if_splits option.splits)

lemma quiet_start_forwarder: "start_forwarder E cfg tp ex h s = (s', r) \<Longrightarrow> quiet s s'"
  unfolding start_forwarder_def Let_def abort_def
  by (auto split: if_splits sum.splits bool.splits self_test.splits)

lemma quiet_start_routes: "start_routes E h s = (s', r) \<Longrightarrow> quiet s s'"
  unfolding start_routes_def Let_def abort_def
  by (auto split: if_splits option.splits dispatcher_start.splits)

lemma quiet_start_lockdown: "start_lockdown E ex h s = (s', r) \<Longrightarrow> quiet s s'"
  unfolding start_lockdown_def Let_def abort_def
  by (auto split: if_splits option.splits
      intro!: quiet_trans [OF _ quiet_promote])

lemma quiet_start_dns: "start_dns E f h s = (s', r) \<Longrightarrow> quiet s s'"
  unfolding start_dns_def Let_def abort_def
  by (auto split: if_splits option.splits dns_error.splits)

lemma pm_bind_cases:
  assumes "pm_bind m f = (s', r)"
  obtains (failed) e where "m = (s', Err e)" "r = Err e"
  | (went_on) t a where "m = (t, Ok a)" "f a t = (s', r)"
  using assms by (cases m; cases "snd m") (auto simp: pm_bind_def)

lemma quiet_bind:
  assumes "pm_bind m f = (s', r)" "\<And>t x. m = (t, x) \<Longrightarrow> quiet s t" "\<And>a t. f a t = (s', r) \<Longrightarrow> quiet t s'"
  shows "quiet s s'"
  using assms(1)
proof (cases rule: pm_bind_cases)
  case (went_on t a)
  with assms(2,3) quiet_trans show ?thesis by blast
qed (use assms in blast)

lemma quiet_start_full: "start_full E cfg ip tp ex h udp s = (s', r) \<Longrightarrow> quiet s s'"
  unfolding start_full_def abort_def
  by (auto split: sum.splits elim!: quiet_bind quiet_start_proxy_task quiet_start_forwarder quiet_start_routes
      quiet_start_lockdown quiet_start_dns)

lemma quiet_start_socks_only: "start_socks_only E cfg h udp s = (s', r) \<Longrightarrow> quiet s s'"
  unfolding start_socks_only_def by (auto elim!: quiet_bind quiet_start_proxy_task)

lemma quiet_start_inner: "start_inner E cfg ip ech tp ex s = (s', r) \<Longrightarrow> quiet s s'"
  unfolding start_inner_def
  by (auto elim!: quiet_bind quiet_start_plugins quiet_start_full quiet_start_socks_only split: if_splits)

end
