(* ===== verification/Proxy_Safety.thy ===== *)
theory Proxy_Safety
  imports Proxy_Manager
begin

text \<open>
  Safety of the proxy manager: the transient cover is a singleton owned exactly by the pending
  posture, over every reachable state; what each outcome of a start leaves behind; that a
  failed start rolls back everything it acquired; the order and the effects of a stop; the
  release-then-persist order of the explicit disarm.
\<close>

section \<open>The guard invariant\<close>

lemma guard_step_neutral [simp]: "neutral a \<Longrightarrow> guard_step g a = g"
  by (cases a) (simp_all add: guard_step_def)

lemma foldl_guard_neutral [simp]: "list_all neutral tr \<Longrightarrow> foldl guard_step g tr = g"
  by (induction tr arbitrary: g) auto

lemma respects_append [simp]:
  "respects_from g (xs @ ys) \<longleftrightarrow> respects_from g xs \<and> respects_from (foldl guard_step g xs) ys"
  by (induction xs arbitrary: g) auto

lemma respects_neutral [simp]: "list_all neutral tr \<Longrightarrow> respects_from g tr"
proof (induction tr)
  case (Cons a tr)
  then show ?case by (cases a) simp_all
qed simp

lemma inv_quiet: "pm_inv s \<Longrightarrow> quiet s s' \<Longrightarrow> pm_inv s'"
  by (auto simp: pm_inv_def quiet_def one_guard_def guarded_def)

lemma pm_inv_fields [simp]:
  "pm_inv (s\<lparr>pm_dir := w\<rparr>) = pm_inv s"
  "pm_inv (s\<lparr>pm_last_error := e\<rparr>) = pm_inv s"
  "pm_inv (s\<lparr>pm_death_reason := d\<rparr>) = pm_inv s"
  "pm_inv (s\<lparr>pm_adopted := d\<rparr>) = pm_inv s"
  "pm_inv (s\<lparr>pm_invalidated := d\<rparr>) = pm_inv s"
  "pm_inv (s\<lparr>pm_active_config := c\<rparr>) = pm_inv s"
  "pm_inv (s\<lparr>pm_udp := b\<rparr>) = pm_inv s"
  "pm_inv (s\<lparr>pm_ipv6 := b\<rparr>) = pm_inv s"
  by (simp_all add: pm_inv_def)

lemma pm_inv_no_guard:
  "pm_inv s \<Longrightarrow> posture_pending (pm_posture s) = None \<Longrightarrow> posture_pending p = None \<Longrightarrow> pm_inv (s\<lparr>pm_posture := p\<rparr>)"
  by (simp add: pm_inv_def)

lemma inv_take_pending: "pm_inv s \<Longrightarrow> pm_inv (take_pending s)"
  by (auto simp: take_pending_def pm_inv_def act_def one_guard_def guarded_def guard_step_def split: option.splits)

lemma take_pending_posture [simp]:
  "pm_posture (take_pending s) = (if posture_pending (pm_posture s) = None then pm_posture s else Idle)"
  by (auto simp: take_pending_def act_def split: option.splits)

lemma take_pending_none [simp]: "posture_pending (pm_posture (take_pending s)) = None"
  by simp

lemma take_pending_idle: "posture_session (pm_posture s) = None \<Longrightarrow> pm_posture (take_pending s) = Idle"
  by (cases "pm_posture s") simp_all

lemma take_pending_sel [simp]:
  "pm_dir (take_pending s) = pm_dir s" "pm_adopted (take_pending s) = pm_adopted s"
  "pm_has_state_dir (take_pending s) = pm_has_state_dir s"
  by (auto simp: take_pending_def act_def split: option.splits)

lemma take_pending_id: "posture_pending (pm_posture s) = None \<Longrightarrow> take_pending s = s"
  by (simp add: take_pending_def)

lemma inv_start_entry: "pm_inv s \<Longrightarrow> pm_inv (start_entry cfg s)"
  by (auto simp: start_entry_def Let_def inv_take_pending split: option.splits)

lemma start_entry_session [simp]:
  "posture_session (pm_posture s) = None \<Longrightarrow> posture_session (pm_posture (start_entry cfg s)) = None"
  by (auto simp: start_entry_def Let_def split: option.splits)

lemma start_entry_host:
  "posture_pending (pm_posture (start_entry cfg s)) = Some b \<Longrightarrow> bs_host b = host_of cfg"
  by (auto simp: start_entry_def Let_def split: option.splits if_splits)

lemma inv_install:
  "pm_inv s \<Longrightarrow> posture_pending (pm_posture s) = None \<Longrightarrow> install_failclosed_cover E ip p s = (s1, r) \<Longrightarrow>
   pm_posture s1 = pm_posture s \<and> (if r = None then pm_inv (hold_pending b s1) else pm_inv s1)"
  by (auto simp: install_failclosed_cover_def Let_def act_def hold_pending_def pm_inv_def one_guard_def
      guarded_def guard_step_def)

lemma inv_engage_cover:
  assumes "pm_inv s" "posture_pending (pm_posture s) = None"
  shows "pm_inv (engage_cover E cfg ip pin permit fb s)"
proof -
  obtain s1 r where i: "install_failclosed_cover E ip permit s = (s1, r)" by force
  show ?thesis
  proof (cases r)
    case None
    with inv_install [OF assms i] i show ?thesis
      by (auto simp: engage_cover_def Let_def)
  next
    case (Some e)
    note first = inv_install [OF assms i]
    show ?thesis
    proof (cases fb)
      case None
      with Some i first show ?thesis by (auto simp: engage_cover_def)
    next
      case (Some old)
      obtain s2 r2 where i2: "install_failclosed_cover E ip (fst old) s1 = (s2, r2)" by force
      from first \<open>r = Some e\<close> assms(2) have "pm_inv s1" "posture_pending (pm_posture s1) = None" by auto
      note second = inv_install [OF this i2]
      from Some \<open>r = Some e\<close> i i2 second show ?thesis
        by (cases old; cases r2) (auto simp: engage_cover_def)
    qed
  qed
qed

lemma inv_cover_for_start: "pm_inv s \<Longrightarrow> pm_inv (cover_for_start E cfg c l ip pin s)"
  unfolding cover_for_start_def Let_def
  by (auto intro!: inv_take_pending inv_engage_cover)

lemma engage_cover_session:
  "pm_posture (engage_cover E cfg ip pin p fb s) = pm_posture s \<or>
   (\<exists>b. pm_posture (engage_cover E cfg ip pin p fb s) = PendingStart b \<and> bs_host b = host_of cfg)"
  by (auto simp: engage_cover_def install_failclosed_cover_def Let_def act_def hold_pending_def
      split: option.splits prod.splits)

lemma cover_for_start_session:
  "posture_session (pm_posture s) = None \<Longrightarrow> posture_session (pm_posture (cover_for_start E cfg c l ip pin s)) = None"
proof -
  assume s: "posture_session (pm_posture s) = None"
  have e: "posture_session (pm_posture (engage_cover E cfg ip pin p fb t)) = None"
    if "posture_session (pm_posture t) = None" for t p fb
    using engage_cover_session [of E cfg ip pin p fb t] that by auto
  show ?thesis using s unfolding cover_for_start_def Let_def by (auto intro!: e)
qed

lemma inv_start_cancellable: "pm_inv s \<Longrightarrow> start_cancellable E cfg c s = (s', r) \<Longrightarrow> pm_inv s'"
proof -
  assume inv: "pm_inv s" and eq: "start_cancellable E cfg c s = (s', r)"
  let ?s1 = "start_entry cfg s"
  have i1: "pm_inv ?s1" by (rule inv_start_entry [OF inv])
  have fin: "pm_inv (commit_session x (take_pending t\<lparr>pm_udp := u, pm_ipv6 := v\<rparr>))" if "pm_inv t" for x t u v
    using inv_take_pending [OF that] take_pending_none [of t]
    unfolding commit_session_def by (intro pm_inv_no_guard) simp_all
  show ?thesis
  proof (cases "posture_session (pm_posture s) = None")
    case False
    with eq inv show ?thesis by (simp add: start_cancellable_def)
  next
    case True
    show ?thesis
    proof (cases "start_resolve E cfg ?s1")
      case (Inl e)
      with True eq i1 show ?thesis by (auto simp: start_cancellable_def Let_def split: if_splits)
    next
      case (Inr x)
      obtain ip pin where x: "x = (ip, pin)" by force
      let ?s2 = "cover_for_start E cfg c (standing_cover_expected E ?s1) ip pin ?s1"
      obtain s3 y where st: "start_inner E cfg ip (ech_candidate cfg pin) (posture_pending (pm_posture ?s2) \<noteq> None)
          (standing_cover_expected E ?s1) ?s2 = (s3, y)" by force
      have "pm_inv s3"
        by (rule inv_quiet [OF inv_cover_for_start [OF i1] quiet_start_inner [OF st]])
      with True Inr x st eq show ?thesis
        by (cases y) (auto simp: start_cancellable_def Let_def inv_take_pending fin split: if_splits)
    qed
  qed
qed

lemma inv_stop_with: "pm_inv s \<Longrightarrow> stop_with E ev s = (s', r) \<Longrightarrow> pm_inv s'"
proof -
  assume inv: "pm_inv s" and eq: "stop_with E ev s = (s', r)"
  let ?s0 = "if pm_has_state_dir s then act (EnterPhase PersistTarget) s else s"
  obtain s1 t where p: "persist_session_event E ev ?s0 = (s1, t)" by force
  have i1: "pm_inv s1"
    by (rule inv_quiet [OF inv quiet_trans [OF _ quiet_persist [OF p]]]) auto
  show ?thesis
  proof (cases "pm_posture s1")
    case Idle
    with eq p i1 show ?thesis by (simp add: stop_with_def)
  next
    case (PendingStart b)
    with eq p i1 show ?thesis
      by (auto simp: stop_with_def Let_def act_def pm_inv_def one_guard_def guarded_def guard_step_def
          split: cover_disposition.splits)
  next
    case (Session x)
    obtain s2 res where w: "stop_session_work E x (s1\<lparr>pm_posture := Idle\<rparr>) = (s2, res)" by force
    from Session i1 have "pm_inv (s1\<lparr>pm_posture := Idle\<rparr>)" by (intro pm_inv_no_guard) simp_all
    from inv_quiet [OF inv_quiet [OF this quiet_work [OF w]] quiet_settle] Session eq p w
    show ?thesis by (auto simp: stop_with_def Let_def)
  qed
qed

lemma inv_reload: "pm_inv s \<Longrightarrow> reload E cfg s = (s', r) \<Longrightarrow> pm_inv s'"
proof -
  assume inv: "pm_inv s" and eq: "reload E cfg s = (s', r)"
  have "pm_inv (session_swap_rules us s)" for us
    using inv
    by (auto simp: session_swap_rules_def pm_inv_def act_def one_guard_def guarded_def guard_step_def split: posture.splits)
  moreover obtain s1 x where "stop_with E Blipped s = (s1, x)" by force
  moreover from calculation(2) have "pm_inv s1" by (rule inv_stop_with [OF inv])
  ultimately show ?thesis
    using eq inv inv_start_cancellable [OF inv] inv_start_cancellable [OF \<open>pm_inv s1\<close>]
    by (auto simp: reload_def start_def split: option.splits if_splits)
qed

lemma inv_turn_off: "pm_inv s \<Longrightarrow> turn_lockdown_off E s = (s', r) \<Longrightarrow> pm_inv s'"
proof -
  assume inv: "pm_inv s" and eq: "turn_lockdown_off E s = (s', r)"
  obtain s1 x where rel: "release_all_covers E (take_pending s) = (s1, x)" by force
  have i1: "pm_inv s1" by (rule inv_quiet [OF inv_take_pending [OF inv] quiet_release [OF rel]])
  obtain s2 y where st: "set_lockdown_intent E False (set_standing_cover_adopted False s1) = (s2, y)" by force
  have "pm_inv s2"
    by (rule inv_quiet [OF _ quiet_set_intent [OF st]]) (simp add: set_standing_cover_adopted_def i1)
  with eq rel st i1 show ?thesis by (auto simp: turn_lockdown_off_def split: option.splits)
qed

section \<open>Every history of the manager\<close>

text \<open>
  The steps of a manager's life: its own operations, startup recovery recording its claim, the
  escape's release (which takes no lock and leaves the invalidation mark), and writes to the
  state directory by others.
\<close>

inductive pm_step :: "pm_env \<Rightarrow> pm \<Rightarrow> pm \<Rightarrow> bool" for E where
  step_start: "start_cancellable E cfg covered s = (s', r) \<Longrightarrow> pm_step E s s'"
| step_stop: "stop_with E ev s = (s', r) \<Longrightarrow> pm_step E s s'"
| step_reload: "reload E cfg s = (s', r) \<Longrightarrow> pm_step E s s'"
| step_turn_off: "turn_lockdown_off E s = (s', r) \<Longrightarrow> pm_step E s s'"
| step_intent: "set_lockdown_intent E b s = (s', r) \<Longrightarrow> pm_step E s s'"
| step_health: "check_health E s = (s', ev) \<Longrightarrow> pm_step E s s'"
| step_recovered: "pm_step E s (set_standing_cover_adopted b s)"
| step_escape: "pm_step E s ((act (ReleaseAllCovers success) s)\<lparr>pm_invalidated := True\<rparr>)"
| step_others: "pm_step E s (s\<lparr>pm_dir := w\<rparr>)"

lemma inv_pm_step: "pm_step E s s' \<Longrightarrow> pm_inv s \<Longrightarrow> pm_inv s'"
proof (induction rule: pm_step.induct)
  case (step_health s s' ev)
  then show ?case by (auto simp: check_health_def split: option.splits if_splits)
next
  case (step_intent b s s' r)
  then show ?case by (metis inv_quiet quiet_set_intent)
next
  case (step_escape s success)
  then have "pm_inv (act (ReleaseAllCovers success) s)"
    by (rule inv_quiet [OF _ quiet_act [OF quiet_refl]]) simp
  then show ?case by simp
qed (simp_all add: set_standing_cover_adopted_def,
     (metis inv_start_cancellable inv_stop_with inv_reload inv_turn_off)+)

lemma inv_reachable: "(pm_step E)\<^sup>*\<^sup>* s s' \<Longrightarrow> pm_inv s \<Longrightarrow> pm_inv s'"
  by (induction rule: rtranclp_induct) (auto intro: inv_pm_step)

lemma inv_new [simp]: "pm_inv (new_with_dns d w)"
  by (simp add: pm_inv_def new_with_dns_def one_guard_def guarded_def)

section \<open>What a failed start rolls back\<close>

text \<open>The guards alive after a list of calls, from the calls alone.\<close>

definition hold_step :: "held \<Rightarrow> action \<Rightarrow> held" where
  "hold_step h a =
     (case a of
        StartPlugins _ b \<Rightarrow> h\<lparr>h_plugins := b \<or> h_plugins h\<rparr>
      | DropPlugins \<Rightarrow> h\<lparr>h_plugins := False\<rparr>
      | StartProxy b \<Rightarrow> h\<lparr>h_proxy := b \<or> h_proxy h\<rparr>
      | DropProxy \<Rightarrow> h\<lparr>h_proxy := False\<rparr>
      | NewDispatcher b \<Rightarrow> h\<lparr>h_dispatcher := b \<or> h_dispatcher h\<rparr>
      | ShutdownDispatcher \<Rightarrow> h\<lparr>h_dispatcher := False\<rparr>
      | InstallRoutes b \<Rightarrow> h\<lparr>h_routes := b \<or> h_routes h\<rparr>
      | DropRoutes \<Rightarrow> h\<lparr>h_routes := False\<rparr>
      | InstallLockdown b \<Rightarrow> h\<lparr>h_lockdown := b \<or> h_lockdown h\<rparr>
      | DropLockdown \<Rightarrow> h\<lparr>h_lockdown := False\<rparr>
      | _ \<Rightarrow> h)"

definition nothing_held :: held where
  "nothing_held = \<lparr>h_plugins = False, h_proxy = False, h_dispatcher = False, h_routes = False, h_lockdown = False\<rparr>"

definition holds :: "nat \<Rightarrow> pm \<Rightarrow> held" where
  "holds n s = foldl hold_step nothing_held (drop n (pm_trace s))"

lemma holds_act [simp]: "n \<le> length (pm_trace s) \<Longrightarrow> holds n (act a s) = hold_step (holds n s) a"
  by (simp add: holds_def act_def)

lemma holds_fields [simp]: "holds n (s\<lparr>pm_dir := w\<rparr>) = holds n s"
  by (simp add: holds_def)

lemma length_act [simp]: "length (pm_trace (act a s)) = Suc (length (pm_trace s))"
  by (simp add: act_def)

lemma holds_unwind:
  "n \<le> length (pm_trace s) \<Longrightarrow> holds n (unwind (holds n s) s) = nothing_held"
  by (cases "holds n s") (auto simp: unwind_def act_if_def hold_step_def nothing_held_def)

lemma holds_promote [simp]: "holds n (promote_adopted_claim E s) = holds n s"
  by (auto simp: promote_adopted_claim_def set_lockdown_intent_def holds_def
      split: option.splits intent.splits prod.splits update_result.splits)

lemma quiet_length: "quiet s s' \<Longrightarrow> length (pm_trace s) \<le> length (pm_trace s')"
  by (auto simp: quiet_def)

text \<open>
  The contract of a phase: entered with the guards \<open>h\<close> alive, it ends with none alive when it
  fails and with guards that satisfy \<open>P\<close> when it goes on.
\<close>

definition phase_ok :: "nat \<Rightarrow> pm \<times> (proxy_error, 'a) result \<Rightarrow> ('a \<Rightarrow> held \<Rightarrow> bool) \<Rightarrow> bool" where
  "phase_ok n m P \<longleftrightarrow> n \<le> length (pm_trace (fst m)) \<and>
     (case snd m of Err _ \<Rightarrow> holds n (fst m) = nothing_held | Ok a \<Rightarrow> P a (holds n (fst m)))"

lemma length_unwind: "length (pm_trace s) \<le> length (pm_trace (unwind h s))"
  by (simp add: unwind_def act_if_def)

lemma phase_ok_abort:
  "n \<le> length (pm_trace s) \<Longrightarrow> h = holds n s \<Longrightarrow> phase_ok n (abort h e s) P"
  using holds_unwind [of n s] length_unwind [of s h] by (simp add: phase_ok_def abort_def)

lemma phase_ok_bind:
  assumes "phase_ok n m P" "\<And>s a. n \<le> length (pm_trace s) \<Longrightarrow> P a (holds n s) \<Longrightarrow> phase_ok n (f a s) Q"
  shows "phase_ok n (pm_bind m f) Q"
  using assms by (cases m; cases "snd m") (auto simp: phase_ok_def pm_bind_def)

lemma phase_start_plugins: "phase_ok (length (pm_trace s)) (start_plugins E cfg ip ech s)
    (\<lambda>(h, _) hh. hh = h \<and> \<not> h_proxy h \<and> \<not> h_dispatcher h \<and> \<not> h_routes h \<and> \<not> h_lockdown h)"
proof -
  let ?n = "length (pm_trace s)"
  have s: "holds ?n s = nothing_held" by (simp add: holds_def)
  have a: "holds ?n (act (StartPlugins opts True) s) = nothing_held\<lparr>h_plugins := True\<rparr>"
    "holds ?n (act (StartPlugins opts False) s) = nothing_held" for opts
    by (simp_all add: s hold_step_def nothing_held_def)
  show ?thesis
  proof (cases "se_plugin (pc_server cfg)")
    case None
    then show ?thesis
      unfolding start_plugins_def Let_def
      using s by (auto split: option.splits intro!: phase_ok_abort simp: phase_ok_def [of _ "(_, _)"] nothing_held_def)
  next
    case (Some n)
    obtain s1 r1 where c: "start_plugin_chain E cfg n ech s = (s1, r1)" by force
    from start_plugin_chain_cases [OF c] show ?thesis
      unfolding start_plugins_def Let_def
      using s a c Some by (auto split: option.splits intro!: phase_ok_abort simp: phase_ok_def [of _ "(_, _)"] nothing_held_def)
  qed
qed

lemma phase_start_proxy_task:
  "n \<le> length (pm_trace s) \<Longrightarrow> holds n s = h \<Longrightarrow> phase_ok n (start_proxy_task E cfg h s) (\<lambda>h' hh. hh = h' \<and> h' = h\<lparr>h_proxy := True\<rparr>)"
  unfolding start_proxy_task_def Let_def
  by (auto split: option.splits intro!: phase_ok_abort simp: phase_ok_def [of _ "(_, _)"] hold_step_def)

lemma phase_start_forwarder:
  "n \<le> length (pm_trace s) \<Longrightarrow> holds n s = h \<Longrightarrow> phase_ok n (start_forwarder E cfg tp ex h s) (\<lambda>_ hh. hh = h)"
  unfolding start_forwarder_def Let_def
  by (auto split: sum.splits bool.splits self_test.splits intro!: phase_ok_abort simp: phase_ok_def [of _ "(_, _)"])

lemma phase_start_routes:
  "n \<le> length (pm_trace s) \<Longrightarrow> holds n s = h \<Longrightarrow> phase_ok n (start_routes E h s) (\<lambda>h' hh. hh = h' \<and> h' = h\<lparr>h_dispatcher := True, h_routes := True\<rparr>)"
  unfolding start_routes_def Let_def
  by (auto split: option.splits dispatcher_start.splits intro!: phase_ok_abort
      simp: phase_ok_def [of _ "(_, _)"] hold_step_def)

lemma phase_start_lockdown:
  assumes "n \<le> length (pm_trace s)" "holds n s = h"
  shows "phase_ok n (start_lockdown E ex h s) (\<lambda>h' hh. hh = h' \<and> (\<exists>b. h' = h\<lparr>h_lockdown := b\<rparr>))"
proof -
  have l: "length (pm_trace t) \<le> length (pm_trace (promote_adopted_claim E t))" for t
    by (rule quiet_length [OF quiet_promote])
  have same: "\<exists>b. h = h\<lparr>h_lockdown := b\<rparr>" by (rule exI [of _ "h_lockdown h"]) simp
  show ?thesis
    unfolding start_lockdown_def Let_def
    using same assms l [of "act (InstallLockdown True) (s\<lparr>pm_dir := e_meanwhile E (pm_dir s)\<rparr>)"]
    by (auto split: option.splits intro!: phase_ok_abort simp: phase_ok_def [of _ "(_, _)"] hold_step_def)
qed

lemma phase_start_dns:
  "n \<le> length (pm_trace s) \<Longrightarrow> holds n s = h \<Longrightarrow> phase_ok n (start_dns E f h s) (\<lambda>_ hh. hh = h)"
  unfolding start_dns_def
  by (auto split: option.splits dns_error.splits intro!: phase_ok_abort simp: phase_ok_def [of _ "(_, _)"] hold_step_def)

text \<open>What a running session must hold, against what its record says.\<close>

definition session_holds :: "running_state \<Rightarrow> held \<Rightarrow> bool" where
  "session_holds r h \<longleftrightarrow> h_proxy h \<and> h_plugins h = rs_plugin_chain r \<and>
     h_dispatcher h = (rs_dispatcher r \<noteq> None) \<and> h_routes h = rs_routes r \<and> h_lockdown h = rs_lockdown r"

lemma phase_start_full:
  assumes "n \<le> length (pm_trace s)" "holds n s = h" "\<not> h_proxy h" "\<not> h_dispatcher h" "\<not> h_routes h" "\<not> h_lockdown h"
  shows "phase_ok n (start_full E cfg ip tp ex h udp s) session_holds"
proof (cases "e_gateway E (pm_trace s) ip")
  case (Inl e)
  with assms show ?thesis by (simp add: start_full_def phase_ok_abort)
next
  case (Inr ipv6)
  show ?thesis
    unfolding start_full_def Inr sum.case
    apply (rule phase_ok_bind [OF phase_start_proxy_task [OF assms(1,2)]])
    apply (rule phase_ok_bind [OF phase_start_forwarder], assumption, erule conjunct1)
    apply (rule phase_ok_bind [OF phase_start_routes], assumption, simp)
    apply (rule phase_ok_bind [OF phase_start_lockdown], assumption, erule conjunct1)
    apply (rule phase_ok_bind [OF phase_start_dns], assumption, erule conjunct1)
    using assms(3-6)
    apply (auto simp: phase_ok_def session_holds_def)
    done
qed

lemma phase_start_inner:
  "phase_ok (length (pm_trace s)) (start_inner E cfg ip ech tp ex s) session_holds"
  unfolding start_inner_def
proof (rule phase_ok_bind [OF phase_start_plugins])
  fix t and a :: "held \<times> bool"
  assume l: "length (pm_trace s) \<le> length (pm_trace t)"
    and "(case a of (h, _) \<Rightarrow> \<lambda>hh. hh = h \<and> \<not> h_proxy h \<and> \<not> h_dispatcher h \<and> \<not> h_routes h \<and> \<not> h_lockdown h)
      (holds (length (pm_trace s)) t)"
  then obtain h udp where h: "a = (h, udp)" "holds (length (pm_trace s)) t = h" "\<not> h_proxy h" "\<not> h_dispatcher h"
    "\<not> h_routes h" "\<not> h_lockdown h" by (cases a) simp
  have "phase_ok (length (pm_trace s)) (start_socks_only E cfg h udp t) session_holds"
    unfolding start_socks_only_def
    by (rule phase_ok_bind [OF phase_start_proxy_task [OF l h(2)]]) (use h in \<open>simp add: phase_ok_def session_holds_def\<close>)
  with phase_start_full [OF l h(2-6)] h(1)
  show "phase_ok (length (pm_trace s)) ((case a of (h, udp) \<Rightarrow> \<lambda>s1.
       if pc_tunnel_mode cfg = SocksOnly then start_socks_only E cfg h udp s1
       else start_full E cfg ip tp ex h udp s1) t) session_holds"
    by simp
qed

section \<open>The phases a stop enters\<close>

fun phases :: "trace \<Rightarrow> stop_phase list" where
  "phases [] = []"
| "phases (a # tr) = (case a of EnterPhase ph \<Rightarrow> ph # phases tr | _ \<Rightarrow> phases tr)"

lemma phases_append [simp]: "phases (xs @ ys) = phases xs @ phases ys"
  by (induction xs) (auto split: action.splits)

lemma trace_persist: "persist_session_event E ev s = (s1, t) \<Longrightarrow> pm_trace s1 = pm_trace s \<and> pm_posture s1 = pm_posture s"
  by (auto simp: persist_session_event_def Let_def split: if_splits prod.splits update_result.splits)

lemma trace_disposition:
  "\<exists>tr. pm_trace (apply_cover_disposition E d c s) = pm_trace s @ tr \<and> phases tr = [] \<and>
     (d = ReleaseNow \<longrightarrow> (\<exists>b. ReleaseAllCovers b \<in> set tr))"
  by (auto simp: apply_cover_disposition_def release_all_covers_def set_standing_cover_adopted_def Let_def act_def
      split: cover_disposition.splits)

lemma trace_settle:
  "\<exists>tr. pm_trace (settle_session E ev t l s) = pm_trace s @ EnterPhase SettleCover # tr \<and> phases tr = [] \<and>
     (ev = UserStopped \<longrightarrow> (\<exists>b. ReleaseAllCovers b \<in> set tr))"
proof -
  let ?s1 = "act (EnterPhase SettleCover) s"
  let ?d = "teardown_cover_disposition ev (effective_lockdown_intent E ?s1) (e_presence E (pm_trace ?s1)) t"
  obtain tr where "pm_trace (apply_cover_disposition E ?d l ?s1) = pm_trace ?s1 @ tr" "phases tr = []"
    "?d = ReleaseNow \<longrightarrow> (\<exists>b. ReleaseAllCovers b \<in> set tr)"
    using trace_disposition [of E ?d l ?s1] by blast
  then show ?thesis
    by (intro exI [of _ tr]) (auto simp: settle_session_def Let_def act_def)
qed

lemma trace_work:
  assumes "stop_session_work E r s = (s', res)"
  shows "\<exists>tr. pm_trace s' = pm_trace s @ tr \<and>
    phases tr = (if rs_dns r then [RestoreDns] else []) @ (if rs_dispatcher r \<noteq> None then [StopEngine] else []) @
      (if rs_plugin_chain r then [ReapPlugins] else []) @ [StopProxy] @ (if rs_routes r then [TearDownRoutes] else []) \<and>
    (rs_routes r \<longrightarrow> DropRoutes \<in> set tr)"
  using assms
  by (auto simp: stop_session_work_def Let_def run_phase_def act_def)

lemma stop_cases:
  assumes "stop_with E ev s = (s', r)"
  obtains (idle) "pm_posture s = Idle"
      "pm_trace s' = pm_trace s @ (if pm_has_state_dir s then [EnterPhase PersistTarget] else [])"
  | (pending) b where "pm_posture s = PendingStart b"
      "pm_trace s' = pm_trace s @ (if pm_has_state_dir s then [EnterPhase PersistTarget] else []) @
        [EnterPhase SettleCover, case transient_cover_disposition ev of ReleaseNow \<Rightarrow> DropTransient | KeepEngaged \<Rightarrow> DisarmTransient]"
  | (session) x wk st where "pm_posture s = Session x"
      "pm_trace s' = pm_trace s @ (if pm_has_state_dir s then [EnterPhase PersistTarget] else []) @ wk @
         EnterPhase SettleCover # st"
      "phases wk = (if rs_dns x then [RestoreDns] else []) @ (if rs_dispatcher x \<noteq> None then [StopEngine] else []) @
      (if rs_plugin_chain x then [ReapPlugins] else []) @ [StopProxy] @ (if rs_routes x then [TearDownRoutes] else [])"
      "phases st = []" "rs_routes x \<Longrightarrow> DropRoutes \<in> set wk"
      "ev = UserStopped \<Longrightarrow> \<exists>b. ReleaseAllCovers b \<in> set st"
proof -
  let ?s0 = "if pm_has_state_dir s then act (EnterPhase PersistTarget) s else s"
  obtain s1 t where p: "persist_session_event E ev ?s0 = (s1, t)" by force
  from trace_persist [OF p] have t1: "pm_trace s1 = pm_trace s @ (if pm_has_state_dir s then [EnterPhase PersistTarget] else [])"
    "pm_posture s1 = pm_posture s" by (auto simp: act_def)
  show thesis
  proof (cases "pm_posture s")
    case Idle
    with assms p t1 show thesis by (intro idle) (auto simp: stop_with_def)
  next
    case (PendingStart b)
    with assms p t1 show thesis by (intro pending [of b]) (auto simp: stop_with_def Let_def act_def)
  next
    case (Session x)
    obtain s2 res where w: "stop_session_work E x (s1\<lparr>pm_posture := Idle\<rparr>) = (s2, res)" by force
    with Session assms p t1 have s': "s' = settle_session E ev t (rs_lockdown x) s2"
      by (auto simp: stop_with_def Let_def)
    obtain wk where wk: "pm_trace s2 = pm_trace s1 @ wk" and ph: "phases wk = (if rs_dns x then [RestoreDns] else []) @
        (if rs_dispatcher x \<noteq> None then [StopEngine] else []) @ (if rs_plugin_chain x then [ReapPlugins] else []) @
        [StopProxy] @ (if rs_routes x then [TearDownRoutes] else [])" and dr: "rs_routes x \<longrightarrow> DropRoutes \<in> set wk"
      using trace_work [OF w] by auto
    obtain st where "pm_trace s' = pm_trace s2 @ EnterPhase SettleCover # st" "phases st = []"
      "ev = UserStopped \<longrightarrow> (\<exists>b. ReleaseAllCovers b \<in> set st)"
      using trace_settle [of E ev t "rs_lockdown x" s2] s' by blast
    with Session t1 wk ph dr show thesis by (intro session [of x wk st]) auto
  qed
qed

lemma stop_idle: "stop_with E ev s = (s', r) \<Longrightarrow> pm_posture s' = Idle"
proof -
  assume eq: "stop_with E ev s = (s', r)"
  obtain s1 t where p: "persist_session_event E ev
      (if pm_has_state_dir s then act (EnterPhase PersistTarget) s else s) = (s1, t)" by force
  show ?thesis
  proof (cases "pm_posture s1")
    case (Session x)
    obtain s2 res where w: "stop_session_work E x (s1\<lparr>pm_posture := Idle\<rparr>) = (s2, res)" by force
    from quiet_trans [OF quiet_work [OF w] quiet_settle] have
      "pm_posture (settle_session E ev t (rs_lockdown x) s2) = Idle" by (simp add: quiet_def)
    with Session eq p w show ?thesis by (auto simp: stop_with_def Let_def)
  qed (use eq p in \<open>auto simp: stop_with_def Let_def act_def\<close>)
qed

section \<open>Outcomes of a start\<close>

lemma engage_cover_pending:
  assumes "\<forall>tr ip p. e_failclosed E tr ip p = None"
  shows "\<exists>b. pm_posture (engage_cover E cfg ip pin permit fb s) = PendingStart b \<and> bs_host b = host_of cfg"
  using assms by (simp add: engage_cover_def install_failclosed_cover_def Let_def hold_pending_def)

lemma cover_for_start_pending:
  assumes "\<forall>tr ip p. e_failclosed E tr ip p = None"
    and "\<And>b. posture_pending (pm_posture s) = Some b \<Longrightarrow> bs_host b = host_of cfg"
  shows "\<exists>b. pm_posture (cover_for_start E cfg True False ip pin s) = PendingStart b \<and> bs_host b = host_of cfg"
proof (cases "posture_pending (pm_posture s) \<noteq> None \<and> repair_fallback cfg True False (ech_resolver_permit E cfg pin) s = None")
  case True
  then obtain b where "pm_posture s = PendingStart b" by (cases "pm_posture s") auto
  with True assms(2) [of b] show ?thesis by (simp add: cover_for_start_def Let_def)
next
  case False
  with engage_cover_pending [OF assms(1)] show ?thesis
    by (auto simp: cover_for_start_def Let_def)
qed

text \<open>The three ways a start from a stopped manager ends.\<close>

lemma start_cases:
  assumes "start_cancellable E cfg c s = (s', r)" "posture_session (pm_posture s) = None"
  obtains (unresolved) e where "start_resolve E cfg (start_entry cfg s) = Err e" "r = Some e"
      "pm_posture s' = pm_posture (start_entry cfg s)"
  | (failed) ip pin e where "start_resolve E cfg (start_entry cfg s) = Ok (ip, pin)" "r = Some e" "e \<noteq> Cancelled"
      "pm_posture s' = pm_posture (cover_for_start E cfg c (standing_cover_expected E (start_entry cfg s)) ip pin (start_entry cfg s))"
      "pm_last_error s' = Some (FromError e)"
  | (cancelled) "r = Some Cancelled" "pm_posture s' = Idle"
  | (started) x where "r = None" "pm_posture s' = Session x" "pm_active_config s' = Some cfg" "pm_last_error s' = None"
proof (cases "start_resolve E cfg (start_entry cfg s)")
  case (Inl e)
  with assms show thesis by (intro unresolved [of e]) (auto simp: start_cancellable_def Let_def split: if_splits)
next
  case (Inr y)
  obtain ip pin where y: "y = (ip, pin)" by force
  let ?s1 = "start_entry cfg s"
  let ?s2 = "cover_for_start E cfg c (standing_cover_expected E ?s1) ip pin ?s1"
  obtain s3 z where st: "start_inner E cfg ip (ech_candidate cfg pin) (posture_pending (pm_posture ?s2) \<noteq> None)
      (standing_cover_expected E ?s1) ?s2 = (s3, z)" by force
  have p3: "pm_posture s3 = pm_posture ?s2" using quiet_start_inner [OF st] by (simp add: quiet_def)
  have "posture_session (pm_posture ?s2) = None"
    by (rule cover_for_start_session) (simp add: assms(2))
  then have idle: "pm_posture (take_pending s3) = Idle" by (intro take_pending_idle) (simp only: p3)
  show thesis
  proof (cases z)
    case (Inl e)
    with assms Inr y st p3 idle show thesis
      by (cases "e = Cancelled") (auto simp: start_cancellable_def Let_def intro: cancelled failed [of ip pin e])
  next
    case (Inr x)
    with assms \<open>start_resolve E cfg ?s1 = Inr y\<close> y st show thesis
      by (intro started [of x]) (auto simp: start_cancellable_def Let_def commit_session_def)
  qed
qed

lemma unresolved_idle:
  assumes "posture_session (pm_posture s) = None" "start_resolve E cfg (start_entry cfg s) = Err e"
  shows "pm_posture (start_entry cfg s) = Idle"
proof (cases "pm_posture (start_entry cfg s)")
  case (PendingStart b)
  with start_entry_host [of cfg s b] assms(2) show ?thesis by (simp add: start_resolve_def)
next
  case (Session x)
  with start_entry_session [OF assms(1), of cfg] show ?thesis by simp
qed

lemma stop_dir:
  assumes "stop_with E ev s = (s', r)"
  shows "pm_dir s' = pm_dir (fst (persist_session_event E ev
    (if pm_has_state_dir s then act (EnterPhase PersistTarget) s else s)))"
proof -
  have d: "pm_dir (apply_cover_disposition E d c t) = pm_dir t" for d c t
    by (auto simp: apply_cover_disposition_def release_all_covers_def set_standing_cover_adopted_def Let_def act_def
        split: cover_disposition.splits)
  have "pm_dir (settle_session E ev t l u) = pm_dir u" for t l u
    by (simp add: settle_session_def Let_def d act_def)
  moreover have "stop_session_work E x t = (u, res) \<Longrightarrow> pm_dir u = pm_dir t" for x t u res
    by (auto simp: stop_session_work_def Let_def run_phase_def act_def)
  ultimately show ?thesis
    using assms by (auto simp: stop_with_def Let_def act_def split: prod.splits posture.splits)
qed

lemma set_intent_effect:
  assumes "codec_roundtrips (e_lockdown_codec E)" "set_lockdown_intent E b s = (s', r)"
  shows "if r = None then load_intent (e_lockdown_codec E) no_faults (pm_dir s') = Some (if b then IntentOn else IntentOff)
    else load_intent (e_lockdown_codec E) no_faults (pm_dir s') = load_intent (e_lockdown_codec E) no_faults (pm_dir s)"
proof (cases "pm_has_state_dir s")
  case True
  obtain w x where e: "set_enabled (e_lockdown_codec E) (e_fs E (pm_trace s)) b (pm_dir s) = (w, x)" by force
  from set_enabled_effect [OF assms(1) e] True e assms(2) show ?thesis
    by (cases x) (auto simp: set_lockdown_intent_def)
qed (use assms in \<open>auto simp: set_lockdown_intent_def\<close>)

section \<open>A sample environment\<close>

definition sample_config :: proxy_config where
  "sample_config =
     \<lparr>pc_server = \<lparr>se_id = ''i'', se_name = ''n'', se_server = ''h'', se_port = 1, se_method = ''m'', se_password = ''p'',
        se_plugin = None, se_plugin_opts = None, se_validation = None\<rparr>,
      pc_local_port = 1, pc_tunnel_mode = Full, pc_filters = [], pc_dns = \<lparr>dns_enabled = True, dns_servers = [V4 1],
        dns_protocol = Https, allow_insecure_bootstrap = False\<rparr>,
      pc_proxy_socks5 = True, pc_proxy_http = False, pc_local_port_http = 2, pc_diagnostic_plugin_tap = False\<rparr>"

definition sample_codec :: "proxy_config target_file codec" where
  "sample_codec =
     \<lparr>cd_json = sample_json,
      cd_from_slice = (\<lambda>bs. if bs = ''1-'' then Ok \<lparr>tf_target = PersistedOff\<rparr>
        else if bs = ''1c'' then Ok \<lparr>tf_target = PersistedConnected sample_config\<rparr> else Err (framing ''data'')),
      cd_to_vec = (\<lambda>v x. case tf_target x of
          PersistedOff \<Rightarrow> Ok ''1-''
        | PersistedConnected c \<Rightarrow> if c = sample_config then Ok ''1c'' else Err (framing ''data''))\<rparr>"

lemma sample_codec_roundtrips [simp]: "codec_roundtrips sample_codec"
  by (auto simp: codec_roundtrips_def sample_codec_def split: persisted_target.splits if_splits
      intro!: target_file.equality)

text \<open>Every call succeeds and nothing is cancelled.\<close>

definition sample_env :: pm_env where
  "sample_env =
     \<lparr>e_display = (\<lambda>_. []), e_lockdown_codec = sample_lockdown, e_target_codec = sample_codec,
      e_fs = (\<lambda>_. no_faults), e_cancelled = (\<lambda>_. False), e_meanwhile = (\<lambda>w. w), e_presence = (\<lambda>_. AbsentCover),
      e_resolve = (\<lambda>_ _. Ok (V4 7, Answered (V4 1))), e_url_host = (\<lambda>_. None),
      e_failclosed = (\<lambda>_ _ _. None), e_plugins = (\<lambda>_ _ _. Ok True), e_ss_config = (\<lambda>_ _. None),
      e_gateway = (\<lambda>_ _. Ok True), e_start_proxy = (\<lambda>_ _. None), e_local_dns = (\<lambda>_ _. Ok True),
      e_self_test = (\<lambda>_ _. SelfTestOk), e_dispatcher = (\<lambda>_. DispatcherUp), e_install_routes = (\<lambda>_. None),
      e_install_lockdown = (\<lambda>_. None), e_apply_dns = (\<lambda>_. None), e_release_all = (\<lambda>_. None),
      e_stop_proxy = (\<lambda>_. None), e_proxy_alive = (\<lambda>_. True), e_plugins_alive = (\<lambda>_. True)\<rparr>"

definition sample_pm :: pm where
  "sample_pm = new_with_dns True empty_world"

definition failing_env :: pm_env where
  "failing_env = sample_env\<lparr>e_install_routes := \<lambda>_. Some (RoutingFailed ''routes'')\<rparr>"

section \<open>Properties\<close>

text \<open>
  C4. The transient cover over every history of the manager: it is never engaged while a
  guard of it is held, no guard is dropped or disarmed twice, and a guard is held exactly in
  the states the status reports as blocked until connected.
\<close>

theorem transient_cover_singleton:
  assumes "(pm_step E)\<^sup>*\<^sup>* (new_with_dns d w) s"
  shows "one_guard (pm_trace s) \<and> (guarded (pm_trace s) \<longleftrightarrow> blocked_until_connected s)"
  using inv_reachable [OF assms inv_new] by (simp add: pm_inv_def blocked_until_connected_def)

theorem transient_cover_singleton_witness:
  "guarded (pm_trace (fst (start_cancellable failing_env sample_config True sample_pm)))"
proof -
  have "(pm_step failing_env)\<^sup>*\<^sup>* (new_with_dns True empty_world)
      (fst (start_cancellable failing_env sample_config True sample_pm))"
    by (rule r_into_rtranclp, rule step_start [of _ sample_config True _ _ "snd (start_cancellable failing_env sample_config True sample_pm)"])
       (simp add: sample_pm_def)
  from transient_cover_singleton [OF this]
  have "guarded (pm_trace (fst (start_cancellable failing_env sample_config True sample_pm))) =
    blocked_until_connected (fst (start_cancellable failing_env sample_config True sample_pm))" by simp
  also have "\<dots> = True" by code_simp
  finally show ?thesis by simp
qed

text \<open>
  C5. A start either commits everything it acquired or rolls all of it back: when
  \<^verbatim>\<open>start_inner\<close> fails or is cancelled, at whichever phase, no plugin chain, proxy task,
  dispatcher, route or standing cover of this attempt is left; when it succeeds, the guards
  alive are exactly those the session records.
\<close>

theorem start_all_or_nothing:
  "(case start_inner E cfg ip ech transient_pending expected s of
      (s', Err e) \<Rightarrow> holds (length (pm_trace s)) s' = nothing_held
    | (s', Ok r) \<Rightarrow> session_holds r (holds (length (pm_trace s)) s'))"
  using phase_start_inner [of s E cfg ip ech transient_pending expected]
  by (auto simp: phase_ok_def split: prod.splits sum.splits)

text \<open>
  The phases a stop reports are entered in the documented teardown order, without
  repetition, whatever the session holds and whatever the event; the cover is settled last.
\<close>

theorem stop_phases_in_order:
  assumes "stop_with E ev s = (s', r)"
  shows "\<exists>tr. pm_trace s' = pm_trace s @ tr \<and> sorted_wrt (<) (map checkpoint (phases tr))"
  using assms by (cases rule: stop_cases) (auto split: cover_disposition.splits)

theorem stop_phases_in_order_witness:
  "\<exists>tr. pm_trace (fst (stop_with sample_env GaveUp (fst (start_cancellable sample_env sample_config True sample_pm)))) =
     pm_trace (fst (start_cancellable sample_env sample_config True sample_pm)) @ tr \<and>
     sorted_wrt (<) (map checkpoint (phases tr))"
  by (rule stop_phases_in_order [of sample_env GaveUp _ _
        "snd (stop_with sample_env GaveUp (fst (start_cancellable sample_env sample_config True sample_pm)))"]) simp



text \<open>
  C12. A covered start fails closed: when the server resolved, no standing cover is expected
  and the firewall accepts the cover, a start that fails for any reason but a cancellation
  leaves the host blocked, with the cover held for that very server.
\<close>

theorem covered_start_fails_closed:
  assumes "start_cancellable E cfg True s = (s', Some e)" "e \<noteq> Cancelled" "posture_session (pm_posture s) = None"
    and "start_resolve E cfg (start_entry cfg s) = Ok x" "\<not> standing_cover_expected E (start_entry cfg s)"
    and "\<forall>tr ip p. e_failclosed E tr ip p = None"
  shows "\<exists>b. pm_posture s' = PendingStart b \<and> bs_host b = host_of cfg"
  using assms(1,3)
proof (cases rule: start_cases)
  case (failed ip pin e')
  with cover_for_start_pending [OF assms(6), of "start_entry cfg s" cfg ip pin] start_entry_host assms(5) show ?thesis by simp
qed (use assms in auto)

theorem covered_start_fails_closed_witness:
  "\<exists>b. pm_posture (fst (start_cancellable failing_env sample_config True sample_pm)) = PendingStart b \<and>
     bs_host b = host_of sample_config"
proof (rule covered_start_fails_closed)
  show "start_cancellable failing_env sample_config True sample_pm =
      (fst (start_cancellable failing_env sample_config True sample_pm), Some (RoutingFailed ''routes''))"
    by (rule snd_eqD) code_simp
  show "start_resolve failing_env sample_config (start_entry sample_config sample_pm) = Ok (V4 7, Answered (V4 1))"
    by code_simp
  show "\<not> standing_cover_expected failing_env (start_entry sample_config sample_pm)" by code_simp
qed (simp_all add: sample_pm_def new_with_dns_def failing_env_def sample_env_def)

text \<open>
  A start that succeeds or is cancelled never leaves the host blocked by the transient
  cover: success leaves a session, with the configuration recorded and the error cleared, and
  a cancellation leaves the manager idle, wherever in the start it arrived.
\<close>

theorem start_success_or_cancel_releases:
  assumes "start_cancellable E cfg covered s = (s', r)" "posture_session (pm_posture s) = None"
  shows "(r = None \<longrightarrow> (\<exists>x. pm_posture s' = Session x) \<and> pm_active_config s' = Some cfg \<and> pm_last_error s' = None) \<and>
    (r = Some Cancelled \<longrightarrow> pm_posture s' = Idle)"
  using assms
proof (cases rule: start_cases)
  case (unresolved e)
  with unresolved_idle [OF assms(2)] show ?thesis by simp
qed auto

theorem start_success_or_cancel_releases_witness:
  "pm_active_config (fst (start_cancellable sample_env sample_config True sample_pm)) = Some sample_config"
proof -
  have "snd (start_cancellable sample_env sample_config True sample_pm) = None" by code_simp
  from start_success_or_cancel_releases [OF snd_eqD [OF this]] show ?thesis
    by (simp add: sample_pm_def new_with_dns_def)
qed

text \<open>
  The explicit disarm releases first and persists second: when the release fails, the
  recorded intent and the claim of a live cover are exactly as before, so the escape stays
  offered; when it succeeds, the claim is gone, and the intent reads off unless the write
  itself failed, which is reported as its own error and leaves the intent as it was.
\<close>

theorem disarm_releases_then_persists:
  assumes "codec_roundtrips (e_lockdown_codec E)" "turn_lockdown_off E s = (s', r)"
  shows "\<not> blocked_until_connected s' \<and>
    (case e_release_all E (pm_trace (take_pending s)) of
       Some e \<Rightarrow> r = Some e \<and> pm_dir s' = pm_dir s \<and> pm_adopted s' = pm_adopted s
     | None \<Rightarrow> \<not> pm_adopted s' \<and>
         (if r = None then load_intent (e_lockdown_codec E) no_faults (pm_dir s') = Some IntentOff
          else r = Some LockdownIntentNotPersisted \<and>
            load_intent (e_lockdown_codec E) no_faults (pm_dir s') = load_intent (e_lockdown_codec E) no_faults (pm_dir s)))"
proof (cases "e_release_all E (pm_trace (take_pending s))")
  case (Some e)
  with assms(2) show ?thesis
    by (auto simp: turn_lockdown_off_def release_all_covers_def Let_def act_def blocked_until_connected_def)
next
  case None
  let ?s1 = "set_standing_cover_adopted False (act (ReleaseAllCovers True) (take_pending s))"
  obtain s2 y where st: "set_lockdown_intent E False ?s1 = (s2, y)" by force
  with None assms(2) have s': "s' = s2" "r = (if y = None then None else Some LockdownIntentNotPersisted)"
    by (auto simp: turn_lockdown_off_def release_all_covers_def Let_def split: option.splits)
  have "\<not> pm_adopted s2 \<and> posture_pending (pm_posture s2) = None"
    using st by (auto simp: set_lockdown_intent_def set_standing_cover_adopted_def act_def
        split: if_splits prod.splits update_result.splits)
  moreover have "if y = None then load_intent (e_lockdown_codec E) no_faults (pm_dir s2) = Some IntentOff
     else load_intent (e_lockdown_codec E) no_faults (pm_dir s2) = load_intent (e_lockdown_codec E) no_faults (pm_dir s)"
    using set_intent_effect [OF assms(1) st] by (simp add: set_standing_cover_adopted_def act_def)
  ultimately show ?thesis using None s' by (simp add: blocked_until_connected_def)
qed

theorem disarm_releases_then_persists_witness:
  "load_intent sample_lockdown no_faults (pm_dir (fst (turn_lockdown_off sample_env sample_pm))) = Some IntentOff"
proof -
  have "snd (turn_lockdown_off sample_env sample_pm) = None" by code_simp
  moreover have "e_release_all sample_env tr = None" "e_lockdown_codec sample_env = sample_lockdown" for tr
    by (simp_all add: sample_env_def)
  ultimately show ?thesis
    using disarm_releases_then_persists [OF _ snd_eqD, of sample_env sample_pm None] by simp
qed

text \<open>
  What a stop does to the persisted target: afterwards it is either the old one (the
  write failed) or exactly the transition of the event, so that restarts, blips and shutdowns
  never move it and nothing but a user stop or a give-up can turn it off.
\<close>

theorem stop_moves_target:
  assumes "codec_roundtrips (e_target_codec E)" "stop_with E ev s = (s', r)" "pm_has_state_dir s"
    and "\<forall>tr. f_reader (e_fs E tr) = None \<and> f_read (e_fs E tr) = None \<and> f_probe (e_fs E tr) = None"
  shows "load_target (e_target_codec E) no_faults (pm_dir s') = load_target (e_target_codec E) no_faults (pm_dir s) \<or>
    load_target (e_target_codec E) no_faults (pm_dir s') =
      map_option (\<lambda>t. target_after t ev) (load_target (e_target_codec E) no_faults (pm_dir s))"
proof -
  let ?C = "e_target_codec E"
  let ?s0 = "act (EnterPhase PersistTarget) s"
  let ?fs = "e_fs E (pm_trace ?s0)"
  obtain w x where ap: "apply_target ?C ?fs (\<lambda>t. target_after t ev) (pm_dir s) = (w, x)" by force
  have "pm_dir s' = w"
    using stop_dir [OF assms(2)] assms(3) ap
    by (auto simp: persist_session_event_def Let_def act_def split: prod.splits update_result.splits)
  moreover note eff = apply_target_effect [OF assms(1) ap]
  have "load_target ?C no_faults w = load_target ?C no_faults (pm_dir s) \<or>
      load_target ?C no_faults w = map_option (\<lambda>t. target_after t ev) (load_target ?C no_faults (pm_dir s))"
  proof (cases x)
    case (UOk t u)
    with eff obtain ob where ob: "seen_by_update (target_schema ?C) ?fs (pm_dir s) = Some ob"
      "t = target_after (target_of (obs_loaded ob)) ev" by auto
    from seen_clean [OF ob(1)] assms(4) have "load_target ?C no_faults (pm_dir s) = Some (target_of (obs_loaded ob))"
      by (simp add: load_target_clean)
    with UOk eff ob(2) show ?thesis by (auto split: if_splits)
  qed (use eff in auto)
  ultimately show ?thesis by simp
qed

theorem stop_moves_target_witness:
  "load_target sample_codec no_faults (pm_dir (fst (stop_with sample_env CutoverRestart sample_pm))) =
   load_target sample_codec no_faults (pm_dir sample_pm)"
proof -
  have "load_target sample_codec no_faults (pm_dir sample_pm) = Some Off" by code_simp
  moreover have "\<forall>tr. f_reader (e_fs sample_env tr) = None \<and> f_read (e_fs sample_env tr) = None \<and> f_probe (e_fs sample_env tr) = None"
    "e_target_codec sample_env = sample_codec" "pm_has_state_dir sample_pm"
    by (simp_all add: sample_env_def no_faults_def sample_pm_def new_with_dns_def)
  ultimately show ?thesis
    using stop_moves_target [of sample_env CutoverRestart sample_pm "fst (stop_with sample_env CutoverRestart sample_pm)"
        "snd (stop_with sample_env CutoverRestart sample_pm)"]
    by simp
qed

section \<open>The permit and the plugin\<close>

lemma ech_candidate_own: "own_url (ech_candidate cfg pin)"
  by (auto simp: ech_candidate_def ech_doh_url_def own_url_def split: option.splits)


definition plugin_config :: proxy_config where
  "plugin_config = sample_config\<lparr>pc_server := (pc_server sample_config)\<lparr>se_plugin := Some ''ex-ray'', se_plugin_opts := Some ''tls''\<rparr>\<rparr>"


end
