(* ===== verification/Boot.thy ===== *)
theory Boot
  imports Proxy_Safety
begin

text \<open>
  The boot sequence: the cover half of route recovery (\<^verbatim>\<open>recover_routes_with\<close>,
  crates/tun-engine/src/routing.rs), recording its verdict on the manager
  (crates/bridge/src/route\_recovery.rs), and the one reconcile pass over the persisted target
  (\<^verbatim>\<open>reconcile_once\<close>, crates/bridge/src/reconciler.rs), in the order of
  crates/bridge/src/boot.rs. The route half of the recovery is in theory \<open>Routes\<close>; reaping the
  plugins a previous run left behind changes nothing these steps read.

  What the platform does for an adoption or a sweep (\<^verbatim>\<open>recover_lockdown\<close>) is code of the
  firewall modules: a sweep is the action \<open>ReleaseAllCovers\<close> whose outcome nobody reads; an
  adoption removes nothing.
\<close>

section \<open>Recovery of the standing cover\<close>

definition recover_cover :: "pm_env \<Rightarrow> pm \<Rightarrow> pm \<times> recovery" where
  "recover_cover E s =
     (let fs = e_fs E (pm_trace s);
          intent = (case load_intent (e_lockdown_codec E) fs (pm_dir s) of Some i \<Rightarrow> i | None \<Rightarrow> IntentUnreadable);
          presence = e_presence E (pm_trace s);
          decision = decide_cover_recovery intent presence;
          s1 = (if record_intent_on decision
                then s\<lparr>pm_dir := fst (set_enabled (e_lockdown_codec E) fs True (pm_dir s))\<rparr> else s);
          s2 = (if cover_action decision = Sweep
                then act (ReleaseAllCovers (e_release_all E (pm_trace s1) = None)) s1 else s1)
      in (s2, decision))"

text \<open>\<open>None\<close> is a recovery task that panicked.\<close>

definition record_recovery_outcome :: "recovery option \<Rightarrow> pm \<Rightarrow> pm" where
  "record_recovery_outcome outcome s =
     (case outcome of
        Some r \<Rightarrow> set_standing_cover_adopted (cover_action r = Adopt \<and> is_confirmed_live (rec_presence r)) s
      | None \<Rightarrow> set_standing_cover_adopted False s)"

section \<open>The reconcile pass\<close>

text \<open>
  The target the pass works towards: the persisted one folded through the startup preference,
  and persisted; on a failed write, what the file says.
\<close>

definition resolve_boot_target :: "pm_env \<Rightarrow> proxy_config startup_preference codec \<Rightarrow> pm \<Rightarrow>
    pm \<times> proxy_config target" where
  "resolve_boot_target E P s =
     (let fs = e_fs E (pm_trace s);
          pref = (case load_startup_preference P fs (pm_dir s) of Some p \<Rightarrow> p | None \<Rightarrow> preference_default)
      in case apply_target (e_target_codec E) fs
             (\<lambda>current. resolve_startup_target current (on_startup pref) (candidate pref)) (pm_dir s) of
           (w, UOk t _) \<Rightarrow> (s\<lparr>pm_dir := w\<rparr>, t)
         | (w, UErr _) \<Rightarrow>
             (s\<lparr>pm_dir := w\<rparr>,
              case load_target (e_target_codec E) fs w of Some t \<Rightarrow> t | None \<Rightarrow> UnreadableTarget)
         | (w, UPanic) \<Rightarrow> (s\<lparr>pm_dir := w\<rparr>, UnreadableTarget))"

fun run_boot_phase :: "pm_env \<Rightarrow> proxy_config target \<Rightarrow> phase \<Rightarrow> pm \<Rightarrow> pm" where
  "run_boot_phase E t (PhaseCover CoverRelease) s =
     (case release_all_covers E s of
        (s1, None) \<Rightarrow> set_standing_cover_adopted False s1
      | (s1, Some _) \<Rightarrow> s1)"
| "run_boot_phase E t (PhaseCover CoverEngage) s = s"
| "run_boot_phase E t (PhaseCover CoverHold) s = s"
| "run_boot_phase E t (PhaseTunnel TunnelStart) s =
     (case t of Connected config \<Rightarrow> fst (start_cancellable E config False s) | _ \<Rightarrow> s)"
| "run_boot_phase E t (PhaseTunnel TunnelHold) s = s"
| "run_boot_phase E t (PhaseTunnel TunnelStop) s = s"

definition reconcile_phases :: "pm_env \<Rightarrow> proxy_config target \<Rightarrow> pm \<Rightarrow> phase list" where
  "reconcile_phases E t s =
     step_order (cover_step_of (effective_lockdown_intent E s) (e_presence E (pm_trace s)) t)
       (tunnel_step_of (pm_state s = Running) t)"

definition reconcile_once :: "pm_env \<Rightarrow> proxy_config startup_preference codec \<Rightarrow> pm \<Rightarrow> pm" where
  "reconcile_once E P s =
     (let (s1, t) = resolve_boot_target E P s in fold (run_boot_phase E t) (reconcile_phases E t s1) s1)"

definition recover_then_reconcile :: "pm_env \<Rightarrow> proxy_config startup_preference codec \<Rightarrow> pm \<Rightarrow> pm" where
  "recover_then_reconcile E P s =
     (let (s1, r) = recover_cover E s in reconcile_once E P (record_recovery_outcome (Some r) s1))"

section \<open>Lemmas\<close>

lemma resolve_boot_keeps:
  "resolve_boot_target E P s = (s1, t) \<Longrightarrow>
   pm_trace s1 = pm_trace s \<and> pm_posture s1 = pm_posture s \<and> pm_adopted s1 = pm_adopted s \<and>
   pm_has_state_dir s1 = pm_has_state_dir s"
  by (auto simp: resolve_boot_target_def Let_def split: prod.splits update_result.splits)

lemma reconcile_phases_shape:
  assumes "pm_state s \<noteq> Running"
  shows "PhaseTunnel TunnelStop \<notin> set (reconcile_phases E t s)"
    and "PhaseCover CoverEngage \<in> set (reconcile_phases E t s) \<Longrightarrow> PhaseTunnel TunnelStart \<in> set (reconcile_phases E t s)"
proof -
  let ?i = "effective_lockdown_intent E s" and ?p = "e_presence E (pm_trace s)"
  show "PhaseTunnel TunnelStop \<notin> set (reconcile_phases E t s)"
    using assms by (cases t; cases ?i; cases ?p) (simp_all add: reconcile_phases_def)
  show "PhaseCover CoverEngage \<in> set (reconcile_phases E t s) \<Longrightarrow> PhaseTunnel TunnelStart \<in> set (reconcile_phases E t s)"
    using assms by (cases t; cases ?i; cases ?p) (simp_all add: reconcile_phases_def)
qed

lemma target_absent:
  assumes "file_at w TARGET_FILE_NAME = None"
  shows "clean_read (target_schema C) w = Some Absent"
  using assms by (simp add: clean_read_node target_schema_def load_node_def)

lemma preference_absent:
  assumes "file_at w STARTUP_PREFERENCE_FILE_NAME = None"
  shows "load_startup_preference P no_faults w = Some preference_default"
proof -
  have "clean_read (startup_schema P) w = Some Absent"
    using assms by (simp add: clean_read_node startup_schema_def load_node_def)
  then show ?thesis by (auto simp: load_startup_preference_def clean_read_def)
qed

lemma resolve_boot_absent:
  assumes "\<forall>tr. e_fs E tr = no_faults" "file_at (pm_dir s) TARGET_FILE_NAME = None"
    and "file_at (pm_dir s) STARTUP_PREFERENCE_FILE_NAME = None"
  shows "snd (resolve_boot_target E P s) = Off"
proof -
  let ?C = "e_target_codec E"
  let ?f = "\<lambda>current. resolve_startup_target current RestoreLastState (None :: proxy_config option)"
  obtain w x where ap: "apply_target ?C no_faults ?f (pm_dir s) = (w, x)" by force
  have abs: "clean_read (target_schema ?C) (pm_dir s) = Some Absent" by (rule target_absent [OF assms(2)])
  have "case x of UOk t _ \<Rightarrow> t = Off | UErr _ \<Rightarrow> load_target ?C no_faults w = Some Off | UPanic \<Rightarrow> False"
  proof (cases x)
    case (UOk t u)
    from vf.result [OF ap [unfolded apply_target_def UOk]] obtain ob
      where ob: "seen_by_update (target_schema ?C) no_faults (pm_dir s) = Some ob" "t = target_of (obs_loaded ob)"
      by (auto simp: apply_change_result)
    from seen_clean [OF ob(1)] abs have "obs_loaded ob = Absent" by (simp add: no_faults_def)
    with ob UOk show ?thesis by simp
  next
    case (UErr e)
    from vf.failed [OF ap [unfolded apply_target_def UErr]] abs UErr show ?thesis by (simp add: load_target_clean)
  next
    case UPanic
    with ap apply_target_no_panic show ?thesis by blast
  qed
  with assms(1,3) ap show ?thesis
    by (auto simp: resolve_boot_target_def preference_absent preference_default_def split: update_result.splits)
qed

lemma start_uncovered:
  assumes "pm_posture s = Idle" "start_cancellable E cfg False s = (s', r)"
  shows "(\<exists>tr. pm_trace s' = pm_trace s @ tr \<and> list_all neutral tr) \<and> \<not> blocked_until_connected s'"
proof -
  have t: "take_pending u = u" if "pm_posture u = Idle" for u
    using that by (simp add: take_pending_def)
  let ?s1 = "start_entry cfg s"
  have s1: "pm_trace ?s1 = pm_trace s" "pm_posture ?s1 = Idle"
    using assms(1) t [of "s\<lparr>pm_invalidated := False\<rparr>"] by (auto simp: start_entry_def Let_def)
  have c: "cover_for_start E cfg False l ip pin ?s1 = ?s1" for l ip pin
    using s1(2) by (simp add: cover_for_start_def repair_fallback_def t)
  show ?thesis
  proof (cases "start_resolve E cfg ?s1")
    case (Inl e)
    with assms s1 show ?thesis
      by (auto simp: start_cancellable_def Let_def blocked_until_connected_def split: if_splits)
  next
    case (Inr y)
    obtain ip pin where y: "y = (ip, pin)" by force
    obtain s3 z where st: "start_inner E cfg ip (ech_candidate cfg pin) False (standing_cover_expected E ?s1) ?s1 = (s3, z)" by force
    from quiet_start_inner [OF st] s1 have "pm_posture s3 = Idle"
      "\<exists>tr. pm_trace s3 = pm_trace s @ tr \<and> list_all neutral tr" by (auto simp: quiet_def)
    with Inr y st assms s1 c t [of s3] show ?thesis
      by (cases z) (auto simp: start_cancellable_def Let_def commit_session_def blocked_until_connected_def split: if_splits)
  qed
qed

text \<open>What every phase of the pass leaves alone: the transient cover.\<close>

definition uncovered :: "pm \<Rightarrow> pm \<Rightarrow> bool" where
  "uncovered s s' \<longleftrightarrow> (\<exists>tr. pm_trace s' = pm_trace s @ tr \<and> list_all neutral tr) \<and> \<not> blocked_until_connected s'"

lemma uncovered_start:
  assumes "\<not> blocked_until_connected s"
  shows "uncovered s (fst (start_cancellable E cfg False s))"
proof (cases "pm_posture s")
  case Idle
  with start_uncovered [of s E cfg] show ?thesis by (metis prod.collapse uncovered_def)
qed (use assms in \<open>simp_all add: uncovered_def blocked_until_connected_def start_cancellable_def\<close>)

lemma uncovered_phase:
  assumes "\<not> blocked_until_connected s"
  shows "uncovered s (run_boot_phase E t ph s)"
  using assms uncovered_start [OF assms, of E]
  by (cases "(E, t, ph, s)" rule: run_boot_phase.cases)
     (auto simp: uncovered_def release_all_covers_def Let_def set_standing_cover_adopted_def act_def
       blocked_until_connected_def split: option.splits target.splits)

lemma uncovered_phases:
  "\<not> blocked_until_connected s \<Longrightarrow> uncovered s (fold (run_boot_phase E t) phs s)"
proof (induction phs arbitrary: s)
  case (Cons ph phs)
  from uncovered_phase [OF Cons.prems, of E t ph] have "uncovered s (run_boot_phase E t ph s)" .
  moreover from this have "uncovered (run_boot_phase E t ph s) (fold (run_boot_phase E t) phs (run_boot_phase E t ph s))"
    by (intro Cons.IH) (simp add: uncovered_def)
  ultimately show ?case by (auto simp: uncovered_def)
qed (auto simp: uncovered_def)

section \<open>A sample preference\<close>

definition sample_pref :: "proxy_config startup_preference codec" where
  "sample_pref = \<lparr>cd_json = sample_json, cd_from_slice = (\<lambda>_. Err (framing ''data'')),
     cd_to_vec = (\<lambda>_ _. Err (framing ''data''))\<rparr>"

definition live_cover_env :: pm_env where
  "live_cover_env = sample_env\<lparr>e_presence := \<lambda>_. Live\<rparr>"

section \<open>Properties\<close>

text \<open>
  The driver's assertions hold: reconciling a manager with no session, whatever the
  target, the intent and the cover, never decides to stop a tunnel, and never engages the
  standing cover without starting the session that would install it.
\<close>

theorem boot_never_stops_or_bare_engages:
  assumes "pm_state s = Stopped"
  shows "PhaseTunnel TunnelStop \<notin> set (reconcile_phases E t s) \<and>
    (PhaseCover CoverEngage \<in> set (reconcile_phases E t s) \<longrightarrow> PhaseTunnel TunnelStart \<in> set (reconcile_phases E t s))"
  using reconcile_phases_shape [of s] assms by simp

theorem boot_never_stops_or_bare_engages_witness:
  "PhaseTunnel TunnelStop \<notin> set (reconcile_phases sample_env Off sample_pm)"
  using boot_never_stops_or_bare_engages [of sample_pm sample_env Off]
  by (simp add: sample_pm_def new_with_dns_def pm_state_def)

text \<open>
  A boot that fails leaves the host reachable: from an idle manager the pass never
  engages, drops or disarms a transient cover, whatever fails in it, and never ends blocked
  until connected.
\<close>

theorem boot_is_uncovered:
  assumes "pm_posture s = Idle"
  shows "(\<exists>tr. pm_trace (reconcile_once E P s) = pm_trace s @ tr \<and> list_all neutral tr) \<and>
    \<not> blocked_until_connected (reconcile_once E P s)"
proof -
  obtain s1 t where r: "resolve_boot_target E P s = (s1, t)" by force
  from resolve_boot_keeps [OF r] assms have "pm_trace s1 = pm_trace s" "\<not> blocked_until_connected s1"
    by (auto simp: blocked_until_connected_def)
  with uncovered_phases [of s1 E t "reconcile_phases E t s1"] r show ?thesis
    by (auto simp: reconcile_once_def uncovered_def)
qed

theorem boot_is_uncovered_witness:
  "\<not> blocked_until_connected (reconcile_once (failing_env\<lparr>e_presence := \<lambda>_. Recorded\<rparr>) sample_pref sample_pm)"
  by (rule boot_is_uncovered [THEN conjunct2]) (simp add: sample_pm_def new_with_dns_def)

text \<open>
  C39. A boot over a lost target file opens a host that recovery had just decided to keep
  closed: with no target file and no preference file, the pass releases a live standing cover
  and drops the claim on it, whether or not recovery adopted the cover and whatever the
  recorded intent.
\<close>

theorem lost_target_releases_live_cover:
  assumes "\<forall>tr. e_fs E tr = no_faults" "file_at (pm_dir s) TARGET_FILE_NAME = None"
    and "file_at (pm_dir s) STARTUP_PREFERENCE_FILE_NAME = None"
    and "e_presence E (pm_trace s) = Live" "e_release_all E (pm_trace s) = None" "pm_posture s = Idle"
  shows "ReleaseAllCovers True \<in> set (pm_trace (reconcile_once E P s)) \<and> \<not> pm_adopted (reconcile_once E P s)"
proof -
  obtain s1 where r: "resolve_boot_target E P s = (s1, Off)"
    using resolve_boot_absent [OF assms(1-3), of P] by (metis prod.collapse)
  with resolve_boot_keeps [OF r] assms(4-6) show ?thesis
    by (simp add: reconcile_once_def reconcile_phases_def pm_state_def release_all_covers_def act_def
        set_standing_cover_adopted_def)
qed

text \<open>
  The whole boot over a wiped state directory: recovery adopts the live cover and records the
  intent as on, and the pass that follows releases it.
\<close>

theorem lost_target_releases_live_cover_witness:
  "(let (s1, r) = recover_cover live_cover_env (new_with_dns True empty_world);
        s2 = record_recovery_outcome (Some r) s1
    in cover_action r = Adopt \<and> pm_adopted s2 \<and> load_intent sample_lockdown no_faults (pm_dir s2) = Some IntentOn \<and>
       ReleaseAllCovers True \<in> set (pm_trace (reconcile_once live_cover_env sample_pref s2)))"
proof -
  let ?s1 = "fst (recover_cover live_cover_env (new_with_dns True empty_world))"
  let ?r = "snd (recover_cover live_cover_env (new_with_dns True empty_world))"
  let ?s2 = "record_recovery_outcome (Some ?r) ?s1"
  have "cover_action ?r = Adopt" "pm_adopted ?s2" "load_intent sample_lockdown no_faults (pm_dir ?s2) = Some IntentOn"
    by code_simp+
  moreover have "ReleaseAllCovers True \<in> set (pm_trace (reconcile_once live_cover_env sample_pref ?s2))"
  proof (rule lost_target_releases_live_cover [THEN conjunct1])
    show "file_at (pm_dir ?s2) TARGET_FILE_NAME = None" by code_simp
    show "file_at (pm_dir ?s2) STARTUP_PREFERENCE_FILE_NAME = None" by code_simp
    show "pm_posture ?s2 = Idle" by code_simp
  qed (simp_all add: live_cover_env_def sample_env_def)
  ultimately show ?thesis by (simp add: case_prod_beta)
qed

end
