(* ===== verification/Routes.thy ===== *)
theory Routes
  imports Versioned_File Net_Addr
begin

text \<open>
  Split routing with provenance: crates/tun-engine/src/routing.rs (planned routes, the Windows
  command builders, the checkpointed setup and teardown loops, recovery of route groups,
  install and its rollback, the guard's teardown) and crates/tun-engine/src/routing/state.rs
  (the record, its schema history, its canonical form).

  The external world of an install is \<open>rt\<close>: the routes of this run that are in the table, the
  record on disk, and the list of snapshots of the two after every effect, which is what a
  crash at that moment would leave. \<open>rt_env\<close> answers each command and each write. A record
  that cannot be read refuses every write (\<^verbatim>\<open>Role::OsRecord\<close>, theory \<open>Versioned_File\<close>). How an
  address is displayed is the parameter \<open>disp\<close> of the command builders.
\<close>

section \<open>Route identity\<close>

datatype route_id = SplitV4Low | SplitV4High | SplitV6Low | SplitV6High | ServerBypass

definition SPLIT_ROUTES :: "route_id list" where
  "SPLIT_ROUTES = [SplitV4Low, SplitV4High, SplitV6Low, SplitV6High]"

definition union_ids :: "route_id list \<Rightarrow> route_id list \<Rightarrow> route_id list" where
  "union_ids a b = foldl (\<lambda>v i. if i \<in> set v then v else v @ [i]) a b"

text \<open>\<^verbatim>\<open>IpAddr::to_canonical\<close> and \<^verbatim>\<open>is_loopback\<close> of the standard library.\<close>

fun to_canonical :: "ip_addr \<Rightarrow> ip_addr" where
  "to_canonical (V4 a) = V4 a"
| "to_canonical (V6 a) = (case to_ipv4_mapped a of Some b \<Rightarrow> V4 b | None \<Rightarrow> V6 a)"

fun is_loopback :: "ip_addr \<Rightarrow> bool" where
  "is_loopback (V4 a) = (uint a div 2 ^ 24 = 127)"
| "is_loopback (V6 a) = (uint a = 1)"

definition planned_routes :: "ip_addr \<Rightarrow> route_id list" where
  "planned_routes server_ip =
     SPLIT_ROUTES @ (if is_loopback (to_canonical server_ip) then [] else [ServerBypass])"

datatype next_hop = NextVia ip_addr | NextOnLink

record gateway_info =
  gw_gateway_ip :: ip_addr
  gw_interface_name :: string
  gw_next_hop :: next_hop

datatype route_form = Via | OnLink

definition route_form_of :: "gateway_info \<Rightarrow> route_form" where
  "route_form_of gw = (case gw_next_hop gw of NextVia _ \<Rightarrow> Via | NextOnLink \<Rightarrow> OnLink)"

section \<open>The record and its schema history (routing/state.rs)\<close>

record stale_record =
  sr_tun_name :: string
  sr_server_ip :: ip_addr
  sr_interface_name :: string
  sr_original_gateway :: "ip_addr option"
  sr_route_form :: route_form
  sr_installed :: "route_id list"

record route_state =
  rs_group :: stale_record
  rs_stale :: "stale_record list"

record route_state_v1 =
  v1_tun_name :: string
  v1_server_ip :: ip_addr
  v1_interface_name :: string

record route_state_v2 = route_state_v1 +
  v2_installed :: "route_id list"

record stale_record_v3 =
  s3_tun_name :: string
  s3_server_ip :: ip_addr
  s3_interface_name :: string
  s3_original_gateway :: "ip_addr option"
  s3_installed :: "route_id list"

record route_state_v3 =
  v3_group :: stale_record_v3
  v3_stale :: "stale_record_v3 list"

definition upgrade_v2 :: "route_state_v1 \<Rightarrow> route_state_v2" where
  "upgrade_v2 p =
     \<lparr>v1_tun_name = v1_tun_name p, v1_server_ip = v1_server_ip p, v1_interface_name = v1_interface_name p,
      v2_installed = planned_routes (v1_server_ip p)\<rparr>"

definition upgrade_v3 :: "route_state_v2 \<Rightarrow> route_state_v3" where
  "upgrade_v3 p =
     \<lparr>v3_group = \<lparr>s3_tun_name = v1_tun_name p, s3_server_ip = v1_server_ip p,
        s3_interface_name = v1_interface_name p, s3_original_gateway = None, s3_installed = v2_installed p\<rparr>,
      v3_stale = []\<rparr>"

definition stale_from_v3 :: "stale_record_v3 \<Rightarrow> stale_record" where
  "stale_from_v3 g =
     \<lparr>sr_tun_name = s3_tun_name g, sr_server_ip = s3_server_ip g, sr_interface_name = s3_interface_name g,
      sr_original_gateway = s3_original_gateway g, sr_route_form = Via, sr_installed = s3_installed g\<rparr>"

definition upgrade_v4 :: "route_state_v3 \<Rightarrow> route_state" where
  "upgrade_v4 p = \<lparr>rs_group = stale_from_v3 (v3_group p), rs_stale = map stale_from_v3 (v3_stale p)\<rparr>"

text \<open>The chain of the route record: four linked schemas over an obsolete zero.\<close>

definition route_chain ::
  "(bytes \<Rightarrow> (parse_failure, route_state_v1) result) \<Rightarrow> (bytes \<Rightarrow> (parse_failure, route_state_v2) result) \<Rightarrow>
   (bytes \<Rightarrow> (parse_failure, route_state_v3) result) \<Rightarrow> (bytes \<Rightarrow> (parse_failure, route_state) result) \<Rightarrow>
   route_state chain" where
  "route_chain d1 d2 d3 d4 =
     schema_chain 4 d4
       (schema_chain 3 d3
         (schema_chain 2 d2
           (schema_chain 1 d1 (obsolete_chain 0 :: route_state_v1 chain) (\<lambda>x. x))
           upgrade_v2)
         upgrade_v3)
       upgrade_v4"

subsection \<open>Canonical form\<close>

definition same_identity :: "stale_record \<Rightarrow> stale_record \<Rightarrow> bool" where
  "same_identity m g \<longleftrightarrow> sr_tun_name m = sr_tun_name g \<and> sr_server_ip m = sr_server_ip g \<and>
     sr_interface_name m = sr_interface_name g \<and> sr_original_gateway m = sr_original_gateway g \<and>
     sr_route_form m = sr_route_form g"

fun merge_group :: "stale_record \<Rightarrow> stale_record list \<Rightarrow> stale_record list" where
  "merge_group g [] = [g]"
| "merge_group g (m # ms) =
     (if same_identity m g then m\<lparr>sr_installed := union_ids (sr_installed m) (sr_installed g)\<rparr> # ms
      else m # merge_group g ms)"

definition sanitize :: "stale_record \<Rightarrow> stale_record" where
  "sanitize g = g\<lparr>sr_installed := filter (\<lambda>i. i \<in> set (planned_routes (sr_server_ip g))) (sr_installed g)\<rparr>"

definition coalesce :: "stale_record list \<Rightarrow> stale_record list" where
  "coalesce groups =
     filter (\<lambda>g. sr_installed g \<noteq> []) (map sanitize (foldl (\<lambda>ms g. merge_group g ms) [] groups))"

section \<open>Commands (Windows)\<close>

datatype system_tool = Netsh | RouteExe

type_synonym argv = "system_tool \<times> string list"

record setup_command =
  sc_id :: route_id
  sc_argv :: argv
  sc_fatal :: bool

record route_command =
  rc_id :: route_id
  rc_argv :: argv

definition platform_setup_commands ::
  "(ip_addr \<Rightarrow> string) \<Rightarrow> string \<Rightarrow> ip_addr \<Rightarrow> gateway_info \<Rightarrow> bool \<Rightarrow> setup_command list" where
  "platform_setup_commands disp tun server_ip gw ipv6 =
     [\<lparr>sc_id = SplitV4Low, sc_argv = (Netsh, [''interface'', ''ip'', ''add'', ''route'', ''0.0.0.0/1'', tun]), sc_fatal = True\<rparr>,
      \<lparr>sc_id = SplitV4High, sc_argv = (Netsh, [''interface'', ''ip'', ''add'', ''route'', ''128.0.0.0/1'', tun]), sc_fatal = True\<rparr>,
      \<lparr>sc_id = SplitV6Low, sc_argv = (Netsh, [''interface'', ''ipv6'', ''add'', ''route'', ''::/1'', tun]), sc_fatal = ipv6\<rparr>,
      \<lparr>sc_id = SplitV6High, sc_argv = (Netsh, [''interface'', ''ipv6'', ''add'', ''route'', ''8000::/1'', tun]), sc_fatal = ipv6\<rparr>] @
     (if is_loopback (to_canonical server_ip) then []
      else
        [\<lparr>sc_id = ServerBypass,
          sc_argv =
            (case (server_ip, gw_next_hop gw) of
               (V4 _, NextOnLink) \<Rightarrow>
                 (Netsh, [''interface'', ''ip'', ''add'', ''route'', disp server_ip @ ''/32'', gw_interface_name gw, ''store=active''])
             | (V4 _, NextVia via) \<Rightarrow> (RouteExe, [''add'', disp server_ip, ''mask'', ''255.255.255.255'', disp via])
             | (V6 _, _) \<Rightarrow>
                 (Netsh, [''interface'', ''ipv6'', ''add'', ''route'', disp server_ip @ ''/128'', gw_interface_name gw])),
          sc_fatal = True\<rparr>])"

definition platform_split_teardown_commands :: "string \<Rightarrow> route_command list" where
  "platform_split_teardown_commands tun =
     [\<lparr>rc_id = SplitV4Low, rc_argv = (Netsh, [''interface'', ''ip'', ''delete'', ''route'', ''0.0.0.0/1'', tun])\<rparr>,
      \<lparr>rc_id = SplitV4High, rc_argv = (Netsh, [''interface'', ''ip'', ''delete'', ''route'', ''128.0.0.0/1'', tun])\<rparr>,
      \<lparr>rc_id = SplitV6Low, rc_argv = (Netsh, [''interface'', ''ipv6'', ''delete'', ''route'', ''::/1'', tun])\<rparr>,
      \<lparr>rc_id = SplitV6High, rc_argv = (Netsh, [''interface'', ''ipv6'', ''delete'', ''route'', ''8000::/1'', tun])\<rparr>]"

definition platform_bypass_teardown_command ::
  "(ip_addr \<Rightarrow> string) \<Rightarrow> ip_addr \<Rightarrow> string \<Rightarrow> ip_addr option \<Rightarrow> route_form \<Rightarrow> route_command option" where
  "platform_bypass_teardown_command disp server_ip iface gateway form =
     (if is_loopback (to_canonical server_ip) then None
      else Some \<lparr>rc_id = ServerBypass,
        rc_argv =
          (case server_ip of
             V4 _ \<Rightarrow>
               if form = OnLink
               then (Netsh, [''interface'', ''ip'', ''delete'', ''route'', disp server_ip @ ''/32'', iface])
               else (RouteExe, [''delete'', disp server_ip, ''mask'', ''255.255.255.255''] @
                      (case gateway of Some gw \<Rightarrow> [disp gw] | None \<Rightarrow> []))
           | V6 _ \<Rightarrow> (Netsh, [''interface'', ''ipv6'', ''delete'', ''route'', disp server_ip @ ''/128'', iface]))\<rparr>)"

definition bypass_commands :: "(ip_addr \<Rightarrow> string) \<Rightarrow> stale_record \<Rightarrow> route_command list" where
  "bypass_commands disp g =
     (case platform_bypass_teardown_command disp (sr_server_ip g) (sr_interface_name g) (sr_original_gateway g)
         (sr_route_form g) of
        Some c \<Rightarrow> [c] | None \<Rightarrow> [])"

definition build_teardown_commands :: "(ip_addr \<Rightarrow> string) \<Rightarrow> stale_record \<Rightarrow> route_command list" where
  "build_teardown_commands disp g = platform_split_teardown_commands (sr_tun_name g) @ bypass_commands disp g"

section \<open>The world of an install\<close>

datatype command_result = CmdOk | CmdExit int | CmdSpawn

datatype found = Records route_state | NoRecord | UnreadableRecord

record rt_env =
  r_setup :: "setup_command \<Rightarrow> command_result"
  r_teardown :: "route_command \<Rightarrow> bool"
  r_write :: "nat \<Rightarrow> bool"

record rt =
  rt_table :: "route_id list"
  rt_disk :: found
  rt_writes :: nat
  rt_snaps :: "(route_id list \<times> found) list"

definition snap :: "rt \<Rightarrow> rt" where
  "snap s = s\<lparr>rt_snaps := rt_snaps s @ [(rt_table s, rt_disk s)]\<rparr>"

text \<open>\<^verbatim>\<open>state::write\<close> and \<^verbatim>\<open>state::remove\<close>.\<close>

definition write_record :: "rt_env \<Rightarrow> route_state \<Rightarrow> rt \<Rightarrow> rt \<times> bool" where
  "write_record E r s =
     (let good = (rt_disk s \<noteq> UnreadableRecord \<and> r_write E (rt_writes s));
          s1 = s\<lparr>rt_writes := Suc (rt_writes s)\<rparr>
      in (snap (if good then s1\<lparr>rt_disk := Records r\<rparr> else s1), good))"

definition remove_record :: "rt_env \<Rightarrow> rt \<Rightarrow> rt" where
  "remove_record E s =
     (let good = (rt_disk s \<noteq> UnreadableRecord \<and> r_write E (rt_writes s));
          s1 = s\<lparr>rt_writes := Suc (rt_writes s)\<rparr>
      in snap (if good then s1\<lparr>rt_disk := NoRecord\<rparr> else s1))"

text \<open>\<^verbatim>\<open>checkpoint_installed\<close>: the in-memory record follows the disk, never runs ahead of it.\<close>

definition checkpoint_installed :: "rt_env \<Rightarrow> route_id list \<Rightarrow> route_state \<Rightarrow> rt \<Rightarrow> route_state \<times> rt \<times> bool" where
  "checkpoint_installed E ids m s =
     (let m1 = m\<lparr>rs_group := (rs_group m)\<lparr>sr_installed := ids\<rparr>\<rparr>
      in case write_record E m1 s of (s1, good) \<Rightarrow> (if good then m1 else m, s1, good))"

datatype setup_result = SetupOk | SetupCommandFailed nat | SetupCheckpointFailed

definition add_route :: "route_id \<Rightarrow> rt \<Rightarrow> rt" where
  "add_route i s = snap (s\<lparr>rt_table := rt_table s @ [i]\<rparr>)"

definition del_route :: "route_id \<Rightarrow> rt \<Rightarrow> rt" where
  "del_route i s = snap (s\<lparr>rt_table := removeAll i (rt_table s)\<rparr>)"

fun run_setup_commands :: "rt_env \<Rightarrow> setup_command list \<Rightarrow> nat \<Rightarrow> route_id list \<Rightarrow> route_state \<Rightarrow> rt \<Rightarrow>
    setup_result \<times> route_id list \<times> route_state \<times> rt" where
  "run_setup_commands E [] index installed m s = (SetupOk, installed, m, s)"
| "run_setup_commands E (c # cs) index installed m s =
     (let pushed = installed @ [sc_id c]
      in case checkpoint_installed E pushed m s of
           (m1, s1, False) \<Rightarrow> (SetupCheckpointFailed, installed, m1, s1)
         | (m1, s1, True) \<Rightarrow>
             (case r_setup E c of
                CmdOk \<Rightarrow>
                  (case checkpoint_installed E pushed m1 (add_route (sc_id c) s1) of
                     (m2, s2, _) \<Rightarrow> run_setup_commands E cs (Suc index) pushed m2 s2)
              | failure \<Rightarrow>
                  if \<not> sc_fatal c
                  then (case checkpoint_installed E installed m1 s1 of
                          (m2, s2, _) \<Rightarrow> run_setup_commands E cs (Suc index) installed m2 s2)
                  else if failure = CmdSpawn then (SetupCommandFailed index, installed, m1, s1)
                  else (case checkpoint_installed E installed m1 s1 of
                          (m2, s2, _) \<Rightarrow> (SetupCommandFailed index, installed, m2, s2))))"

text \<open>\<^verbatim>\<open>run_teardown_commands\<close> with its checkpoint closure as an argument.\<close>

fun run_teardown_commands :: "rt_env \<Rightarrow> (route_id list \<Rightarrow> rt \<Rightarrow> rt) \<Rightarrow> route_command list \<Rightarrow> route_id list \<Rightarrow> rt \<Rightarrow>
    route_id list \<times> rt" where
  "run_teardown_commands E ck [] still s = (still, s)"
| "run_teardown_commands E ck (c # cs) still s =
     (if r_teardown E c
      then (let still' = removeAll (rc_id c) still
            in run_teardown_commands E ck cs still' (ck still' (del_route (rc_id c) s)))
      else run_teardown_commands E ck cs still (ck still s))"

definition teardown_routes :: "rt_env \<Rightarrow> (ip_addr \<Rightarrow> string) \<Rightarrow> (route_id list \<Rightarrow> rt \<Rightarrow> rt) \<Rightarrow> stale_record \<Rightarrow> rt \<Rightarrow>
    route_id list \<times> rt" where
  "teardown_routes E disp ck g s =
     run_teardown_commands E ck (filter (\<lambda>c. rc_id c \<in> set (sr_installed g)) (build_teardown_commands disp g))
       (sr_installed g) s"

definition rollback_and_record :: "rt_env \<Rightarrow> (ip_addr \<Rightarrow> string) \<Rightarrow> route_id list \<Rightarrow> route_state \<Rightarrow> route_id list \<Rightarrow> rt \<Rightarrow> rt" where
  "rollback_and_record E disp confirmed persisted extra s =
     (let named = (\<lambda>ids. persisted\<lparr>rs_group := (rs_group persisted)\<lparr>sr_installed := union_ids ids extra\<rparr>\<rparr>);
          s1 = fst (write_record E (named confirmed) s);
          (remaining, s2) = teardown_routes E disp (\<lambda>ids s. fst (write_record E (named ids) s))
             ((rs_group persisted)\<lparr>sr_installed := confirmed\<rparr>) s1
      in if union_ids remaining extra = [] \<and> rs_stale persisted = [] then remove_record E s2
         else fst (write_record E (named remaining) s2))"

section \<open>Recovering groups\<close>

definition narrow_groups :: "(stale_record \<Rightarrow> route_command list) \<Rightarrow> route_command \<Rightarrow> stale_record list \<Rightarrow> stale_record list" where
  "narrow_groups cmds_of c gs =
     map (\<lambda>g. if rc_id c \<in> set (sr_installed g) \<and> c \<in> set (cmds_of g)
              then g\<lparr>sr_installed := removeAll (rc_id c) (sr_installed g)\<rparr> else g) gs"

fun run_group_commands :: "(route_command \<Rightarrow> bool) \<Rightarrow> (stale_record list \<Rightarrow> 's \<Rightarrow> 's) \<Rightarrow>
    (stale_record \<Rightarrow> route_command list) \<Rightarrow> route_command list \<Rightarrow> stale_record list \<times> argv list \<times> 's \<Rightarrow>
    stale_record list \<times> argv list \<times> 's" where
  "run_group_commands run ck cmds_of [] st = st"
| "run_group_commands run ck cmds_of (c # cs) (gs, issued, s) =
     (let gs' = (if run c then narrow_groups cmds_of c gs else gs)
      in run_group_commands run ck cmds_of cs (gs', issued @ [rc_argv c], ck gs' s))"

fun group_loop :: "(route_command \<Rightarrow> bool) \<Rightarrow> (stale_record list \<Rightarrow> 's \<Rightarrow> 's) \<Rightarrow>
    (stale_record \<Rightarrow> route_command list) \<Rightarrow> nat list \<Rightarrow> stale_record list \<times> argv list \<times> 's \<Rightarrow>
    stale_record list \<times> argv list \<times> 's" where
  "group_loop run ck cmds_of [] st = st"
| "group_loop run ck cmds_of (i # is) (gs, issued, s) =
     (let cmds = filter (\<lambda>c. rc_id c \<in> set (sr_installed (gs ! i)) \<and> rc_argv c \<notin> set issued) (cmds_of (gs ! i))
      in group_loop run ck cmds_of is (run_group_commands run ck cmds_of cmds (gs, issued, s)))"

definition recover_groups :: "(ip_addr \<Rightarrow> string) \<Rightarrow> (route_command \<Rightarrow> bool) \<Rightarrow> (stale_record list \<Rightarrow> 's \<Rightarrow> 's) \<Rightarrow>
    stale_record list \<Rightarrow> 's \<Rightarrow> stale_record list \<times> 's" where
  "recover_groups disp run ck groups s =
     (let (gs1, _, s1) = group_loop run ck (\<lambda>g. platform_split_teardown_commands (sr_tun_name g)) [0..<length groups] (groups, [], s);
          (gs2, _, s2) = group_loop run ck (bypass_commands disp) [0..<length groups] (gs1, [], s1)
      in (gs2, s2))"

section \<open>Install\<close>

datatype install_result = InstallErr string | InstallOk "route_id list" "stale_record list"

definition sweep_leftover_before_install :: "rt_env \<Rightarrow> (ip_addr \<Rightarrow> string) \<Rightarrow> route_state \<Rightarrow> rt \<Rightarrow>
    (route_state \<times> rt) option" where
  "sweep_leftover_before_install E disp persisted s =
     (case rt_disk s of
        UnreadableRecord \<Rightarrow> None
      | NoRecord \<Rightarrow> Some (persisted, s)
      | Records leftover \<Rightarrow>
          (let groups = coalesce (rs_stale leftover @
                 (if sr_installed (rs_group leftover) = [] then [] else [rs_group leftover]))
           in if groups = [] then Some (persisted, s)
              else
                (let s1 = fst (write_record E (persisted\<lparr>rs_stale := groups\<rparr>) s);
                     (gs, s2) = recover_groups disp (r_teardown E)
                        (\<lambda>gs s. fst (write_record E (persisted\<lparr>rs_stale := gs\<rparr>) s)) groups s1;
                     left = persisted\<lparr>rs_stale := filter (\<lambda>g. sr_installed g \<noteq> []) gs\<rparr>
                 in Some (left, fst (write_record E left s2)))))"

definition install_with :: "rt_env \<Rightarrow> (ip_addr \<Rightarrow> string) \<Rightarrow> string \<Rightarrow> ip_addr \<Rightarrow> gateway_info \<Rightarrow> bool \<Rightarrow> rt \<Rightarrow>
    install_result \<times> rt" where
  "install_with E disp tun server_ip gw ipv6 s =
     (let template = \<lparr>rs_group = \<lparr>sr_tun_name = tun, sr_server_ip = server_ip, sr_interface_name = gw_interface_name gw,
            sr_original_gateway = Some (gw_gateway_ip gw), sr_route_form = route_form_of gw, sr_installed = []\<rparr>,
            rs_stale = []\<rparr>
      in case sweep_leftover_before_install E disp template s of
           None \<Rightarrow> (InstallErr ''state unreadable'', s)
         | Some (persisted, s1) \<Rightarrow>
             (case run_setup_commands E (platform_setup_commands disp tun server_ip gw ipv6) 0 [] persisted s1 of
                (result, installed, m, s2) \<Rightarrow>
                  (let uncertain = filter (\<lambda>i. i \<notin> set installed) (sr_installed (rs_group m))
                   in if result \<noteq> SetupOk
                      then (InstallErr ''route setup'', rollback_and_record E disp installed m uncertain s2)
                      else if length installed \<noteq> length (planned_routes server_ip)
                      then (InstallErr ''route install incomplete'', rollback_and_record E disp installed m uncertain s2)
                      else (InstallOk installed (rs_stale m), s2))))"

text \<open>\<^verbatim>\<open>SystemRoutes::teardown_with\<close>: what dropping the guard does to the routes and the record.\<close>

definition teardown_with :: "rt_env \<Rightarrow> (ip_addr \<Rightarrow> string) \<Rightarrow> route_state \<Rightarrow> rt \<Rightarrow> rt" where
  "teardown_with E disp guard s =
     (let named = (\<lambda>ids. guard\<lparr>rs_group := (rs_group guard)\<lparr>sr_installed := ids\<rparr>\<rparr>);
          (remaining, s1) = teardown_routes E disp (\<lambda>ids s. fst (write_record E (named ids) s)) (rs_group guard) s
      in if remaining = [] \<and> rs_stale guard = [] then remove_record E s1 else s1)"

record routed_families =
  rf_v4 :: bool
  rf_v6 :: bool

definition routed_families_of :: "route_id list \<Rightarrow> routed_families" where
  "routed_families_of installed =
     \<lparr>rf_v4 = (SplitV4Low \<in> set installed \<and> SplitV4High \<in> set installed),
      rf_v6 = (SplitV6Low \<in> set installed \<and> SplitV6High \<in> set installed)\<rparr>"

end
