(* ===== verification/Route_Safety.thy ===== *)
theory Route_Safety
  imports Routes "HOL-Library.Sublist"
begin

text \<open>
  Safety of the route bookkeeping: the canonical form of route groups, crash consistency of
  install, rollback and teardown (at every instant the record on disk names every route of
  the run still in the table), what a successful install guarantees, and what recovery does to
  the groups it works on.
\<close>

section \<open>Canonical form\<close>

type_synonym identity = "string \<times> ip_addr \<times> string \<times> ip_addr option \<times> route_form"

definition ident :: "stale_record \<Rightarrow> identity" where
  "ident g = (sr_tun_name g, sr_server_ip g, sr_interface_name g, sr_original_gateway g, sr_route_form g)"

lemma same_identity_ident [simp]: "same_identity m g \<longleftrightarrow> ident m = ident g"
  by (simp add: same_identity_def ident_def)

lemma ident_installed [simp]: "ident (g\<lparr>sr_installed := x\<rparr>) = ident g"
  by (simp add: ident_def)

lemma ident_sanitize [simp]: "ident (sanitize g) = ident g"
  by (simp add: sanitize_def)

lemma set_union_ids [simp]: "set (union_ids a b) = set a \<union> set b"
  unfolding union_ids_def by (induction b arbitrary: a) auto

lemma union_ids_Nil [simp]: "union_ids a b = [] \<longleftrightarrow> a = [] \<and> b = []"
  by (metis set_union_ids set_empty Un_empty)

lemma ident_merge:
  "map ident (merge_group g ms) = map ident ms @ (if ident g \<in> ident ` set ms then [] else [ident g])"
  by (induction ms) auto

text \<open>Every identity with every route it claims.\<close>

definition claims :: "stale_record list \<Rightarrow> (identity \<times> route_id) set" where
  "claims gs = {(ident g, i) |g i. g \<in> set gs \<and> i \<in> set (sr_installed g)}"

lemma claims_Nil [simp]: "claims [] = {}"
  by (simp add: claims_def)

lemma claims_Cons [simp]: "claims (g # gs) = {ident g} \<times> set (sr_installed g) \<union> claims gs"
  by (auto simp: claims_def)

lemma claims_append [simp]: "claims (gs @ hs) = claims gs \<union> claims hs"
  by (auto simp: claims_def)

lemma claims_merge [simp]: "claims (merge_group g ms) = claims ms \<union> {ident g} \<times> set (sr_installed g)"
  by (induction ms) auto

lemma merged:
  "distinct (map ident ms) \<Longrightarrow> distinct (map ident (foldl (\<lambda>ms g. merge_group g ms) ms gs))"
  "claims (foldl (\<lambda>ms g. merge_group g ms) ms gs) = claims ms \<union> claims gs"
  by (induction gs arbitrary: ms) (auto simp: ident_merge)

definition plannable :: "identity \<times> route_id \<Rightarrow> bool" where
  "plannable x = (case x of ((_, server_ip, _), i) \<Rightarrow> i \<in> set (planned_routes server_ip))"

lemma plannable_ident: "plannable (ident g, i) \<longleftrightarrow> i \<in> set (planned_routes (sr_server_ip g))"
  by (simp add: plannable_def ident_def)

lemma claims_sanitized:
  "claims (filter (\<lambda>g. sr_installed g \<noteq> []) (map sanitize ms)) = {x \<in> claims ms. plannable x}"
proof (induction ms)
  case (Cons g ms)
  have "{x \<in> {ident g} \<times> set (sr_installed g). plannable x} = {ident g} \<times> set (sr_installed (sanitize g))"
    by (auto simp: sanitize_def plannable_ident)
  moreover have "claims (filter (\<lambda>g. sr_installed g \<noteq> []) (map sanitize (g # ms))) =
      {ident g} \<times> set (sr_installed (sanitize g)) \<union> claims (filter (\<lambda>g. sr_installed g \<noteq> []) (map sanitize ms))"
    by simp
  ultimately show ?case unfolding Cons.IH claims_Cons by blast
qed simp

lemma coalesce_distinct: "distinct (map ident (coalesce gs))"
proof -
  let ?m = "foldl (\<lambda>ms g. merge_group g ms) [] gs"
  have "distinct (map ident (map sanitize ?m))"
    using merged(1) [of "[]" gs] by (simp add: comp_def)
  then show ?thesis unfolding coalesce_def by (rule distinct_map_filter)
qed

lemma coalesce_claims: "claims (coalesce gs) = {x \<in> claims gs. plannable x}"
  unfolding coalesce_def claims_sanitized by (simp add: merged(2))

section \<open>Crash consistency\<close>

definition named :: "found \<Rightarrow> route_id set" where
  "named d = (case d of Records r \<Rightarrow> set (sr_installed (rs_group r)) | _ \<Rightarrow> {})"

text \<open>What a crash at any instant so far would have left: a record naming every route still in.\<close>

definition tracked :: "rt \<Rightarrow> bool" where
  "tracked s \<longleftrightarrow> set (rt_table s) \<subseteq> named (rt_disk s) \<and>
     list_all (\<lambda>(table, disk). set table \<subseteq> named disk) (rt_snaps s)"

lemma write_record_table [simp]: "rt_table (fst (write_record E r s)) = rt_table s"
  by (simp add: write_record_def Let_def snap_def)

lemma remove_record_table [simp]: "rt_table (remove_record E s) = rt_table s"
  by (simp add: remove_record_def Let_def snap_def)

lemma tracked_write:
  assumes "tracked s" "set (rt_table s) \<subseteq> set (sr_installed (rs_group r))"
  shows "tracked (fst (write_record E r s))"
  using assms by (auto simp: tracked_def write_record_def Let_def snap_def named_def)

lemma tracked_remove: "tracked s \<Longrightarrow> rt_table s = [] \<Longrightarrow> tracked (remove_record E s)"
  by (auto simp: tracked_def remove_record_def Let_def snap_def named_def)

lemma tracked_del: "tracked s \<Longrightarrow> tracked (del_route i s)"
  by (auto simp: tracked_def del_route_def snap_def)

lemma tracked_add: "tracked s \<Longrightarrow> i \<in> named (rt_disk s) \<Longrightarrow> tracked (add_route i s)"
  by (auto simp: tracked_def add_route_def snap_def)

lemma checkpoint_sel:
  assumes "checkpoint_installed E ids m s = (m', s', good)"
  shows "s' = fst (write_record E (m\<lparr>rs_group := (rs_group m)\<lparr>sr_installed := ids\<rparr>\<rparr>) s)"
    and "m' = (if good then m\<lparr>rs_group := (rs_group m)\<lparr>sr_installed := ids\<rparr>\<rparr> else m)"
    and "good \<Longrightarrow> named (rt_disk s') = set ids" and "rt_table s' = rt_table s"
    and "rs_stale m' = rs_stale m"
  using assms by (auto simp: checkpoint_installed_def write_record_def Let_def snap_def named_def split: if_splits)

lemma tracked_checkpoint:
  "tracked s \<Longrightarrow> set (rt_table s) \<subseteq> set ids \<Longrightarrow> checkpoint_installed E ids m s = (m', s', good) \<Longrightarrow> tracked s'"
proof -
  assume t: "tracked s" "set (rt_table s) \<subseteq> set ids" and c: "checkpoint_installed E ids m s = (m', s', good)"
  show ?thesis unfolding checkpoint_sel(1) [OF c] by (rule tracked_write) (simp_all add: t)
qed

lemma run_setup_tracked:
  assumes "run_setup_commands E cs n installed m s = (r, installed', m', s')" "tracked s" "rt_table s = installed"
  shows "tracked s' \<and> rt_table s' = installed' \<and> rs_stale m' = rs_stale m"
  using assms
proof (induction cs arbitrary: n installed m s)
  case (Cons c cs)
  let ?p = "installed @ [sc_id c]"
  obtain m1 s1 g1 where c1: "checkpoint_installed E ?p m s = (m1, s1, g1)" by (metis prod_cases3)
  have t1: "tracked s1" by (rule tracked_checkpoint [OF Cons.prems(2) _ c1]) (auto simp: Cons.prems(3))
  have tab1: "rt_table s1 = installed" "rs_stale m1 = rs_stale m"
    using checkpoint_sel(4,5) [OF c1] Cons.prems(3) by simp_all
  show ?case
  proof (cases g1)
    case False
    with Cons.prems c1 t1 tab1 show ?thesis by simp
  next
    case True
    obtain m2 s2 g2 where c2: "checkpoint_installed E ?p m1 (add_route (sc_id c) s1) = (m2, s2, g2)" by (metis prod_cases3)
    obtain m3 s3 g3 where c3: "checkpoint_installed E installed m1 s1 = (m3, s3, g3)" by (metis prod_cases3)
    have ta: "tracked (add_route (sc_id c) s1)"
      using t1 checkpoint_sel(3) [OF c1 True] by (intro tracked_add) simp_all
    have tb: "rt_table (add_route (sc_id c) s1) = ?p" using tab1(1) by (simp add: add_route_def snap_def)
    have 2: "tracked s2" "rt_table s2 = ?p" "rs_stale m2 = rs_stale m"
      using tracked_checkpoint [OF ta _ c2] tb checkpoint_sel(4,5) [OF c2] tab1(2) by auto
    have 3: "tracked s3" "rt_table s3 = installed" "rs_stale m3 = rs_stale m"
      using tracked_checkpoint [OF t1 _ c3] checkpoint_sel(4,5) [OF c3] tab1 by auto
    show ?thesis
    proof (cases "r_setup E c")
      case CmdOk
      with Cons.prems(1) True c1 c2 have "run_setup_commands E cs (Suc n) ?p m2 s2 = (r, installed', m', s')" by simp
      from Cons.IH [OF this 2(1,2)] 2(3) show ?thesis by simp
    next
      case (CmdExit x)
      with Cons.prems(1) True c1 c3 3 Cons.IH [OF _ 3(1,2)] show ?thesis by (auto split: if_splits)
    next
      case CmdSpawn
      with Cons.prems(1) True c1 c3 3 t1 tab1 Cons.IH [OF _ 3(1,2)] show ?thesis by (auto split: if_splits)
    qed
  qed
qed auto

lemma run_teardown_tracked:
  assumes "run_teardown_commands E ck cs still s = (still', s')" "tracked s" "set (rt_table s) \<subseteq> set still"
    and "\<And>ids u. tracked u \<Longrightarrow> set (rt_table u) \<subseteq> set ids \<Longrightarrow> tracked (ck ids u) \<and> rt_table (ck ids u) = rt_table u"
  shows "tracked s' \<and> set (rt_table s') \<subseteq> set still'"
  using assms(1-3)
proof (induction cs arbitrary: still s)
  case (Cons c cs)
  show ?case
  proof (cases "r_teardown E c")
    case True
    let ?u = "del_route (rc_id c) s" and ?still = "removeAll (rc_id c) still"
    have u: "tracked ?u" "set (rt_table ?u) \<subseteq> set ?still"
      using Cons.prems(2,3) tracked_del by (auto simp: del_route_def snap_def)
    from Cons.prems(1) True have "run_teardown_commands E ck cs ?still (ck ?still ?u) = (still', s')" by (simp add: Let_def)
    from Cons.IH [OF this] assms(4) [OF u] u(2) show ?thesis by simp
  next
    case False
    with Cons.prems(1) have "run_teardown_commands E ck cs still (ck still s) = (still', s')" by simp
    from Cons.IH [OF this] assms(4) [OF Cons.prems(2,3)] Cons.prems(3) show ?thesis by simp
  qed
qed auto

lemma rollback_tracked:
  assumes "tracked s" "set (rt_table s) \<subseteq> set confirmed"
  shows "tracked (rollback_and_record E disp confirmed persisted extra s)"
proof -
  let ?named = "\<lambda>ids. persisted\<lparr>rs_group := (rs_group persisted)\<lparr>sr_installed := union_ids ids extra\<rparr>\<rparr>"
  let ?s1 = "fst (write_record E (?named confirmed) s)"
  let ?ck = "\<lambda>ids s. fst (write_record E (?named ids) s)"
  obtain rem s2 where td: "teardown_routes E disp ?ck ((rs_group persisted)\<lparr>sr_installed := confirmed\<rparr>) ?s1 = (rem, s2)"
    by force
  have s1: "tracked ?s1" "set (rt_table ?s1) \<subseteq> set confirmed"
    using assms by (auto intro!: tracked_write)
  have "tracked s2 \<and> set (rt_table s2) \<subseteq> set rem"
    using td unfolding teardown_routes_def
    by (rule run_teardown_tracked) (use s1 in \<open>auto intro!: tracked_write\<close>)
  then show ?thesis
    using td by (auto simp: rollback_and_record_def Let_def intro!: tracked_write tracked_remove)
qed

text \<open>The sweep before an install runs with no route of this run in the table.\<close>

lemma run_group_inv:
  assumes "\<And>gs u. Q u \<Longrightarrow> Q (ck gs u)"
  shows "Q (snd (snd st)) \<Longrightarrow> Q (snd (snd (run_group_commands run ck cmds_of cs st)))"
proof (induction cs arbitrary: st)
  case (Cons c cs)
  obtain gs issued s where "st = (gs, issued, s)" by (metis prod_cases3)
  with Cons assms show ?case by (auto simp: Let_def)
qed simp

lemma group_loop_inv:
  assumes "\<And>gs u. Q u \<Longrightarrow> Q (ck gs u)"
  shows "Q (snd (snd st)) \<Longrightarrow> Q (snd (snd (group_loop run ck cmds_of is st)))"
proof (induction "is" arbitrary: st)
  case (Cons i "is")
  obtain gs issued s where st: "st = (gs, issued, s)" by (metis prod_cases3)
  show ?case
    unfolding st group_loop.simps Let_def
    by (rule Cons.IH, rule run_group_inv [where Q = Q, OF assms]) (use Cons.prems st in auto)
qed simp

lemma recover_groups_inv:
  assumes "\<And>gs u. Q u \<Longrightarrow> Q (ck gs u)" "Q s"
  shows "Q (snd (recover_groups disp run ck groups s))"
proof -
  let ?l1 = "group_loop run ck (\<lambda>g. platform_split_teardown_commands (sr_tun_name g)) [0..<length groups] (groups, [], s)"
  have step: "Q u \<Longrightarrow> Q (ck gs u)" for gs u by (rule assms(1))
  have "Q (snd (snd (groups, [] :: argv list, s)))" using assms(2) by simp
  then have "Q (snd (snd ?l1))" using group_loop_inv [where Q = Q and ck = ck, OF step] by blast
  then have "Q (snd (snd (fst ?l1, [] :: argv list, snd (snd ?l1))))" by simp
  then have "Q (snd (snd (group_loop run ck (bypass_commands disp) [0..<length groups] (fst ?l1, [], snd (snd ?l1)))))"
    using group_loop_inv [where Q = Q and ck = ck, OF step] by blast
  then show ?thesis by (simp add: recover_groups_def case_prod_beta Let_def)
qed

lemma sweep_tracked:
  assumes "sweep_leftover_before_install E disp p s = Some (p', s')" "tracked s" "rt_table s = []"
  shows "tracked s' \<and> rt_table s' = []"
proof -
  let ?Q = "\<lambda>u. tracked u \<and> rt_table u = []"
  have w: "?Q (fst (write_record E r u))" if "?Q u" for r u
    using that tracked_write [of u r E] by simp
  have q: "?Q (snd (recover_groups disp (r_teardown E) (\<lambda>gs s. fst (write_record E (p\<lparr>rs_stale := gs\<rparr>) s)) gs u))"
    if "?Q u" for gs u
    using that by (intro recover_groups_inv [where Q = ?Q] w)
  show ?thesis
  proof (cases "rt_disk s")
    case (Records leftover)
    let ?groups = "coalesce (rs_stale leftover @ (if sr_installed (rs_group leftover) = [] then [] else [rs_group leftover]))"
    show ?thesis
    proof (cases "?groups = []")
      case True
      with Records assms show ?thesis by (simp add: sweep_leftover_before_install_def)
    next
      case False
      with Records assms(1) have "s' = fst (write_record E p' (snd (recover_groups disp (r_teardown E)
          (\<lambda>gs s. fst (write_record E (p\<lparr>rs_stale := gs\<rparr>) s)) ?groups
          (fst (write_record E (p\<lparr>rs_stale := ?groups\<rparr>) s)))))"
        by (auto simp: sweep_leftover_before_install_def Let_def case_prod_beta)
      with w q assms(2,3) show ?thesis by simp
    qed
  qed (use assms in \<open>auto simp: sweep_leftover_before_install_def\<close>)
qed

section \<open>What a setup that went through installed\<close>

lemma run_setup_subseq:
  assumes "run_setup_commands E cs n installed m s = (r, installed', m', s')"
  shows "\<exists>ds. installed' = installed @ map sc_id ds \<and> subseq ds cs \<and> (\<forall>d \<in> set ds. r_setup E d = CmdOk)"
  using assms
proof (induction cs arbitrary: n installed m s)
  case (Cons c cs)
  obtain m1 s1 g1 where c1: "checkpoint_installed E (installed @ [sc_id c]) m s = (m1, s1, g1)" by (metis prod_cases3)
  obtain m2 s2 g2 where c2: "checkpoint_installed E (installed @ [sc_id c]) m1 (add_route (sc_id c) s1) = (m2, s2, g2)"
    by (metis prod_cases3)
  obtain m3 s3 g3 where c3: "checkpoint_installed E installed m1 s1 = (m3, s3, g3)" by (metis prod_cases3)
  have none: "\<exists>ds. installed = installed @ map sc_id ds \<and> subseq ds (c # cs) \<and> (\<forall>d \<in> set ds. r_setup E d = CmdOk)"
    by (rule exI [of _ "[]"]) simp
  have skip: "\<exists>ds. installed' = installed @ map sc_id ds \<and> subseq ds (c # cs) \<and> (\<forall>d \<in> set ds. r_setup E d = CmdOk)"
    if "run_setup_commands E cs (Suc n) installed m3 s3 = (r, installed', m', s')"
    using Cons.IH [OF that] by (metis list_emb_Cons)
  show ?case
  proof (cases "g1 \<and> r_setup E c = CmdOk")
    case True
    with Cons.prems c1 c2 have "run_setup_commands E cs (Suc n) (installed @ [sc_id c]) m2 s2 = (r, installed', m', s')"
      by simp
    from Cons.IH [OF this] obtain ds where "installed' = installed @ [sc_id c] @ map sc_id ds" "subseq ds cs"
      "\<forall>d \<in> set ds. r_setup E d = CmdOk" by auto
    with True show ?thesis by (intro exI [of _ "c # ds"]) auto
  next
    case False
    with Cons.prems c1 c3 none skip show ?thesis
      by (cases g1; cases "r_setup E c") (auto split: if_splits)
  qed
qed simp

lemma setup_ids: "map sc_id (platform_setup_commands disp tun ip gw ipv6) = planned_routes ip"
  by (simp add: platform_setup_commands_def planned_routes_def SPLIT_ROUTES_def)

lemma install_parts:
  assumes "install_with E disp tun ip gw ipv6 s = (res, s')" "tracked s" "rt_table s = []"
  obtains (refused) "res = InstallErr ''state unreadable''" "s' = s"
  | (rolled_back) e installed m extra s2 where "res = InstallErr e" "tracked s2" "rt_table s2 = installed"
      "s' = rollback_and_record E disp installed m extra s2"
  | (complete) m where "res = InstallOk (planned_routes ip) (rs_stale (m :: route_state))" "tracked s'" "rt_table s' = planned_routes ip"
      "\<forall>c \<in> set (platform_setup_commands disp tun ip gw ipv6). r_setup E c = CmdOk"
proof -
  let ?cmds = "platform_setup_commands disp tun ip gw ipv6"
  define template where "template = \<lparr>rs_group = \<lparr>sr_tun_name = tun, sr_server_ip = ip, sr_interface_name = gw_interface_name gw,
            sr_original_gateway = Some (gw_gateway_ip gw), sr_route_form = route_form_of gw, sr_installed = []\<rparr>,
            rs_stale = []\<rparr>"
  note eq = assms(1) [unfolded install_with_def Let_def, folded template_def]
  show thesis
  proof (cases "sweep_leftover_before_install E disp template s")
    case None
    with eq show thesis by (intro refused) simp_all
  next
    case (Some x)
    obtain p s1 where x: "x = (p, s1)" by force
    from sweep_tracked [OF Some [unfolded x] assms(2,3)] have s1: "tracked s1" "rt_table s1 = []" by auto
    obtain r installed m s2 where rs: "run_setup_commands E ?cmds 0 [] p s1 = (r, installed, m, s2)" by (metis prod_cases4)
    from run_setup_tracked [OF rs s1] have s2: "tracked s2" "rt_table s2 = installed" by auto
    obtain ds where ds: "installed = map sc_id ds" "subseq ds ?cmds" "\<forall>d \<in> set ds. r_setup E d = CmdOk"
      using run_setup_subseq [OF rs] by auto
    show thesis
    proof (cases "r = SetupOk \<and> length installed = length (planned_routes ip)")
      case False
      let ?u = "filter (\<lambda>i. i \<notin> set installed) (sr_installed (rs_group m))"
      from False eq Some x rs have "\<exists>e. res = InstallErr e \<and> s' = rollback_and_record E disp installed m ?u s2"
        by (auto split: if_splits)
      with s2 rolled_back show thesis by blast
    next
      case True
      then have "length ds = length ?cmds" using ds(1) setup_ids [of disp tun ip gw ipv6] by (metis length_map)
      with ds(2) have "ds = ?cmds" by (rule subseq_same_length)
      with ds setup_ids have "installed = planned_routes ip" "\<forall>c \<in> set ?cmds. r_setup E c = CmdOk" by auto
      with True eq Some x rs s2 show thesis by (intro complete [of m]) auto
    qed
  qed
qed

text \<open>When nothing fails, the loop over the setup commands installs all of them.\<close>

lemma run_setup_all_ok:
  assumes "\<And>c. r_setup E c = CmdOk" "\<And>n. r_write E n"
  shows "rt_disk s \<noteq> UnreadableRecord \<Longrightarrow> \<exists>m' s'. run_setup_commands E cs n installed m s =
    (SetupOk, installed @ map sc_id cs, m', s') \<and> rs_stale m' = rs_stale m"
proof (induction cs arbitrary: n installed m s)
  case (Cons c cs)
  obtain m1 s1 g1 where c1: "checkpoint_installed E (installed @ [sc_id c]) m s = (m1, s1, g1)" by (metis prod_cases3)
  with Cons.prems assms(2) have g1: "g1" "rt_disk s1 \<noteq> UnreadableRecord"
    by (auto simp: checkpoint_installed_def write_record_def snap_def Let_def)
  obtain m2 s2 g2 where c2: "checkpoint_installed E (installed @ [sc_id c]) m1 (add_route (sc_id c) s1) = (m2, s2, g2)"
    by (metis prod_cases3)
  with g1(2) assms(2) have "rt_disk s2 \<noteq> UnreadableRecord"
    by (auto simp: checkpoint_installed_def write_record_def snap_def add_route_def Let_def)
  from Cons.IH [OF this, of "Suc n" "installed @ [sc_id c]" m2] obtain m' s' where
    "run_setup_commands E cs (Suc n) (installed @ [sc_id c]) m2 s2 = (SetupOk, installed @ sc_id c # map sc_id cs, m', s')"
    "rs_stale m' = rs_stale m2" by auto
  with checkpoint_sel(5) [OF c1] checkpoint_sel(5) [OF c2] c1 c2 g1(1) assms(1) show ?case by simp
qed simp

lemma install_all_ok:
  assumes "\<And>c. r_setup E c = CmdOk" "\<And>n. r_write E n" "rt_disk s = NoRecord"
  shows "fst (install_with E disp tun ip gw ipv6 s) = InstallOk (planned_routes ip) []"
proof -
  let ?cmds = "platform_setup_commands disp tun ip gw ipv6"
  define template where "template = \<lparr>rs_group = \<lparr>sr_tun_name = tun, sr_server_ip = ip, sr_interface_name = gw_interface_name gw,
            sr_original_gateway = Some (gw_gateway_ip gw), sr_route_form = route_form_of gw, sr_installed = []\<rparr>,
            rs_stale = []\<rparr>"
  obtain m' s' where "run_setup_commands E ?cmds 0 [] template s = (SetupOk, [] @ map sc_id ?cmds, m', s')"
    "rs_stale m' = rs_stale template"
    using run_setup_all_ok [OF assms(1,2), of s ?cmds 0 "[]" template] assms(3) by auto
  then show ?thesis unfolding install_with_def Let_def template_def [symmetric]
    by (simp add: sweep_leftover_before_install_def assms(3) setup_ids) (simp add: template_def)
qed

section \<open>What recovery does to its groups\<close>

text \<open>The routes a group lost are those a confirmed delete, one of its own commands, removed.\<close>

definition shrunk :: "(route_command \<Rightarrow> bool) \<Rightarrow> (stale_record \<Rightarrow> route_command list) \<Rightarrow> stale_record \<Rightarrow> stale_record \<Rightarrow> bool" where
  "shrunk run cmds_of g g' \<longleftrightarrow> ident g' = ident g \<and> set (sr_installed g') \<subseteq> set (sr_installed g) \<and>
     (\<forall>i \<in> set (sr_installed g) - set (sr_installed g'). \<exists>c \<in> set (cmds_of g). rc_id c = i \<and> run c)"

lemma shrunk_refl [simp]: "shrunk run cmds_of g g"
  by (simp add: shrunk_def)

text \<open>A builder of commands that looks at nothing but the identity of a group.\<close>

definition by_ident :: "(stale_record \<Rightarrow> route_command list) \<Rightarrow> bool" where
  "by_ident cmds_of \<longleftrightarrow> (\<forall>g h. ident g = ident h \<longrightarrow> cmds_of g = cmds_of h)"

lemma shrunk_trans:
  assumes "by_ident cmds_of"
  shows "shrunk run cmds_of g h \<Longrightarrow> shrunk run cmds_of h k \<Longrightarrow> shrunk run cmds_of g k"
proof -
  assume gh: "shrunk run cmds_of g h" and hk: "shrunk run cmds_of h k"
  then have "cmds_of h = cmds_of g" using assms unfolding shrunk_def by_ident_def by metis
  moreover have "\<exists>c \<in> set (cmds_of g). rc_id c = i \<and> run c"
    if "i \<in> set (sr_installed g)" "i \<notin> set (sr_installed k)" for i
    using that gh hk calculation by (cases "i \<in> set (sr_installed h)") (auto simp: shrunk_def)
  ultimately show ?thesis using gh hk by (auto simp: shrunk_def)
qed

lemma shrunk_narrow: "run c \<Longrightarrow> list_all2 (shrunk run cmds_of) gs (narrow_groups cmds_of c gs)"
  by (auto simp: narrow_groups_def list_all2_conv_all_nth shrunk_def)

lemma shrunk_list_trans:
  assumes "by_ident cmds_of" "list_all2 (shrunk run cmds_of) gs hs" "list_all2 (shrunk run cmds_of) hs ks"
  shows "list_all2 (shrunk run cmds_of) gs ks"
proof -
  have "length gs = length ks" using assms(2,3) by (simp add: list_all2_lengthD)
  moreover have "shrunk run cmds_of (gs ! n) (ks ! n)" if "n < length gs" for n
  proof (rule shrunk_trans [OF assms(1)])
    show "shrunk run cmds_of (gs ! n) (hs ! n)" using assms(2) that by (rule list_all2_nthD)
    show "shrunk run cmds_of (hs ! n) (ks ! n)"
      using assms(3) by (rule list_all2_nthD) (use assms(2) that in \<open>simp add: list_all2_lengthD\<close>)
  qed
  ultimately show ?thesis by (simp add: list_all2_conv_all_nth)
qed

lemma run_group_shrunk:
  assumes ids: "by_ident cmds_of"
  shows "list_all2 (shrunk run cmds_of) (fst st) (fst (run_group_commands run ck cmds_of cs st))"
proof (induction cs arbitrary: st)
  case (Cons c cs)
  obtain gs issued s where st: "st = (gs, issued, s)" by (metis prod_cases3)
  let ?gs = "if run c then narrow_groups cmds_of c gs else gs"
  have "list_all2 (shrunk run cmds_of) gs ?gs" by (simp add: shrunk_narrow list_all2_refl)
  moreover have "list_all2 (shrunk run cmds_of) ?gs
      (fst (run_group_commands run ck cmds_of cs (?gs, issued @ [rc_argv c], ck ?gs s)))"
    using Cons.IH [of "(?gs, issued @ [rc_argv c], ck ?gs s)"] by simp
  ultimately have "list_all2 (shrunk run cmds_of) gs
      (fst (run_group_commands run ck cmds_of cs (?gs, issued @ [rc_argv c], ck ?gs s)))"
    by (rule shrunk_list_trans [OF ids])
  then show ?case by (simp add: st Let_def)
qed (simp add: list_all2_refl)

lemma group_loop_shrunk:
  assumes ids: "by_ident cmds_of"
  shows "list_all2 (shrunk run cmds_of) (fst st) (fst (group_loop run ck cmds_of is st))"
proof (induction "is" arbitrary: st)
  case (Cons i "is")
  obtain gs issued s where st: "st = (gs, issued, s)" by (metis prod_cases3)
  let ?cmds = "filter (\<lambda>c. rc_id c \<in> set (sr_installed (gs ! i)) \<and> rc_argv c \<notin> set issued) (cmds_of (gs ! i))"
  let ?st = "run_group_commands run ck cmds_of ?cmds (gs, issued, s)"
  have "list_all2 (shrunk run cmds_of) gs (fst ?st)"
    using run_group_shrunk [where st = "(gs, issued, s)", OF ids] by simp
  moreover note Cons.IH [of ?st]
  ultimately have "list_all2 (shrunk run cmds_of) gs (fst (group_loop run ck cmds_of is ?st))"
    by (rule shrunk_list_trans [OF ids])
  then show ?case by (simp add: st Let_def)
qed (simp add: list_all2_refl)

lemma bypass_ident: "by_ident (bypass_commands disp)"
  by (simp add: by_ident_def ident_def bypass_commands_def)

lemma split_ident: "by_ident (\<lambda>g. platform_split_teardown_commands (sr_tun_name g))"
  by (simp add: by_ident_def ident_def)

lemma build_ident: "by_ident (build_teardown_commands disp)"
  by (simp add: by_ident_def ident_def build_teardown_commands_def bypass_commands_def)

lemma shrunk_list_mono:
  assumes "list_all2 (shrunk run cmds_of) gs hs" "\<And>g. set (cmds_of g) \<subseteq> set (wider g)"
  shows "list_all2 (shrunk run wider) gs hs"
  using assms(1) by (rule list_all2_mono) (use assms(2) in \<open>unfold shrunk_def, blast\<close>)

lemma run_group_issued:
  "fst (snd (run_group_commands run ck cmds_of cs st)) = fst (snd st) @ map rc_argv cs"
proof (induction cs arbitrary: st)
  case (Cons c cs)
  obtain gs issued s where "st = (gs, issued, s)" by (metis prod_cases3)
  then show ?case by (simp add: Cons.IH Let_def)
qed simp

lemma group_loop_distinct:
  assumes "\<And>g. distinct (map rc_argv (cmds_of g))"
  shows "distinct (fst (snd st)) \<Longrightarrow> distinct (fst (snd (group_loop run ck cmds_of is st)))"
proof (induction "is" arbitrary: st)
  case (Cons i "is")
  obtain gs issued s where st: "st = (gs, issued, s)" by (metis prod_cases3)
  let ?cmds = "filter (\<lambda>c. rc_id c \<in> set (sr_installed (gs ! i)) \<and> rc_argv c \<notin> set issued) (cmds_of (gs ! i))"
  have "distinct (map rc_argv ?cmds)" by (rule distinct_map_filter [OF assms])
  with Cons.prems st have "distinct (fst (snd (run_group_commands run ck cmds_of ?cmds (gs, issued, s))))"
    by (auto simp: run_group_issued)
  from Cons.IH [OF this] show ?case unfolding st by (simp add: Let_def)
qed simp

section \<open>Samples\<close>

definition sample_group :: "route_id list \<Rightarrow> stale_record" where
  "sample_group ids = \<lparr>sr_tun_name = ''hole-tun'', sr_server_ip = V4 16909060, sr_interface_name = ''eth'',
     sr_original_gateway = None, sr_route_form = Via, sr_installed = ids\<rparr>"

definition sample_gateway :: gateway_info where
  "sample_gateway = \<lparr>gw_gateway_ip = V4 1, gw_interface_name = ''eth'', gw_next_hop = NextVia (V4 1)\<rparr>"

definition fresh_rt :: rt where
  "fresh_rt = \<lparr>rt_table = [], rt_disk = NoRecord, rt_writes = 0, rt_snaps = []\<rparr>"

lemma tracked_fresh [simp]: "tracked fresh_rt" "rt_table fresh_rt = []"
  by (simp_all add: tracked_def fresh_rt_def)

text \<open>The second command fails and its delete is not confirmed.\<close>

definition sample_rt_env :: rt_env where
  "sample_rt_env = \<lparr>r_setup = (\<lambda>c. if sc_id c = SplitV4High then CmdExit 1 else CmdOk),
     r_teardown = (\<lambda>c. rc_id c \<noteq> SplitV4Low), r_write = (\<lambda>_. True)\<rparr>"

lemmas install_sample_defs = sample_rt_env_def sample_gateway_def fresh_rt_def install_with_def
  sweep_leftover_before_install_def platform_setup_commands_def planned_routes_def SPLIT_ROUTES_def
  checkpoint_installed_def write_record_def add_route_def del_route_def snap_def Let_def rollback_and_record_def
  teardown_routes_def build_teardown_commands_def platform_split_teardown_commands_def bypass_commands_def
  union_ids_def route_form_of_def platform_bypass_teardown_command_def

section \<open>Properties\<close>

text \<open>
  The canonical form of route groups: no two groups share an identity, no group is empty,
  the routes claimed are exactly those of the input that a teardown command exists for (so
  nothing that can be deleted is lost and nothing is invented), and putting a canonical list
  in canonical form changes no claim.
\<close>

theorem coalesce_canonical:
  "distinct (map ident (coalesce gs)) \<and> [] \<notin> sr_installed ` set (coalesce gs) \<and>
   claims (coalesce gs) = {x \<in> claims gs. plannable x} \<and> claims (coalesce (coalesce gs)) = claims (coalesce gs)"
  using coalesce_distinct coalesce_claims by (auto simp: coalesce_def)



text \<open>
  What a successful install guarantees: every planned route is in the table and named by
  the record on disk, and every setup command succeeded, those marked as tolerable on hosts
  without IPv6 included: one failing IPv6 split fails the install.
\<close>

theorem install_ok_complete:
  assumes "install_with E disp tun ip gw ipv6 s = (InstallOk installed stale, s')" "tracked s" "rt_table s = []"
  shows "installed = planned_routes ip \<and> rt_table s' = planned_routes ip \<and>
    set (planned_routes ip) \<subseteq> named (rt_disk s') \<and>
    (\<forall>c \<in> set (platform_setup_commands disp tun ip gw ipv6). r_setup E c = CmdOk)"
  using assms
proof (cases rule: install_parts)
  case (complete m)
  then show ?thesis by (auto simp: tracked_def)
qed auto

theorem install_ok_complete_witness:
  "ServerBypass \<in> named (rt_disk (snd (install_with (sample_rt_env\<lparr>r_setup := \<lambda>_. CmdOk\<rparr>) (\<lambda>_. ''x'') ''hole-tun''
     (V4 16909060) sample_gateway True fresh_rt)))"
proof -
  let ?r = "install_with (sample_rt_env\<lparr>r_setup := \<lambda>_. CmdOk\<rparr>) (\<lambda>_. ''x'') ''hole-tun'' (V4 16909060) sample_gateway True fresh_rt"
  have "fst ?r = InstallOk (planned_routes (V4 16909060)) []"
    by (rule install_all_ok) (simp_all add: sample_rt_env_def fresh_rt_def)
  then have "?r = (InstallOk (planned_routes (V4 16909060)) [], snd ?r)" by (metis prod.collapse)
  from install_ok_complete [OF this] show ?thesis by (auto simp: planned_routes_def)
qed

text \<open>
  Recovery never forgets a leak and never deletes twice: a group loses a route only
  through a confirmed delete that is one of its own teardown commands, keeps its identity, and
  within each of the two passes no command line is run twice, however many groups would issue
  it (a second delete could remove what another program put there since).
\<close>

theorem recover_groups_sound:
  "list_all2 (shrunk run (build_teardown_commands disp)) groups (fst (recover_groups disp run ck groups s)) \<and>
   distinct (fst (snd (group_loop run ck (\<lambda>g. platform_split_teardown_commands (sr_tun_name g)) is (groups, [], s)))) \<and>
   distinct (fst (snd (group_loop run ck (bypass_commands disp) is (groups, [], s))))"
proof (intro conjI)
  let ?split = "\<lambda>g. platform_split_teardown_commands (sr_tun_name g)"
  let ?l1 = "group_loop run ck ?split [0..<length groups] (groups, [], s)"
  have 1: "list_all2 (shrunk run (build_teardown_commands disp)) groups (fst ?l1)"
    using group_loop_shrunk [OF split_ident, of run "(groups, [], s)" ck "[0..<length groups]", unfolded fst_conv]
    by (rule shrunk_list_mono [where cmds_of = ?split])
       (simp_all add: build_teardown_commands_def)
  have 2: "list_all2 (shrunk run (build_teardown_commands disp)) (fst ?l1)
      (fst (group_loop run ck (bypass_commands disp) [0..<length groups] (fst ?l1, [], snd (snd ?l1))))"
    using group_loop_shrunk [OF bypass_ident, of run disp "(fst ?l1, [], snd (snd ?l1))" ck "[0..<length groups]", unfolded fst_conv]
    by (rule shrunk_list_mono [where cmds_of = "bypass_commands disp"])
       (simp_all add: build_teardown_commands_def)
  show "list_all2 (shrunk run (build_teardown_commands disp)) groups (fst (recover_groups disp run ck groups s))"
    using shrunk_list_trans [OF build_ident 1 2] by (simp add: recover_groups_def case_prod_beta Let_def)
  show "distinct (fst (snd (group_loop run ck ?split is (groups, [], s))))"
    by (rule group_loop_distinct) (simp_all add: platform_split_teardown_commands_def)
  show "distinct (fst (snd (group_loop run ck (bypass_commands disp) is (groups, [], s))))"
    by (rule group_loop_distinct) (simp_all add: bypass_commands_def split: option.splits)
qed

end
