(* ===== verification/Clearance.thy ===== *)
theory Clearance
  imports Lockdown
begin

text \<open>
  What a release sweep of the fail-closed covers proved, and the persisted record of an
  outstanding boot-time twin: the platform-free half of
  crates/tun-engine/src/routing/failclosed.rs (\<^verbatim>\<open>KeyObservation\<close>, \<^verbatim>\<open>Clearance\<close>,
  \<^verbatim>\<open>sweep_with_witness\<close>) and crates/tun-engine/src/routing/failclosed/boottime\_witness.rs.

  A sweep is what the platform observed, a list of observations with an optional failure; the
  record is a state file of role \<^verbatim>\<open>Decision\<close>. The last section follows the record over any
  history of engages and sweeps.
\<close>

section \<open>Observations\<close>

datatype key_lifetime = PersistentKey | BootTimeKey

datatype key_outcome = KeyRemoved | KeyNotFound | KeyFailed

datatype key_role = PlainKey | BootTimeSibling

record key_observation =
  ko_key :: string
  ko_lifetime :: key_lifetime
  ko_outcome :: key_outcome
  ko_role :: key_role

fun proves_empty_pair :: "key_lifetime \<Rightarrow> key_outcome \<Rightarrow> bool" where
  "proves_empty_pair PersistentKey KeyRemoved = True"
| "proves_empty_pair PersistentKey KeyNotFound = True"
| "proves_empty_pair BootTimeKey KeyRemoved = True"
| "proves_empty_pair BootTimeKey KeyNotFound = False"
| "proves_empty_pair _ KeyFailed = False"

definition proves_empty :: "key_observation \<Rightarrow> bool" where
  "proves_empty ob = proves_empty_pair (ko_lifetime ob) (ko_outcome ob)"

datatype arming_witness = WitnessArmed | WitnessDisarmed | WitnessUnset | WitnessUnreadable

fun witness_possible :: "arming_witness \<Rightarrow> bool" where
  "witness_possible WitnessArmed = True"
| "witness_possible WitnessUnreadable = True"
| "witness_possible WitnessDisarmed = False"
| "witness_possible WitnessUnset = False"

definition witness_or :: "arming_witness \<Rightarrow> arming_witness \<Rightarrow> arming_witness" where
  "witness_or a b = (if witness_possible a then a else b)"

datatype boot_time_sightings = NoSightings | AllProven | SomeUnproven

datatype sibling_evidence = SiblingInstalled | SiblingAbsent | SiblingUnknown

fun sibling_possible :: "sibling_evidence \<Rightarrow> bool" where
  "sibling_possible SiblingInstalled = True"
| "sibling_possible SiblingUnknown = True"
| "sibling_possible SiblingAbsent = False"

definition sibling_evidence_of :: "key_observation list \<Rightarrow> sibling_evidence" where
  "sibling_evidence_of obs =
     (let outcomes = map ko_outcome (filter (\<lambda>ob. ko_role ob = BootTimeSibling) obs)
      in if outcomes = [] then SiblingUnknown
         else if KeyRemoved \<in> set outcomes then SiblingInstalled
         else if list_all (\<lambda>oc. oc = KeyNotFound) outcomes then SiblingAbsent
         else SiblingUnknown)"

definition boot_time_sightings_of :: "key_observation list \<Rightarrow> boot_time_sightings" where
  "boot_time_sightings_of obs =
     (let (seen, unproven) = foldl (\<lambda>(_, u) ob. (True, u \<or> \<not> proves_empty ob)) (False, False)
            (filter (\<lambda>ob. ko_lifetime ob = BootTimeKey) obs)
      in if \<not> seen then NoSightings else if unproven then SomeUnproven else AllProven)"

section \<open>The verdict\<close>

record clearance =
  unproven :: "string list"
  sibling :: sibling_evidence
  witness :: arming_witness
  boot_time :: boot_time_sightings

definition proven :: clearance where
  "proven = \<lparr>unproven = [], sibling = SiblingAbsent, witness = WitnessUnset, boot_time = NoSightings\<rparr>"

definition from_observations :: "key_observation list \<Rightarrow> arming_witness \<Rightarrow> clearance" where
  "from_observations obs w =
     \<lparr>unproven = map ko_key (filter (\<lambda>ob. \<not> proves_empty ob) obs), sibling = sibling_evidence_of obs,
      witness = w, boot_time = boot_time_sightings_of obs\<rparr>"

definition corroborate :: "clearance \<Rightarrow> arming_witness \<Rightarrow> clearance" where
  "corroborate c w = c\<lparr>witness := witness_or (witness c) w\<rparr>"

definition is_proven :: "clearance \<Rightarrow> bool" where
  "is_proven c \<longleftrightarrow> unproven c = []"

definition leftover_keys :: "clearance \<Rightarrow> string list" where
  "leftover_keys c = (if sibling_possible (sibling c) \<or> witness_possible (witness c) then unproven c else [])"

datatype witness_update = Arm | Disarm | Leave

fun witness_update_pair :: "boot_time_sightings \<Rightarrow> sibling_evidence \<Rightarrow> witness_update" where
  "witness_update_pair NoSightings _ = Leave"
| "witness_update_pair AllProven _ = Disarm"
| "witness_update_pair SomeUnproven SiblingInstalled = Arm"
| "witness_update_pair SomeUnproven SiblingUnknown = Arm"
| "witness_update_pair SomeUnproven SiblingAbsent = Leave"

definition witness_update_of :: "clearance \<Rightarrow> witness_update" where
  "witness_update_of c = witness_update_pair (boot_time c) (sibling c)"

section \<open>The record (boottime\_witness.rs)\<close>

record boot_time_state =
  bt_armed :: bool

definition BOOTTIME_FILE_NAME :: string where
  "BOOTTIME_FILE_NAME = ''bridge-boottime.json''"

definition boottime_file :: "boot_time_state codec \<Rightarrow> boot_time_state schema" where
  "boottime_file C = decision_file BOOTTIME_FILE_NAME C"

fun witness_of :: "boot_time_state loaded \<Rightarrow> arming_witness" where
  "witness_of Absent = WitnessUnset"
| "witness_of (Current value _) = (if bt_armed value then WitnessArmed else WitnessDisarmed)"
| "witness_of (Obsolete _ _) = WitnessUnreadable"
| "witness_of (Newer _ _) = WitnessUnreadable"
| "witness_of (Corrupt _ _) = WitnessUnreadable"
| "witness_of (Unreadable _ _) = WitnessUnreadable"

definition load_witness :: "boot_time_state codec \<Rightarrow> fs_env \<Rightarrow> world \<Rightarrow> arming_witness option" where
  "load_witness C E w = map_option (\<lambda>ob. witness_of (obs_loaded ob)) (observe (boottime_file C) E w)"

definition save_witness :: "boot_time_state codec \<Rightarrow> fs_env \<Rightarrow> bool \<Rightarrow> world \<Rightarrow> world \<times> unit update_result" where
  "save_witness C E armed w = vf_update (boottime_file C) E (\<lambda>_. (Store \<lparr>bt_armed = armed\<rparr>, ())) w"

text \<open>\<^verbatim>\<open>write_or_warn\<close>: the flag says whether the write succeeded; the code only logs it.\<close>

definition write_or_warn :: "boot_time_state codec \<Rightarrow> fs_env \<Rightarrow> bool \<Rightarrow> world \<Rightarrow> world \<times> bool" where
  "write_or_warn C E armed w =
     (case save_witness C E armed w of (w', r) \<Rightarrow> (w', case r of UOk _ _ \<Rightarrow> True | _ \<Rightarrow> False))"

definition record_armed :: "boot_time_state codec \<Rightarrow> fs_env \<Rightarrow> world \<Rightarrow> world \<times> bool" where
  "record_armed C E w = write_or_warn C E True w"

fun next_record :: "arming_witness \<Rightarrow> witness_update \<Rightarrow> bool option" where
  "next_record current Leave = None"
| "next_record current Arm = (if current \<noteq> WitnessArmed then Some True else None)"
| "next_record current Disarm = (if current \<notin> {WitnessDisarmed, WitnessUnset} then Some False else None)"

definition apply_witness :: "boot_time_state codec \<Rightarrow> fs_env \<Rightarrow> arming_witness \<Rightarrow> witness_update \<Rightarrow> world \<Rightarrow> world \<times> bool" where
  "apply_witness C E current update w =
     (case next_record current update of None \<Rightarrow> (w, True) | Some armed \<Rightarrow> write_or_warn C E armed w)"

section \<open>A sweep against the record\<close>

record 'e sweep_outcome =
  so_clearance :: clearance
  so_failure :: "'e option"

definition completed :: "clearance \<Rightarrow> 'e sweep_outcome" where
  "completed c = \<lparr>so_clearance = c, so_failure = None\<rparr>"

definition sweep_failed :: "clearance \<Rightarrow> 'e \<Rightarrow> 'e sweep_outcome" where
  "sweep_failed c e = \<lparr>so_clearance = c, so_failure = Some e\<rparr>"

text \<open>
  \<^verbatim>\<open>sweep_with_witness\<close>. A load of the record never panics (\<open>load_witness_total\<close>), so the second
  branch is not reached; the flag of the result says whether the record's write succeeded.
\<close>

definition sweep_with_witness :: "boot_time_state codec \<Rightarrow> fs_env \<Rightarrow> (arming_witness \<Rightarrow> 'e sweep_outcome) \<Rightarrow> world \<Rightarrow>
    world \<times> bool \<times> ('e, clearance) result" where
  "sweep_with_witness C E sweep w =
     (let current = (case load_witness C E w of Some x \<Rightarrow> x | None \<Rightarrow> WitnessUnreadable);
          out = sweep current;
          (w', good) = apply_witness C E current (witness_update_of (so_clearance out)) w
      in (w', good, case so_failure out of Some e \<Rightarrow> Err e | None \<Rightarrow> Ok (so_clearance out)))"

section \<open>Lemmas\<close>

lemma load_witness_total: "\<exists>x. load_witness C E w = Some x"
  using observe_record_file [of Decision BOOTTIME_FILE_NAME C E w]
  by (auto simp: load_witness_def boottime_file_def)

lemma load_witness_clean:
  "load_witness C no_faults w = map_option witness_of (clean_read (boottime_file C) w)"
  by (simp add: load_witness_def clean_read_def option.map_comp comp_def)

text \<open>A read that fails reads as unreadable, never as another record.\<close>

lemma from_read_fault:
  "from_read S (Err (fault_kind f)) at = Some (case at of Some kind \<Rightarrow> Unreadable (fault_kind f) kind | None \<Rightarrow> Absent)"
  by (cases f) (simp_all add: from_read_def split: option.split)

lemma from_read_not_found: "from_read S (Err NotFound) at = Some Absent"
  by (simp add: from_read_def)

lemma read_through_faulty:
  "read_through S E es = read_through S no_faults es \<or> (\<exists>k u. read_through S E es = Some (Unreadable k u))"
proof (cases "f_read E")
  case (Some f)
  then show ?thesis
    by (cases "f_probe E"; cases "map_of es (FILE_NAME S)")
       (auto simp: read_through_def fs_read_def probe_kind_def from_read_fault from_read_not_found no_faults_def split: node.splits)
next
  case None
  then show ?thesis
    by (cases "f_probe E"; cases "map_of es (FILE_NAME S)")
       (auto simp: read_through_def fs_read_def probe_kind_def no_faults_def from_read_def split: node.splits)
qed

lemma load_witness_faulty:
  "load_witness C E w = load_witness C no_faults w \<or> load_witness C E w = Some WitnessUnreadable"
proof (cases "f_open E")
  case (Some f)
  then show ?thesis by (simp add: load_witness_def observe_def from_read_fault)
next
  case None
  show ?thesis
  proof (cases "w_dir w")
    case (Some es)
    with None read_through_faulty [of "boottime_file C" E es] show ?thesis
      by (auto simp: load_witness_def observe_def no_faults_def)
  qed (use None in \<open>simp add: load_witness_def observe_def no_faults_def\<close>)
qed

lemma write_or_warn_effect:
  assumes "codec_roundtrips C" "write_or_warn C E b w = (w', good)"
  shows "load_witness C no_faults w' =
    (if good then Some (if b then WitnessArmed else WitnessDisarmed) else load_witness C no_faults w)"
proof -
  obtain r where r: "save_witness C E b w = (w', r)" "good = (case r of UOk _ _ \<Rightarrow> True | _ \<Rightarrow> False)"
    using assms(2) by (auto simp: write_or_warn_def split: prod.splits)
  from record_store [OF assms(1) r(1) [unfolded save_witness_def boottime_file_def]] r(2) show ?thesis
    by (auto simp: load_witness_clean boottime_file_def split: update_result.splits)
qed

lemma sightings_fold:
  "foldl (\<lambda>(_, u) ob. (True, u \<or> \<not> proves_empty ob)) (s, u) obs =
     (s \<or> obs \<noteq> [], u \<or> list_ex (\<lambda>ob. \<not> proves_empty ob) obs)"
  by (induction obs arbitrary: s u) auto

lemma boot_time_sightings_cases:
  "boot_time_sightings_of obs =
     (let bt = filter (\<lambda>ob. ko_lifetime ob = BootTimeKey) obs
      in if bt = [] then NoSightings else if list_all proves_empty bt then AllProven else SomeUnproven)"
  by (auto simp: boot_time_sightings_of_def sightings_fold Let_def list_ex_iff list_all_iff)

section \<open>Histories\<close>

text \<open>
  What happens to the record over the life of a host: an engage that committed, and a sweep with
  what it observed and whether it failed. \<open>owed_after\<close> is the specification: a twin is owed from
  an engage, or from a sweep that could not prove a twin empty while its siblings left a record
  possible, until a sweep watched every twin go.
\<close>

datatype cover_event = EngageCommitted | SweptHost "key_observation list" "string option"

definition run_event :: "boot_time_state codec \<Rightarrow> fs_env \<Rightarrow> cover_event \<Rightarrow> world \<Rightarrow> world \<times> bool" where
  "run_event C E ev w =
     (case ev of
        EngageCommitted \<Rightarrow> record_armed C E w
      | SweptHost obs failure \<Rightarrow>
          (case sweep_with_witness C E (\<lambda>x. \<lparr>so_clearance = from_observations obs x, so_failure = failure\<rparr>) w of
             (w', good, _) \<Rightarrow> (w', good)))"

fun owed_step :: "bool \<Rightarrow> cover_event \<Rightarrow> bool" where
  "owed_step b EngageCommitted = True"
| "owed_step b (SweptHost obs failure) =
     (case boot_time_sightings_of obs of
        NoSightings \<Rightarrow> b
      | AllProven \<Rightarrow> False
      | SomeUnproven \<Rightarrow> b \<or> sibling_possible (sibling_evidence_of obs))"

inductive cover_history :: "boot_time_state codec \<Rightarrow> world \<Rightarrow> cover_event list \<Rightarrow> world \<Rightarrow> bool"
  for C :: "boot_time_state codec" and w :: world where
  start: "cover_history C w [] w"
| event: "cover_history C w evs w1 \<Longrightarrow> run_event C E ev w1 = (w2, True) \<Longrightarrow> cover_history C w (evs @ [ev]) w2"

lemma run_sweep:
  assumes "run_event C E (SweptHost obs failure) w = (w', good)"
  obtains current where "load_witness C E w = Some current"
    "apply_witness C E current (witness_update_pair (boot_time_sightings_of obs) (sibling_evidence_of obs)) w = (w', good)"
  using assms load_witness_total [of C E w]
  by (auto simp: run_event_def sweep_with_witness_def witness_update_of_def from_observations_def split: prod.splits)

lemma run_event_tracks:
  assumes "codec_roundtrips C" "run_event C E ev w = (w', True)" "load_witness C no_faults w = Some x"
  shows "\<exists>y. load_witness C no_faults w' = Some y \<and> witness_possible y = owed_step (witness_possible x) ev"
proof (cases ev)
  case EngageCommitted
  with assms(2) write_or_warn_effect [OF assms(1), of E True w w' True] show ?thesis
    by (simp add: run_event_def record_armed_def)
next
  case (SweptHost obs failure)
  obtain current where c: "load_witness C E w = Some current"
    "apply_witness C E current (witness_update_pair (boot_time_sightings_of obs) (sibling_evidence_of obs)) w = (w', True)"
    using run_sweep [OF assms(2) [unfolded SweptHost]] .
  have x: "current = x \<or> current = WitnessUnreadable" using load_witness_faulty [of C E w] assms(3) c(1) by auto
  show ?thesis
    using c(2) x assms(3) write_or_warn_effect [OF assms(1), of E _ w w' True] SweptHost
    by (cases "boot_time_sightings_of obs"; cases "sibling_evidence_of obs"; cases x)
       (auto simp: apply_witness_def split: if_splits)
qed

lemma history_tracks:
  assumes "codec_roundtrips C" "cover_history C w evs w'" "load_witness C no_faults w = Some x"
  shows "\<exists>y. load_witness C no_faults w' = Some y \<and> witness_possible y = foldl owed_step (witness_possible x) evs"
  using assms(2)
proof (induction rule: cover_history.induct)
  case (event evs w1 E ev w2)
  then obtain y where "load_witness C no_faults w1 = Some y"
    "witness_possible y = foldl owed_step (witness_possible x) evs" by auto
  with run_event_tracks [OF assms(1) event.hyps(2)] show ?case by auto
qed (use assms(3) in simp)

section \<open>Samples\<close>

definition sample_boottime :: "boot_time_state codec" where
  "sample_boottime =
     \<lparr>cd_json = sample_json,
      cd_from_slice = (\<lambda>bs. if bs = ''1y'' then Ok \<lparr>bt_armed = True\<rparr>
        else if bs = ''1n'' then Ok \<lparr>bt_armed = False\<rparr> else Err (framing ''data'')),
      cd_to_vec = (\<lambda>v x. Ok (if bt_armed x then ''1y'' else ''1n''))\<rparr>"

lemma sample_boottime_roundtrips [simp]: "codec_roundtrips sample_boottime"
  by (simp add: codec_roundtrips_def sample_boottime_def)

text \<open>The twin answers empty; its sibling was already removed.\<close>

definition spent_twin :: "key_observation list" where
  "spent_twin =
     [\<lparr>ko_key = ''sibling'', ko_lifetime = PersistentKey, ko_outcome = KeyNotFound, ko_role = BootTimeSibling\<rparr>,
      \<lparr>ko_key = ''twin'', ko_lifetime = BootTimeKey, ko_outcome = KeyNotFound, ko_role = PlainKey\<rparr>]"

definition removed_twin :: "key_observation list" where
  "removed_twin =
     [\<lparr>ko_key = ''twin'', ko_lifetime = BootTimeKey, ko_outcome = KeyRemoved, ko_role = PlainKey\<rparr>]"

section \<open>Properties\<close>

text \<open>
  C14. No stranded boot-time block goes unreported. After any history of engages and sweeps,
  failing sweeps included, whose writes of the record succeeded: while a twin is owed, the next
  sweep reports every key it could not prove empty, whatever it observes and even when it cannot
  read the record; and on a host that owes none, a sweep that finds no sibling and reads the
  record reports nothing.
\<close>

theorem outstanding_twin_is_reported:
  assumes "codec_roundtrips C" "cover_history C w evs w'" "load_witness C no_faults w = Some x"
    and "sweep_with_witness C E (\<lambda>y. completed (from_observations obs y)) w' = (w'', good, Ok c)"
  shows "(foldl owed_step (witness_possible x) evs \<longrightarrow>
      leftover_keys c = map ko_key (filter (\<lambda>ob. \<not> proves_empty ob) obs)) \<and>
    (\<not> foldl owed_step (witness_possible x) evs \<and> sibling_evidence_of obs = SiblingAbsent \<and>
      load_witness C E w' = load_witness C no_faults w' \<longrightarrow> leftover_keys c = [])"
proof -
  obtain y where y: "load_witness C no_faults w' = Some y" "witness_possible y = foldl owed_step (witness_possible x) evs"
    using history_tracks [OF assms(1,2,3)] by auto
  obtain z where z: "load_witness C E w' = Some z" "c = from_observations obs z"
    using assms(4) load_witness_total [of C E w']
    by (auto simp: sweep_with_witness_def completed_def split: prod.splits)
  with y load_witness_faulty [of C E w'] show ?thesis
    by (auto simp: leftover_keys_def from_observations_def)
qed

theorem outstanding_twin_is_reported_witness:
  "leftover_keys (case snd (snd (sweep_with_witness sample_boottime no_faults
      (\<lambda>y. completed (from_observations spent_twin y) :: string sweep_outcome)
      (fst (run_event sample_boottime no_faults EngageCommitted empty_world)))) of Ok c \<Rightarrow> c | Err _ \<Rightarrow> proven) = [''twin'']"
proof -
  let ?w = "fst (run_event sample_boottime no_faults EngageCommitted empty_world)"
  let ?r = "sweep_with_witness sample_boottime no_faults (\<lambda>y. completed (from_observations spent_twin y) :: string sweep_outcome) ?w"
  have "snd (run_event sample_boottime no_faults EngageCommitted empty_world)" by code_simp
  then have "run_event sample_boottime no_faults EngageCommitted empty_world = (?w, True)"
    by (metis (full_types) prod.collapse)
  from cover_history.event [OF cover_history.start this]
  have h: "cover_history sample_boottime empty_world ([] @ [EngageCommitted]) ?w" .
  have l: "load_witness sample_boottime no_faults empty_world = Some WitnessUnset" by code_simp
  have u: "map ko_key (filter (\<lambda>ob. \<not> proves_empty ob) spent_twin) = [''twin'']" by code_simp
  have "\<exists>c. snd (snd ?r) = Ok c" by (simp add: sweep_with_witness_def completed_def Let_def split_def)
  then obtain c where c: "snd (snd ?r) = Ok c" by blast
  then have r: "?r = (fst ?r, fst (snd ?r), Ok c)" by (metis prod.collapse)
  from outstanding_twin_is_reported [OF sample_boottime_roundtrips h l r] u c show ?thesis by simp
qed

text \<open>
  Exactly one observation retracts the record, whichever reads and writes fail: an event
  after which the record no longer leaves a twin possible is a sweep that saw boot-time keys and
  watched every one of them being removed. An empty answer never does.
\<close>

theorem record_retracted_only_by_removal:
  assumes "codec_roundtrips C" "run_event C E ev w = (w', good)"
    and "load_witness C no_faults w = Some x" "witness_possible x"
    and "load_witness C no_faults w' = Some y" "\<not> witness_possible y"
  shows "\<exists>obs failure. ev = SweptHost obs failure \<and>
    (\<exists>ob \<in> set obs. ko_lifetime ob = BootTimeKey) \<and>
    (\<forall>ob \<in> set obs. ko_lifetime ob = BootTimeKey \<longrightarrow> ko_outcome ob = KeyRemoved)"
proof (cases ev)
  case EngageCommitted
  with assms write_or_warn_effect [OF assms(1), of E True w w' good] show ?thesis
    by (auto simp: run_event_def record_armed_def split: if_splits)
next
  case (SweptHost obs failure)
  obtain current where c: "load_witness C E w = Some current"
    "apply_witness C E current (witness_update_pair (boot_time_sightings_of obs) (sibling_evidence_of obs)) w = (w', good)"
    using run_sweep [OF assms(2) [unfolded SweptHost]] .
  have "boot_time_sightings_of obs = AllProven"
    using c(2) assms(3-6) write_or_warn_effect [OF assms(1), of E _ w w' good]
    by (cases "boot_time_sightings_of obs"; cases "sibling_evidence_of obs")
       (auto simp: apply_witness_def split: if_splits)
  then have p: "\<exists>ob \<in> set obs. ko_lifetime ob = BootTimeKey"
    "\<forall>ob \<in> set obs. ko_lifetime ob = BootTimeKey \<longrightarrow> proves_empty ob"
    by (auto simp: boot_time_sightings_cases Let_def list_all_iff filter_empty_conv split: if_splits)
  have "ko_outcome ob = KeyRemoved" if "ko_lifetime ob = BootTimeKey" "proves_empty ob" for ob
    using that by (cases "ko_outcome ob") (auto simp: proves_empty_def)
  with p SweptHost show ?thesis by blast
qed

theorem record_retracted_only_by_removal_witness:
  "load_witness sample_boottime no_faults (fst (run_event sample_boottime no_faults (SweptHost removed_twin (Some ''refused''))
      (fst (record_armed sample_boottime no_faults empty_world)))) = Some WitnessDisarmed \<and>
   list_all (\<lambda>ob. ko_outcome ob = KeyRemoved) removed_twin"
proof -
  let ?w = "fst (record_armed sample_boottime no_faults empty_world)"
  let ?r = "run_event sample_boottime no_faults (SweptHost removed_twin (Some ''refused'')) ?w"
  have e: "?r = (fst ?r, snd ?r)" by simp
  have a: "load_witness sample_boottime no_faults ?w = Some WitnessArmed" by code_simp
  have d: "load_witness sample_boottime no_faults (fst ?r) = Some WitnessDisarmed" by code_simp
  from record_retracted_only_by_removal [OF sample_boottime_roundtrips e a _ d] show ?thesis using d by (simp add: removed_twin_def)
qed

end
