(* ===== verification/Wfp_Cover.thy ===== *)
theory Wfp_Cover
  imports Clearance Net_Addr
begin

text \<open>
  The Windows fail-closed covers, crates/tun-engine/src/routing/failclosed/windows.rs: the filter
  sets of the transient and the standing cover, their keys, which keys an engage deletes first
  and a sweep deletes, the engage transactions, the release sweep with its verdicts, and the
  presence probe.

  The Windows Filtering Platform is a parameter, the record \<open>fwpm\<close> of the calls the code makes;
  \<open>fwpm_laws\<close> states what is relied on: a delete or an add that answers success takes effect and
  any other answer changes nothing, an add of a key that exists does not answer success, a read by
  key tells the truth, and an aborted transaction restores the object store. How the
  platform arbitrates between filters of one sublayer (the matching filter of the highest weight
  decides, no match permits) is the specification \<open>allows\<close>.
\<close>

unbundle bit_operations_syntax

section \<open>Keys\<close>

type_synonym guid = "128 word"

definition PROVIDER_GUID :: guid where
  "PROVIDER_GUID = 0xa3f1c2d45b6e47a89c0d1e2f3a4b5c6d"

definition SUBLAYER_GUID :: guid where
  "SUBLAYER_GUID = 0xb4e2d3c56c7f58b9ad1e2f3a4b5c6d7e"

definition FILTER_GUIDS :: "guid list" where
  "FILTER_GUIDS =
     [0xc5f3e4d67d8069cabe2f3a4b5c6d7e8f, 0xd60415078e917adbcf304b5c6d7e8f90,
      0xe71526189fa28becd0415c6d7e8f9001, 0xf8263729a0b39cfde1526d7e8f900112,
      0x0937483ab1c4ad0ef2637e8f90011223, 0x1a48594bc2d5be1f03748f9001122334,
      0x9fc31d471c7d662fc0af263264e68d4c, 0x64f1885c8acb79c4fac2cd84e29f45eb,
      0x8827e6e8461b48a09e88dc6371486cb0, 0x07d38d294bbb472faeb3e9d71f8967d9,
      0xa2a6419f0dd6462895780424bf1cc9b2, 0xa020f996e73f488cb1c95fce3ea0b1eb]"

definition LOCKDOWN_FILTER_GUIDS :: "guid list" where
  "LOCKDOWN_FILTER_GUIDS =
     [0x216a841bf2644047888139f24b4d6dce, 0x4d9cd0a2c48f40cf822589ce3f8a1376,
      0x0421643502094b1695c441f7c26af397, 0x316261ca7bd24949a64b08f6ddd66519,
      0x38bea56b116b4df88cac280ef661d248, 0xf733418ba1c8436585b5d5ce8810b144,
      0x4710d66194cb4fc7ab52f03f75774d3e, 0x20af67ac58ec41e6a49d6fd2ed55c184,
      0xfcd09bee0a6a7bb7de78f59dcf653693, 0xda582b539a85b667c519e80db74ab67e,
      0x2f10387e8f544f8291ca44aa862d945e, 0xd766a20f050a4c408de333bf259b7e34]"

definition LOCKDOWN_BOOTTIME_BLOCK_ALL_GUIDS :: "guid list" where
  "LOCKDOWN_BOOTTIME_BLOCK_ALL_GUIDS =
     [0xba322087a133481c86cc0692ad222e2d, 0x227bca1d54154421a5dabf5babe1c556]"

definition appid_filter_guid :: "nat \<Rightarrow> bool \<Rightarrow> guid" where
  "appid_filter_guid index v6 =
     0xf611568d6af6412786002d3239500000 XOR (push_bit 8 (word_of_nat index) OR (if v6 then 1 else 0))"

definition MAX_APPID_BINARIES :: nat where
  "MAX_APPID_BINARIES = 4"

definition RESOLVER_PERMIT_PORT :: u16 where
  "RESOLVER_PERMIT_PORT = 443"

section \<open>Filters\<close>

datatype layer = ConnectV4 | ConnectV6 | RecvAcceptV4 | RecvAcceptV6

datatype wfp_action = PermitFlow | BlockFlow

datatype condition =
    LoopbackFlag
  | LoopbackNet ip_addr
  | RemoteIp ip_addr
  | RemoteIpPortTcp ip_addr u16
  | LocalInterface "64 word"
  | AppId string
  | AnyFlow

fun carries_runtime_value :: "condition \<Rightarrow> bool" where
  "carries_runtime_value LoopbackFlag = False"
| "carries_runtime_value (LoopbackNet _) = False"
| "carries_runtime_value AnyFlow = False"
| "carries_runtime_value (RemoteIp _) = True"
| "carries_runtime_value (RemoteIpPortTcp _ _) = True"
| "carries_runtime_value (LocalInterface _) = True"
| "carries_runtime_value (AppId _) = True"

text \<open>The platform conditions \<^verbatim>\<open>add_filter\<close> writes for a condition; all of them must hold.\<close>

datatype wfp_condition =
    FlagsAllSet_IsLoopback
  | RemoteV4Mask ipv4 ipv4
  | RemoteV6Prefix ipv6 nat
  | RemoteV4 ipv4
  | RemoteV6 ipv6
  | ProtocolIs "8 word"
  | RemotePortIs u16
  | LocalInterfaceIs "64 word"
  | AppIdIs string

definition IPPROTO_TCP :: "8 word" where
  "IPPROTO_TCP = 6"

fun remote_equals :: "ip_addr \<Rightarrow> wfp_condition" where
  "remote_equals (V4 a) = RemoteV4 a"
| "remote_equals (V6 a) = RemoteV6 a"

fun filter_conditions :: "condition \<Rightarrow> wfp_condition list" where
  "filter_conditions LoopbackFlag = [FlagsAllSet_IsLoopback]"
| "filter_conditions (LoopbackNet (V4 _)) = [RemoteV4Mask 0x7F000000 0xFF000000]"
| "filter_conditions (LoopbackNet (V6 _)) = [RemoteV6Prefix 1 128]"
| "filter_conditions (RemoteIp ip) = [remote_equals ip]"
| "filter_conditions (RemoteIpPortTcp ip port) = [remote_equals ip, ProtocolIs IPPROTO_TCP, RemotePortIs port]"
| "filter_conditions (LocalInterface luid) = [LocalInterfaceIs luid]"
| "filter_conditions (AppId path) = [AppIdIs path]"
| "filter_conditions AnyFlow = []"

text \<open>\<^verbatim>\<open>FilterLifetime\<close> is a newtype over \<^verbatim>\<open>KeyLifetime\<close>: one value is both.\<close>

record filter_spec =
  f_guid :: guid
  f_layer :: layer
  f_action :: wfp_action
  f_condition :: condition
  f_weight :: nat
  f_lifetime :: key_lifetime

definition requires_fresh_add :: "filter_spec \<Rightarrow> bool" where
  "requires_fresh_add f \<longleftrightarrow> carries_runtime_value (f_condition f) \<or> f_lifetime f = BootTimeKey"

datatype stale_key_policy = StaleFail | StaleDegrade

fun refuses_a_stale_key :: "stale_key_policy \<Rightarrow> bool" where
  "refuses_a_stale_key StaleFail = True"
| "refuses_a_stale_key StaleDegrade = False"

record cover_spec =
  cs_provider :: guid
  cs_sublayer :: guid
  pre_delete :: "guid list"
  filters :: "filter_spec list"
  stale_key :: stale_key_policy

definition PERMIT_WEIGHT :: nat where
  "PERMIT_WEIGHT = 15"

definition BLOCK_WEIGHT :: nat where
  "BLOCK_WEIGHT = 0"

definition permit :: "guid \<Rightarrow> layer \<Rightarrow> condition \<Rightarrow> filter_spec" where
  "permit g l c =
     \<lparr>f_guid = g, f_layer = l, f_action = PermitFlow, f_condition = c, f_weight = PERMIT_WEIGHT, f_lifetime = PersistentKey\<rparr>"

definition block :: "guid \<Rightarrow> layer \<Rightarrow> key_lifetime \<Rightarrow> filter_spec" where
  "block g l t =
     \<lparr>f_guid = g, f_layer = l, f_action = BlockFlow, f_condition = AnyFlow, f_weight = BLOCK_WEIGHT, f_lifetime = t\<rparr>"

section \<open>The twin table and the key lists\<close>

record boot_time_twin =
  tw_guid :: guid
  tw_layer :: layer
  tw_label :: string
  tw_sibling :: guid

definition LOCKDOWN_BOOTTIME_TWINS :: "boot_time_twin list" where
  "LOCKDOWN_BOOTTIME_TWINS =
     [\<lparr>tw_guid = LOCKDOWN_BOOTTIME_BLOCK_ALL_GUIDS ! 0, tw_layer = ConnectV4,
       tw_label = ''lockdown boot-time block-all V4'', tw_sibling = LOCKDOWN_FILTER_GUIDS ! 6\<rparr>,
      \<lparr>tw_guid = LOCKDOWN_BOOTTIME_BLOCK_ALL_GUIDS ! 1, tw_layer = ConnectV6,
       tw_label = ''lockdown boot-time block-all V6'', tw_sibling = LOCKDOWN_FILTER_GUIDS ! 7\<rparr>]"

definition STANDING_COVER_ARMS_BOOT_TIME :: bool where
  "STANDING_COVER_ARMS_BOOT_TIME \<longleftrightarrow> LOCKDOWN_BOOTTIME_TWINS \<noteq> []"

definition boot_time_sibling_role :: "guid \<Rightarrow> key_role" where
  "boot_time_sibling_role g =
     (if list_ex (\<lambda>t. tw_sibling t = g) LOCKDOWN_BOOTTIME_TWINS then BootTimeSibling else PlainKey)"

record swept_key =
  sk_guid :: guid
  sk_label :: string
  sk_lifetime :: key_lifetime
  sk_role :: key_role

definition swept_transient_keys :: "swept_key list" where
  "swept_transient_keys =
     map (\<lambda>g. \<lparr>sk_guid = g, sk_label = ''transient filter'', sk_lifetime = PersistentKey, sk_role = PlainKey\<rparr>) FILTER_GUIDS"

definition appid_pre_delete_guids :: "guid list" where
  "appid_pre_delete_guids =
     concat (map (\<lambda>i. map (appid_filter_guid i) [False, True]) [0..<MAX_APPID_BINARIES])"

definition swept_lockdown_keys :: "swept_key list" where
  "swept_lockdown_keys =
     map (\<lambda>g. \<lparr>sk_guid = g, sk_label = ''lockdown filter'', sk_lifetime = PersistentKey, sk_role = boot_time_sibling_role g\<rparr>)
       LOCKDOWN_FILTER_GUIDS @
     map (\<lambda>t. \<lparr>sk_guid = tw_guid t, sk_label = tw_label t, sk_lifetime = BootTimeKey, sk_role = PlainKey\<rparr>)
       LOCKDOWN_BOOTTIME_TWINS @
     concat (map (\<lambda>i. map (\<lambda>v6. \<lparr>sk_guid = appid_filter_guid i v6, sk_label = ''lockdown app-id filter'',
         sk_lifetime = PersistentKey, sk_role = PlainKey\<rparr>) [False, True]) [0..<MAX_APPID_BINARIES])"

definition LOCKDOWN_TUN_GUID_INDICES :: "nat list" where
  "LOCKDOWN_TUN_GUID_INDICES = [2, 3]"

definition LOCKDOWN_SERVER_GUID_INDICES :: "nat list" where
  "LOCKDOWN_SERVER_GUID_INDICES = [4, 5]"

definition adopt_delete_guids :: "guid list" where
  "adopt_delete_guids =
     map (\<lambda>i. LOCKDOWN_FILTER_GUIDS ! i) (LOCKDOWN_TUN_GUID_INDICES @ LOCKDOWN_SERVER_GUID_INDICES)"

definition transient_pre_delete_guids :: "guid list" where
  "transient_pre_delete_guids = [FILTER_GUIDS ! 2, FILTER_GUIDS ! 3, FILTER_GUIDS ! 10, FILTER_GUIDS ! 11]"

definition lockdown_pre_delete_guids :: "guid list" where
  "lockdown_pre_delete_guids = adopt_delete_guids @ appid_pre_delete_guids @ map tw_guid LOCKDOWN_BOOTTIME_TWINS"

section \<open>The two covers\<close>

definition v4_localhost :: ip_addr where
  "v4_localhost = V4 0x7f000001"

definition v6_localhost :: ip_addr where
  "v6_localhost = V6 1"

definition connect_layer :: "ip_addr \<Rightarrow> layer" where
  "connect_layer ip = (case ip of V4 _ \<Rightarrow> ConnectV4 | V6 _ \<Rightarrow> ConnectV6)"

definition build_cover_spec :: "ip_addr \<Rightarrow> ip_addr option \<Rightarrow> cover_spec" where
  "build_cover_spec server_ip resolver_ip =
     \<lparr>cs_provider = PROVIDER_GUID, cs_sublayer = SUBLAYER_GUID, pre_delete = transient_pre_delete_guids,
      filters =
        [permit (FILTER_GUIDS ! 0) ConnectV4 LoopbackFlag,
         permit (FILTER_GUIDS ! 1) ConnectV6 LoopbackFlag,
         permit (FILTER_GUIDS ! 8) ConnectV4 (LoopbackNet v4_localhost),
         permit (FILTER_GUIDS ! 9) ConnectV6 (LoopbackNet v6_localhost),
         permit (FILTER_GUIDS ! 6) RecvAcceptV4 (LoopbackNet v4_localhost),
         permit (FILTER_GUIDS ! 7) RecvAcceptV6 (LoopbackNet v6_localhost),
         permit (if connect_layer server_ip = ConnectV4 then FILTER_GUIDS ! 2 else FILTER_GUIDS ! 3)
           (connect_layer server_ip) (RemoteIp server_ip)] @
        (case resolver_ip of
           None \<Rightarrow> []
         | Some ip \<Rightarrow>
             [permit (case ip of V4 _ \<Rightarrow> FILTER_GUIDS ! 10 | V6 _ \<Rightarrow> FILTER_GUIDS ! 11) (connect_layer ip)
                (RemoteIpPortTcp ip RESOLVER_PERMIT_PORT)]) @
        [block (FILTER_GUIDS ! 4) ConnectV4 PersistentKey,
         block (FILTER_GUIDS ! 5) ConnectV6 PersistentKey],
      stale_key = StaleDegrade\<rparr>"

definition appid_permits :: "string list \<Rightarrow> filter_spec list" where
  "appid_permits app_ids =
     concat (map (\<lambda>(i, path). [permit (appid_filter_guid i False) ConnectV4 (AppId path),
         permit (appid_filter_guid i True) ConnectV6 (AppId path)]) (enumerate 0 app_ids))"

definition build_lockdown_spec :: "ip_addr \<Rightarrow> 64 word \<Rightarrow> string list \<Rightarrow> cover_spec" where
  "build_lockdown_spec server_ip tun_luid app_ids =
     \<lparr>cs_provider = PROVIDER_GUID, cs_sublayer = SUBLAYER_GUID, pre_delete = lockdown_pre_delete_guids,
      filters =
        [permit (LOCKDOWN_FILTER_GUIDS ! 0) ConnectV4 LoopbackFlag,
         permit (LOCKDOWN_FILTER_GUIDS ! 1) ConnectV6 LoopbackFlag,
         permit (LOCKDOWN_FILTER_GUIDS ! 10) ConnectV4 (LoopbackNet v4_localhost),
         permit (LOCKDOWN_FILTER_GUIDS ! 11) ConnectV6 (LoopbackNet v6_localhost),
         permit (LOCKDOWN_FILTER_GUIDS ! 8) RecvAcceptV4 (LoopbackNet v4_localhost),
         permit (LOCKDOWN_FILTER_GUIDS ! 9) RecvAcceptV6 (LoopbackNet v6_localhost),
         permit (LOCKDOWN_FILTER_GUIDS ! 2) ConnectV4 (LocalInterface tun_luid),
         permit (LOCKDOWN_FILTER_GUIDS ! 3) ConnectV6 (LocalInterface tun_luid)] @
        appid_permits app_ids @
        [permit (if connect_layer server_ip = ConnectV4 then LOCKDOWN_FILTER_GUIDS ! 4 else LOCKDOWN_FILTER_GUIDS ! 5)
           (connect_layer server_ip) (RemoteIp server_ip),
         block (LOCKDOWN_FILTER_GUIDS ! 6) ConnectV4 PersistentKey,
         block (LOCKDOWN_FILTER_GUIDS ! 7) ConnectV6 PersistentKey] @
        map (\<lambda>t. block (tw_guid t) (tw_layer t) BootTimeKey) LOCKDOWN_BOOTTIME_TWINS,
      stale_key = StaleFail\<rparr>"

section \<open>The platform\<close>

record filter_record =
  fr_key :: guid
  fr_boottime :: bool
  fr_disabled :: bool

record 's fwpm =
  fw_open :: "'s \<Rightarrow> u32"
  fw_begin :: "'s \<Rightarrow> 's \<times> u32"
  fw_delete :: "guid \<Rightarrow> 's \<Rightarrow> 's \<times> u32"
  fw_provider :: "guid \<Rightarrow> 's \<Rightarrow> 's \<times> u32"
  fw_sublayer :: "guid \<Rightarrow> guid \<Rightarrow> 's \<Rightarrow> 's \<times> u32"
  fw_app_id :: "string \<Rightarrow> 's \<Rightarrow> u32"
  fw_add :: "filter_spec \<Rightarrow> 's \<Rightarrow> 's \<times> u32"
  fw_commit :: "'s \<Rightarrow> 's \<times> u32"
  fw_abort :: "'s \<Rightarrow> 's"
  fw_get :: "guid \<Rightarrow> 's \<Rightarrow> u32"
  fw_delete_containers :: "'s \<Rightarrow> 's"
  fw_boottime_views :: "layer \<Rightarrow> 's \<Rightarrow> (u32, filter_record list) result list"
  fw_store :: "'s \<Rightarrow> (guid \<rightharpoonup> filter_spec)"
  fw_base :: "'s \<Rightarrow> (guid \<rightharpoonup> filter_spec) option"

definition ERROR_SUCCESS :: u32 where
  "ERROR_SUCCESS = 0"

definition FWP_E_ALREADY_EXISTS :: u32 where
  "FWP_E_ALREADY_EXISTS = 0x80320009"

definition FWP_E_FILTER_NOT_FOUND :: u32 where
  "FWP_E_FILTER_NOT_FOUND = 0x80320003"

text \<open>\<open>fw_store\<close> is the object store and \<open>fw_base\<close> what it was when the open transaction began.\<close>

definition delete_honest :: "'s fwpm \<Rightarrow> bool" where
  "delete_honest A \<longleftrightarrow> (\<forall>g s s' c. fw_delete A g s = (s', c) \<longrightarrow> fw_base A s' = fw_base A s \<and>
     fw_store A s' = (if c = ERROR_SUCCESS then (fw_store A s)(g := None) else fw_store A s) \<and>
     (c = FWP_E_FILTER_NOT_FOUND \<longrightarrow> fw_store A s g = None))"

definition add_honest :: "'s fwpm \<Rightarrow> bool" where
  "add_honest A \<longleftrightarrow> (\<forall>f s s' c. fw_add A f s = (s', c) \<longrightarrow> fw_base A s' = fw_base A s \<and>
     fw_store A s' = (if c = ERROR_SUCCESS then (fw_store A s)(f_guid f \<mapsto> f) else fw_store A s) \<and>
     (c = FWP_E_ALREADY_EXISTS \<longrightarrow> fw_store A s (f_guid f) \<noteq> None) \<and>
     (c = ERROR_SUCCESS \<longrightarrow> fw_store A s (f_guid f) = None))"

definition get_honest :: "'s fwpm \<Rightarrow> bool" where
  "get_honest A \<longleftrightarrow> (\<forall>g s. (fw_get A g s = ERROR_SUCCESS \<longrightarrow> fw_store A s g \<noteq> None) \<and>
     (fw_get A g s = FWP_E_FILTER_NOT_FOUND \<longrightarrow> fw_store A s g = None))"

definition containers_inert :: "'s fwpm \<Rightarrow> bool" where
  "containers_inert A \<longleftrightarrow>
     (\<forall>p s s' c. fw_provider A p s = (s', c) \<longrightarrow> fw_base A s' = fw_base A s \<and> fw_store A s' = fw_store A s) \<and>
     (\<forall>l p s s' c. fw_sublayer A l p s = (s', c) \<longrightarrow> fw_base A s' = fw_base A s \<and> fw_store A s' = fw_store A s) \<and>
     (\<forall>s. fw_base A (fw_delete_containers A s) = fw_base A s \<and> fw_store A (fw_delete_containers A s) = fw_store A s)"

definition transactional :: "'s fwpm \<Rightarrow> bool" where
  "transactional A \<longleftrightarrow>
     (\<forall>s s' c. fw_begin A s = (s', c) \<longrightarrow> fw_store A s' = fw_store A s \<and>
        fw_base A s' = (if c = ERROR_SUCCESS then Some (fw_store A s) else fw_base A s)) \<and>
     (\<forall>s s' c. fw_commit A s = (s', c) \<longrightarrow> fw_store A s' = fw_store A s \<and>
        fw_base A s' = (if c = ERROR_SUCCESS then None else fw_base A s)) \<and>
     (\<forall>s. fw_base A (fw_abort A s) = None \<and>
        fw_store A (fw_abort A s) = (case fw_base A s of Some b \<Rightarrow> b | None \<Rightarrow> fw_store A s))"

definition fwpm_laws :: "'s fwpm \<Rightarrow> bool" where
  "fwpm_laws A \<longleftrightarrow> delete_honest A \<and> add_honest A \<and> get_honest A \<and> containers_inert A \<and> transactional A"

section \<open>Codes\<close>

datatype wfp_error = WfpFailed string u32 | TwinAbsent string | TwinUnusable string filter_record

definition classify_delete_code :: "u32 \<Rightarrow> key_outcome" where
  "classify_delete_code code =
     (if code = ERROR_SUCCESS then KeyRemoved
      else if code = FWP_E_FILTER_NOT_FOUND then KeyNotFound else KeyFailed)"

fun first_delete_failure :: "(string \<times> u32) list \<Rightarrow> wfp_error option" where
  "first_delete_failure [] = None"
| "first_delete_failure ((what, code) # cs) =
     (if classify_delete_code code = KeyFailed then Some (WfpFailed what code) else first_delete_failure cs)"

definition wfp_check :: "u32 \<Rightarrow> string \<Rightarrow> wfp_error option" where
  "wfp_check code what = (if code = ERROR_SUCCESS then None else Some (WfpFailed what code))"

definition ok_or_exists :: "u32 \<Rightarrow> string \<Rightarrow> wfp_error option" where
  "ok_or_exists code what = (if code = FWP_E_ALREADY_EXISTS then None else wfp_check code what)"

definition APPID_PRE_DELETE_LABELS :: "string list" where
  "APPID_PRE_DELETE_LABELS =
     [''App-ID permit slot 0 V4'', ''App-ID permit slot 0 V6'', ''App-ID permit slot 1 V4'', ''App-ID permit slot 1 V6'',
      ''App-ID permit slot 2 V4'', ''App-ID permit slot 2 V6'', ''App-ID permit slot 3 V4'', ''App-ID permit slot 3 V6'']"

definition pre_delete_label :: "guid \<Rightarrow> string" where
  "pre_delete_label g =
     (case find (\<lambda>t. tw_guid t = g) LOCKDOWN_BOOTTIME_TWINS of
        Some t \<Rightarrow> tw_label t
      | None \<Rightarrow>
          (case position (\<lambda>x. x = g) appid_pre_delete_guids of
             Some i \<Rightarrow> APPID_PRE_DELETE_LABELS ! i
           | None \<Rightarrow>
               if g = LOCKDOWN_FILTER_GUIDS ! 2 then ''TUN-LUID permit V4''
               else if g = LOCKDOWN_FILTER_GUIDS ! 3 then ''TUN-LUID permit V6''
               else if g = LOCKDOWN_FILTER_GUIDS ! 4 then ''server-IP permit V4''
               else if g = LOCKDOWN_FILTER_GUIDS ! 5 then ''server-IP permit V6''
               else if g = FILTER_GUIDS ! 2 then ''transient server-IP permit V4''
               else if g = FILTER_GUIDS ! 3 then ''transient server-IP permit V6''
               else if g = FILTER_GUIDS ! 10 then ''transient resolver permit V4''
               else if g = FILTER_GUIDS ! 11 then ''transient resolver permit V6''
               else ''unnamed pre-delete key''))"

definition pre_delete_verdict :: "stale_key_policy \<Rightarrow> (string \<times> u32) list \<Rightarrow> wfp_error option" where
  "pre_delete_verdict policy codes =
     (case first_delete_failure codes of
        None \<Rightarrow> None
      | Some e \<Rightarrow> if refuses_a_stale_key policy then Some e else None)"

section \<open>Engaging\<close>

text \<open>Every delete is issued before any code is read.\<close>

fun delete_keys :: "'s fwpm \<Rightarrow> guid list \<Rightarrow> 's \<Rightarrow> 's \<times> u32 list" where
  "delete_keys A [] s = (s, [])"
| "delete_keys A (g # gs) s =
     (case fw_delete A g s of (s1, c) \<Rightarrow> case delete_keys A gs s1 of (s2, cs) \<Rightarrow> (s2, c # cs))"

definition issue_pre_deletes :: "'s fwpm \<Rightarrow> guid list \<Rightarrow> stale_key_policy \<Rightarrow> 's \<Rightarrow> 's \<times> wfp_error option" where
  "issue_pre_deletes A gs policy s =
     (case delete_keys A gs s of (s', cs) \<Rightarrow> (s', pre_delete_verdict policy (zip (map pre_delete_label gs) cs)))"

definition add_filter :: "'s fwpm \<Rightarrow> filter_spec \<Rightarrow> stale_key_policy \<Rightarrow> 's \<Rightarrow> 's \<times> wfp_error option" where
  "add_filter A f policy s =
     (case (case f_condition f of AppId path \<Rightarrow> wfp_check (fw_app_id A path s) ''FwpmGetAppIdFromFileName0'' | _ \<Rightarrow> None) of
        Some e \<Rightarrow> (s, Some e)
      | None \<Rightarrow>
          (case fw_add A f s of (s', code) \<Rightarrow>
             (s', if requires_fresh_add f \<and> refuses_a_stale_key policy then wfp_check code ''FwpmFilterAdd0''
                  else ok_or_exists code ''FwpmFilterAdd0'')))"

fun add_filters :: "'s fwpm \<Rightarrow> stale_key_policy \<Rightarrow> filter_spec list \<Rightarrow> 's \<Rightarrow> 's \<times> wfp_error option" where
  "add_filters A policy [] s = (s, None)"
| "add_filters A policy (f # fs) s =
     (case add_filter A f policy s of
        (s1, Some e) \<Rightarrow> (s1, Some e)
      | (s1, None) \<Rightarrow> add_filters A policy fs s1)"

text \<open>The mutating steps of both engages, up to the commit.\<close>

definition engage_steps :: "'s fwpm \<Rightarrow> cover_spec \<Rightarrow> 's \<Rightarrow> 's \<times> wfp_error option" where
  "engage_steps A spec s =
     (case fw_begin A s of (s1, c1) \<Rightarrow>
        case wfp_check c1 ''FwpmTransactionBegin0'' of Some e \<Rightarrow> (s1, Some e) | None \<Rightarrow>
        case issue_pre_deletes A (pre_delete spec) (stale_key spec) s1 of
          (s2, Some e) \<Rightarrow> (s2, Some e)
        | (s2, None) \<Rightarrow>
            (case fw_provider A (cs_provider spec) s2 of (s3, c3) \<Rightarrow>
               case ok_or_exists c3 ''FwpmProviderAdd0'' of Some e \<Rightarrow> (s3, Some e) | None \<Rightarrow>
               case fw_sublayer A (cs_sublayer spec) (cs_provider spec) s3 of (s4, c4) \<Rightarrow>
               case ok_or_exists c4 ''FwpmSubLayerAdd0'' of Some e \<Rightarrow> (s4, Some e) | None \<Rightarrow>
               add_filters A (stale_key spec) (filters spec) s4))"

definition engage :: "'s fwpm \<Rightarrow> ip_addr \<Rightarrow> ip_addr option \<Rightarrow> 's \<Rightarrow> 's \<times> wfp_error option" where
  "engage A server_ip resolver_ip s =
     (case wfp_check (fw_open A s) ''FwpmEngineOpen0'' of
        Some e \<Rightarrow> (s, Some e)
      | None \<Rightarrow>
          (case engage_steps A (build_cover_spec server_ip resolver_ip) s of
             (s1, Some e) \<Rightarrow> (fw_abort A s1, Some e)
           | (s1, None) \<Rightarrow>
               (case fw_commit A s1 of (s2, c) \<Rightarrow>
                  case wfp_check c ''FwpmTransactionCommit0'' of
                    Some e \<Rightarrow> (fw_abort A s2, Some e) | None \<Rightarrow> (s2, None))))"

text \<open>\<^verbatim>\<open>readback::verdict\<close>: absence is concluded only when every view was read.\<close>

datatype 'a readback = FoundRecord 'a | AbsentRecord | UnreadableViews

definition readback_verdict :: "('e, 'a list) result list \<Rightarrow> ('a \<Rightarrow> bool) \<Rightarrow> 'a readback" where
  "readback_verdict views wanted =
     (case find wanted (concat (List.map_filter ok views)) of
        Some r \<Rightarrow> FoundRecord r
      | None \<Rightarrow> if views = [] \<or> list_ex isl views then UnreadableViews else AbsentRecord)"

fun verify_twins :: "'s fwpm \<Rightarrow> boot_time_twin list \<Rightarrow> 's \<Rightarrow> wfp_error option" where
  "verify_twins A [] s = None"
| "verify_twins A (t # ts) s =
     (case readback_verdict (fw_boottime_views A (tw_layer t) s) (\<lambda>r. fr_key r = tw_guid t) of
        UnreadableViews \<Rightarrow> verify_twins A ts s
      | AbsentRecord \<Rightarrow> Some (TwinAbsent (tw_label t))
      | FoundRecord r \<Rightarrow>
          if \<not> fr_boottime r \<or> fr_disabled r then Some (TwinUnusable (tw_label t) r) else verify_twins A ts s)"

definition verify_boottime_twins :: "'s fwpm \<Rightarrow> 's \<Rightarrow> wfp_error option" where
  "verify_boottime_twins A s = verify_twins A LOCKDOWN_BOOTTIME_TWINS s"

text \<open>\<^verbatim>\<open>engage_lockdown\<close>: the record is written when the commit answered, before the twins are read back.\<close>

definition engage_lockdown :: "'s fwpm \<Rightarrow> boot_time_state codec \<Rightarrow> fs_env \<Rightarrow> ip_addr \<Rightarrow> 64 word \<Rightarrow> string list \<Rightarrow> 's \<times> world \<Rightarrow>
    ('s \<times> world) \<times> wfp_error option" where
  "engage_lockdown A C E server_ip tun_luid app_ids sw =
     (case sw of (s, w) \<Rightarrow>
        case wfp_check (fw_open A s) ''FwpmEngineOpen0'' of
          Some e \<Rightarrow> ((s, w), Some e)
        | None \<Rightarrow>
            (case engage_steps A (build_lockdown_spec server_ip tun_luid app_ids) s of
               (s1, Some e) \<Rightarrow> ((fw_abort A s1, w), Some e)
             | (s1, None) \<Rightarrow>
                 (case fw_commit A s1 of (s2, c) \<Rightarrow>
                    case wfp_check c ''FwpmTransactionCommit0'' of
                      Some e \<Rightarrow> ((fw_abort A s2, w), Some e)
                    | None \<Rightarrow>
                        (let w' = (if STANDING_COVER_ARMS_BOOT_TIME then fst (record_armed C E w) else w)
                         in case verify_boottime_twins A s2 of
                              Some e \<Rightarrow> ((fw_abort A s2, w'), Some e)
                            | None \<Rightarrow> ((s2, w'), None)))))"

section \<open>Releasing and probing\<close>

definition observations :: "(swept_key \<times> u32) list \<Rightarrow> key_observation list" where
  "observations swept =
     map (\<lambda>(k, code). \<lparr>ko_key = sk_label k, ko_lifetime = sk_lifetime k, ko_outcome = classify_delete_code code,
       ko_role = sk_role k\<rparr>) swept"

definition disengage_verdict :: "u32 option \<Rightarrow> (swept_key \<times> u32) list \<Rightarrow> arming_witness \<Rightarrow> wfp_error sweep_outcome" where
  "disengage_verdict open_failure swept x =
     (case open_failure of
        Some rc \<Rightarrow> sweep_failed (from_observations [] x) (WfpFailed ''FwpmEngineOpen0'' rc)
      | None \<Rightarrow>
          (let c = from_observations (observations swept) x
           in case first_delete_failure (map (\<lambda>(k, code). (sk_label k, code)) swept) of
                Some e \<Rightarrow> sweep_failed c e
              | None \<Rightarrow> completed c))"

definition disengage_lockdown :: "'s fwpm \<Rightarrow> 's \<Rightarrow> 's \<times> (arming_witness \<Rightarrow> wfp_error sweep_outcome)" where
  "disengage_lockdown A s =
     (if fw_open A s \<noteq> ERROR_SUCCESS then (s, disengage_verdict (Some (fw_open A s)) [])
      else case delete_keys A (map sk_guid swept_lockdown_keys) s of
             (s', cs) \<Rightarrow> (s', disengage_verdict None (zip swept_lockdown_keys cs)))"

definition release_all :: "'s fwpm \<Rightarrow> 's \<Rightarrow> 's \<times> (arming_witness \<Rightarrow> wfp_error sweep_outcome)" where
  "release_all A s =
     (let keys = swept_lockdown_keys @ swept_transient_keys
      in if fw_open A s \<noteq> ERROR_SUCCESS
         then (s, \<lambda>x. sweep_failed (from_observations [] x) (WfpFailed ''FwpmEngineOpen0'' (fw_open A s)))
         else case delete_keys A (map sk_guid keys) s of
                (s', cs) \<Rightarrow> (fw_delete_containers A s', disengage_verdict None (zip keys cs)))"

definition delete_all :: "'s fwpm \<Rightarrow> 's \<Rightarrow> 's" where
  "delete_all A s = fw_delete_containers A (fst (delete_keys A (map sk_guid swept_transient_keys) s))"

definition recover_transient_cover :: "'s fwpm \<Rightarrow> bool \<Rightarrow> 's \<Rightarrow> 's" where
  "recover_transient_cover A adopting s = (if fw_open A s = ERROR_SUCCESS then delete_all A s else s)"

text \<open>Dropping a guard: the deletes without a verdict.\<close>

datatype cover_kind = TransientCover | LockdownCover

definition drop_cover :: "'s fwpm \<Rightarrow> cover_kind \<Rightarrow> 's \<Rightarrow> 's" where
  "drop_cover A kind s =
     (case kind of
        TransientCover \<Rightarrow> delete_all A s
      | LockdownCover \<Rightarrow> fst (delete_keys A (map sk_guid swept_lockdown_keys) s))"

definition should_reclaim_tun_permit :: "bool \<Rightarrow> bool" where
  "should_reclaim_tun_permit resolved = (\<not> resolved)"

text \<open>\<^verbatim>\<open>LuidResolver::resolve\<close> is the parameter \<open>resolve\<close>.\<close>

definition reclaim_stale_tun_permit :: "'s fwpm \<Rightarrow> (string \<Rightarrow> 64 word option) \<Rightarrow> string \<Rightarrow> 's \<Rightarrow> 's" where
  "reclaim_stale_tun_permit A resolve tun_name s =
     (if \<not> should_reclaim_tun_permit (resolve tun_name \<noteq> None) then s
      else if fw_open A s \<noteq> ERROR_SUCCESS then s
      else fst (delete_keys A (map (\<lambda>i. LOCKDOWN_FILTER_GUIDS ! i) LOCKDOWN_TUN_GUID_INDICES) s))"

definition classify_presence :: "bool \<Rightarrow> u32 list \<Rightarrow> cover_presence" where
  "classify_presence engine_opened codes =
     (if \<not> engine_opened then Unreachable
      else if ERROR_SUCCESS \<in> set codes then Live
      else if list_all (\<lambda>c. c = FWP_E_FILTER_NOT_FOUND) codes then AbsentCover
      else Indeterminate)"

definition presence_of_keys :: "'s fwpm \<Rightarrow> guid list \<Rightarrow> 's \<Rightarrow> cover_presence" where
  "presence_of_keys A guids s =
     (if fw_open A s \<noteq> ERROR_SUCCESS then classify_presence False []
      else classify_presence True (map (\<lambda>g. fw_get A g s) guids))"

definition lockdown_cover_presence :: "'s fwpm \<Rightarrow> 's \<Rightarrow> cover_presence" where
  "lockdown_cover_presence A s = presence_of_keys A (map sk_guid swept_lockdown_keys) s"

section \<open>Startup recovery of the standing cover (failclosed.rs)\<close>

datatype recovery_dispatch = Inert | Disengage

fun recovery_dispatch_of :: "cover_recovery \<Rightarrow> recovery_dispatch" where
  "recovery_dispatch_of Noop = Inert"
| "recovery_dispatch_of Adopt = Inert"
| "recovery_dispatch_of Sweep = Disengage"

text \<open>The facade's \<^verbatim>\<open>disengage_lockdown\<close> runs the platform sweep against the record.\<close>

definition disengage_with_record :: "'s fwpm \<Rightarrow> boot_time_state codec \<Rightarrow> fs_env \<Rightarrow> 's \<times> world \<Rightarrow>
    ('s \<times> world) \<times> (wfp_error, clearance) result" where
  "disengage_with_record A C E sw =
     (case sw of (s, w) \<Rightarrow>
        case disengage_lockdown A s of (s', sweep) \<Rightarrow>
        case sweep_with_witness C E sweep w of (w', _, r) \<Rightarrow> ((s', w'), r))"

definition release_with_record :: "'s fwpm \<Rightarrow> boot_time_state codec \<Rightarrow> fs_env \<Rightarrow> 's \<times> world \<Rightarrow>
    ('s \<times> world) \<times> (wfp_error, clearance) result" where
  "release_with_record A C E sw =
     (case sw of (s, w) \<Rightarrow>
        case release_all A s of (s', sweep) \<Rightarrow>
        case sweep_with_witness C E sweep w of (w', _, r) \<Rightarrow> ((s', w'), r))"

definition recover_lockdown :: "'s fwpm \<Rightarrow> boot_time_state codec \<Rightarrow> fs_env \<Rightarrow> (string \<Rightarrow> 64 word option) \<Rightarrow> cover_recovery \<Rightarrow>
    string option \<Rightarrow> 's \<times> world \<Rightarrow> 's \<times> world" where
  "recover_lockdown A C E resolve dec tun_name sw =
     (case recovery_dispatch_of dec of
        Inert \<Rightarrow>
          (case tun_name of
             Some n \<Rightarrow> if dec = Adopt then (reclaim_stale_tun_permit A resolve n (fst sw), snd sw) else sw
           | None \<Rightarrow> sw)
      | Disengage \<Rightarrow> fst (disengage_with_record A C E sw))"

end
