(* ===== verification/Wfp_Safety.thy ===== *)
theory Wfp_Safety
  imports Wfp_Cover
begin

text \<open>
  What the Windows covers guarantee: which flows a cover lets out, that every filter an engage
  installs is swept under the lifetime it was installed with and refreshed when its content can
  change, what a successful or failed engage leaves in the object store, and what a release that
  answers success proves.
\<close>

section \<open>Which flows a filter set lets out\<close>

record flow =
  fl_layer :: layer
  fl_remote :: ip_addr
  fl_protocol :: "8 word"
  fl_port :: u16
  fl_luid :: "64 word"
  fl_app :: string
  fl_loopback :: bool

fun wfp_matches :: "flow \<Rightarrow> wfp_condition \<Rightarrow> bool" where
  "wfp_matches fl FlagsAllSet_IsLoopback = fl_loopback fl"
| "wfp_matches fl (RemoteV4Mask a m) = (case fl_remote fl of V4 x \<Rightarrow> x AND m = a AND m | V6 _ \<Rightarrow> False)"
| "wfp_matches fl (RemoteV6Prefix a n) = (case fl_remote fl of V6 x \<Rightarrow> drop_bit (128 - n) x = drop_bit (128 - n) a | V4 _ \<Rightarrow> False)"
| "wfp_matches fl (RemoteV4 a) = (fl_remote fl = V4 a)"
| "wfp_matches fl (RemoteV6 a) = (fl_remote fl = V6 a)"
| "wfp_matches fl (ProtocolIs p) = (fl_protocol fl = p)"
| "wfp_matches fl (RemotePortIs p) = (fl_port fl = p)"
| "wfp_matches fl (LocalInterfaceIs l) = (fl_luid fl = l)"
| "wfp_matches fl (AppIdIs a) = (fl_app fl = a)"

definition filter_matches :: "filter_spec \<Rightarrow> flow \<Rightarrow> bool" where
  "filter_matches f fl \<longleftrightarrow> f_layer f = fl_layer fl \<and> list_all (wfp_matches fl) (filter_conditions (f_condition f))"

text \<open>Arbitration in one sublayer: no matching filter of a higher weight blocks, or nothing matches.\<close>

definition allows :: "filter_spec list \<Rightarrow> flow \<Rightarrow> bool" where
  "allows fs fl \<longleftrightarrow>
     (\<forall>f \<in> set fs. filter_matches f fl \<longrightarrow> f_action f = BlockFlow \<longrightarrow>
        (\<exists>g \<in> set fs. filter_matches g fl \<and> f_action g = PermitFlow \<and> f_weight f < f_weight g))"

definition in_force :: "key_lifetime \<Rightarrow> cover_spec \<Rightarrow> filter_spec list" where
  "in_force t spec = filter (\<lambda>f. f_lifetime f = t) (filters spec)"

definition loopback_address :: "ip_addr \<Rightarrow> bool" where
  "loopback_address ip = (case ip of V4 a \<Rightarrow> a AND 0xFF000000 = 0x7F000000 | V6 a \<Rightarrow> a = 1)"

text \<open>An outgoing connect: the layer is that of the remote address's family.\<close>

definition outgoing :: "flow \<Rightarrow> bool" where
  "outgoing fl \<longleftrightarrow> fl_layer fl = connect_layer (fl_remote fl)"

lemma permit_sel [simp]:
  "f_layer (permit g l c) = l" "f_action (permit g l c) = PermitFlow" "f_condition (permit g l c) = c"
  "f_weight (permit g l c) = PERMIT_WEIGHT" "f_lifetime (permit g l c) = PersistentKey" "f_guid (permit g l c) = g"
  by (simp_all add: permit_def)

lemma block_sel [simp]:
  "f_layer (block g l t) = l" "f_action (block g l t) = BlockFlow" "f_condition (block g l t) = AnyFlow"
  "f_weight (block g l t) = BLOCK_WEIGHT" "f_lifetime (block g l t) = t" "f_guid (block g l t) = g"
  by (simp_all add: block_def)

text \<open>With block-alls of the lowest weight, a flow that meets one needs a matching permit.\<close>

lemma allows_permits:
  assumes "\<forall>f \<in> set fs. f_weight f = (case f_action f of PermitFlow \<Rightarrow> PERMIT_WEIGHT | BlockFlow \<Rightarrow> BLOCK_WEIGHT)"
    and "\<exists>f \<in> set fs. filter_matches f fl \<and> f_action f = BlockFlow"
  shows "allows fs fl \<longleftrightarrow> (\<exists>f \<in> set fs. filter_matches f fl \<and> f_action f = PermitFlow)"
  using assms by (fastforce simp: allows_def PERMIT_WEIGHT_def BLOCK_WEIGHT_def)

lemma remote_equals_matches [simp]: "wfp_matches fl (remote_equals ip) \<longleftrightarrow> fl_remote fl = ip"
  by (cases ip) auto

lemmas match_simps = filter_matches_def outgoing_def connect_layer_def loopback_address_def v4_localhost_def v6_localhost_def
  IPPROTO_TCP_def RESOLVER_PERMIT_PORT_def

lemma in_appid_permits:
  "f \<in> set (appid_permits apps) \<longleftrightarrow> (\<exists>i < length apps. f = permit (appid_filter_guid i False) ConnectV4 (AppId (apps ! i)) \<or>
     f = permit (appid_filter_guid i True) ConnectV6 (AppId (apps ! i)))"
proof -
  have "set (enumerate 0 apps) = (\<lambda>i. (i, apps ! i)) ` {..<length apps}"
    by (auto simp: in_set_enumerate_eq image_iff)
  then show ?thesis by (auto simp: appid_permits_def)
qed

lemma appid_permits_match:
  "(\<exists>f \<in> set (appid_permits apps). filter_matches f fl) \<longleftrightarrow> fl_layer fl \<in> {ConnectV4, ConnectV6} \<and> fl_app fl \<in> set apps"
proof
  assume "\<exists>f \<in> set (appid_permits apps). filter_matches f fl"
  then show "fl_layer fl \<in> {ConnectV4, ConnectV6} \<and> fl_app fl \<in> set apps"
    by (auto simp: in_appid_permits filter_matches_def)
next
  assume r: "fl_layer fl \<in> {ConnectV4, ConnectV6} \<and> fl_app fl \<in> set apps"
  then obtain i where i: "i < length apps" "apps ! i = fl_app fl" by (auto simp: in_set_conv_nth)
  let ?f = "permit (appid_filter_guid i (fl_layer fl = ConnectV6)) (fl_layer fl) (AppId (fl_app fl))"
  have "?f \<in> set (appid_permits apps)" using r i by (auto simp: in_appid_permits)
  moreover have "filter_matches ?f fl" by (simp add: filter_matches_def)
  ultimately show "\<exists>f \<in> set (appid_permits apps). filter_matches f fl" by blast
qed

text \<open>
  The transient cover lets out exactly what a covered connect needs: an outgoing flow passes
  if it is loopback, goes to the server, or is the TCP connection to port 443 of the one resolver
  the connect permits. Everything else of both families is blocked.
\<close>

theorem transient_cover_permits:
  assumes "outgoing fl"
  shows "allows (in_force PersistentKey (build_cover_spec server resolver)) fl \<longleftrightarrow>
    fl_loopback fl \<or> loopback_address (fl_remote fl) \<or> fl_remote fl = server \<or>
    resolver = Some (fl_remote fl) \<and> fl_protocol fl = 6 \<and> fl_port fl = 443"
proof -
  let ?fs = "in_force PersistentKey (build_cover_spec server resolver)"
  have "allows ?fs fl \<longleftrightarrow> (\<exists>f \<in> set ?fs. filter_matches f fl \<and> f_action f = PermitFlow)"
  proof (rule allows_permits)
    show "\<forall>f \<in> set ?fs. f_weight f = (case f_action f of PermitFlow \<Rightarrow> PERMIT_WEIGHT | BlockFlow \<Rightarrow> BLOCK_WEIGHT)"
      by (cases resolver) (simp_all add: in_force_def build_cover_spec_def)
    show "\<exists>f \<in> set ?fs. filter_matches f fl \<and> f_action f = BlockFlow"
      using assms by (cases "fl_remote fl"; cases resolver) (simp_all add: in_force_def build_cover_spec_def match_simps)
  qed
  also have "\<dots> \<longleftrightarrow> fl_loopback fl \<or> loopback_address (fl_remote fl) \<or> fl_remote fl = server \<or>
      resolver = Some (fl_remote fl) \<and> fl_protocol fl = 6 \<and> fl_port fl = 443"
    using assms by (cases "fl_remote fl"; cases resolver; cases server; cases "the resolver")
      (auto simp: in_force_def build_cover_spec_def match_simps)
  finally show ?thesis .
qed

theorem transient_cover_permits_witness:
  "let fl = \<lparr>fl_layer = ConnectV4, fl_remote = V4 0x01010101, fl_protocol = 6, fl_port = 443, fl_luid = 7, fl_app = ''ex'', fl_loopback = False\<rparr>
   in outgoing fl \<and> allows (in_force PersistentKey (build_cover_spec (V4 0x08080808) (Some (V4 0x01010101)))) fl \<and>
      \<not> allows (in_force PersistentKey (build_cover_spec (V4 0x08080808) None)) fl"
  using transient_cover_permits [where fl = "\<lparr>fl_layer = ConnectV4, fl_remote = V4 0x01010101, fl_protocol = 6, fl_port = 443, fl_luid = 7, fl_app = ''ex'', fl_loopback = False\<rparr>"]
  by (simp add: outgoing_def connect_layer_def loopback_address_def)

text \<open>
  The standing cover's own filters let out loopback, the tunnel's interface, the permitted
  binaries and the server; its boot-time filters let out nothing.
\<close>

lemma appid_permits_plain:
  "f \<in> set (appid_permits apps) \<Longrightarrow> f_lifetime f = PersistentKey \<and> f_action f = PermitFlow"
  by (auto simp: in_appid_permits)

lemma lockdown_blocks:
  assumes "outgoing fl"
  shows "\<exists>f \<in> set (in_force t (build_lockdown_spec server luid apps)). filter_matches f fl \<and> f_action f = BlockFlow"
  using assms by (cases t; cases "fl_remote fl")
    (simp_all add: in_force_def build_lockdown_spec_def LOCKDOWN_BOOTTIME_TWINS_def match_simps)

lemma lockdown_boot_time_permits:
  "f \<in> set (in_force BootTimeKey (build_lockdown_spec server luid apps)) \<Longrightarrow> f_action f = BlockFlow"
  using appid_permits_plain [of f apps] by (auto simp: in_force_def build_lockdown_spec_def LOCKDOWN_BOOTTIME_TWINS_def)

lemma lockdown_permits:
  assumes "outgoing fl"
  shows "(\<exists>f \<in> set (in_force PersistentKey (build_lockdown_spec server luid apps)). filter_matches f fl \<and> f_action f = PermitFlow) \<longleftrightarrow>
    fl_loopback fl \<or> loopback_address (fl_remote fl) \<or> fl_luid fl = luid \<or> fl_app fl \<in> set apps \<or> fl_remote fl = server"
proof -
  have "(\<exists>f \<in> set (in_force PersistentKey (build_lockdown_spec server luid apps)). filter_matches f fl \<and> f_action f = PermitFlow) \<longleftrightarrow>
     (\<exists>f \<in> set (appid_permits apps). filter_matches f fl) \<or>
     (\<exists>f \<in> set (filters (build_lockdown_spec server luid [])). filter_matches f fl \<and> f_action f = PermitFlow)"
    using appid_permits_plain by (auto simp: in_force_def build_lockdown_spec_def LOCKDOWN_BOOTTIME_TWINS_def appid_permits_def)
  also have "(\<exists>f \<in> set (filters (build_lockdown_spec server luid [])). filter_matches f fl \<and> f_action f = PermitFlow) \<longleftrightarrow>
     fl_loopback fl \<or> loopback_address (fl_remote fl) \<or> fl_luid fl = luid \<or> fl_remote fl = server"
    using assms by (cases "fl_remote fl"; cases server)
      (auto simp: build_lockdown_spec_def LOCKDOWN_BOOTTIME_TWINS_def appid_permits_def match_simps)
  finally show ?thesis
    using assms by (auto simp: appid_permits_match outgoing_def connect_layer_def split: ip_addr.splits)
qed

section \<open>The object store\<close>

text \<open>The facts of \<open>fwpm_laws\<close>, one per call.\<close>

lemma delete_law:
  assumes "fwpm_laws A" "fw_delete A g s = (s', c)"
  shows "fw_base A s' = fw_base A s"
    and "fw_store A s' = (if c = ERROR_SUCCESS then (fw_store A s)(g := None) else fw_store A s)"
    and "c = FWP_E_FILTER_NOT_FOUND \<Longrightarrow> fw_store A s g = None"
proof -
  have "delete_honest A" using assms(1) by (simp add: fwpm_laws_def)
  note l = this [unfolded delete_honest_def, rule_format, OF assms(2)]
  from l show "fw_base A s' = fw_base A s" ..
  from l show "fw_store A s' = (if c = ERROR_SUCCESS then (fw_store A s)(g := None) else fw_store A s)" by (elim conjE)
  from l show "fw_store A s g = None" if "c = FWP_E_FILTER_NOT_FOUND" using that by (elim conjE) simp
qed

lemma add_law:
  assumes "fwpm_laws A" "fw_add A f s = (s', c)"
  shows "fw_base A s' = fw_base A s \<and>
    (c = ERROR_SUCCESS \<longrightarrow> fw_store A s (f_guid f) = None \<and> fw_store A s' = (fw_store A s)(f_guid f \<mapsto> f)) \<and>
    (c \<noteq> ERROR_SUCCESS \<longrightarrow> fw_store A s' = fw_store A s) \<and>
    (c = FWP_E_ALREADY_EXISTS \<longrightarrow> fw_store A s (f_guid f) \<noteq> None)"
proof -
  have "add_honest A" using assms(1) by (simp add: fwpm_laws_def)
  note l = this [unfolded add_honest_def, rule_format, OF assms(2)]
  then show ?thesis by (elim conjE) simp
qed

lemma get_law:
  "fwpm_laws A \<Longrightarrow> fw_get A g s = ERROR_SUCCESS \<Longrightarrow> fw_store A s g \<noteq> None"
  "fwpm_laws A \<Longrightarrow> fw_get A g s = FWP_E_FILTER_NOT_FOUND \<Longrightarrow> fw_store A s g = None"
  by (simp_all add: fwpm_laws_def get_honest_def)

lemma container_law:
  "fwpm_laws A \<Longrightarrow> fw_provider A p s = (s', c) \<Longrightarrow> fw_base A s' = fw_base A s \<and> fw_store A s' = fw_store A s"
  "fwpm_laws A \<Longrightarrow> fw_sublayer A l p s = (s', c) \<Longrightarrow> fw_base A s' = fw_base A s \<and> fw_store A s' = fw_store A s"
  "fwpm_laws A \<Longrightarrow> fw_base A (fw_delete_containers A s) = fw_base A s \<and> fw_store A (fw_delete_containers A s) = fw_store A s"
  unfolding fwpm_laws_def containers_inert_def by blast+

lemma transaction_law:
  "fwpm_laws A \<Longrightarrow> fw_begin A s = (s', c) \<Longrightarrow> fw_store A s' = fw_store A s \<and>
     fw_base A s' = (if c = ERROR_SUCCESS then Some (fw_store A s) else fw_base A s)"
  "fwpm_laws A \<Longrightarrow> fw_commit A s = (s', c) \<Longrightarrow> fw_store A s' = fw_store A s \<and>
     fw_base A s' = (if c = ERROR_SUCCESS then None else fw_base A s)"
  "fwpm_laws A \<Longrightarrow> fw_base A (fw_abort A s) = None \<and>
     fw_store A (fw_abort A s) = (case fw_base A s of Some b \<Rightarrow> b | None \<Rightarrow> fw_store A s)"
  unfolding fwpm_laws_def transactional_def by blast+

text \<open>The deletes of a key list, and what benign codes say of them.\<close>

lemma delete_keys_store:
  assumes "fwpm_laws A" "delete_keys A gs s = (s', cs)"
  shows "fw_base A s' = fw_base A s \<and> length cs = length gs \<and>
    (\<exists>D \<subseteq> set gs. fw_store A s' = fw_store A s |` (- D) \<and>
       (\<forall>g c. (g, c) \<in> set (zip gs cs) \<longrightarrow> classify_delete_code c \<noteq> KeyFailed \<longrightarrow> g \<in> D \<or> fw_store A s g = None))"
  using assms(2)
proof (induction gs arbitrary: s cs)
  case (Cons g gs)
  obtain s1 c cs' where d: "fw_delete A g s = (s1, c)" "delete_keys A gs s1 = (s', cs')" "cs = c # cs'"
    using Cons.prems by (auto split: prod.splits)
  note l = delete_law [OF assms(1) d(1)]
  obtain D where D: "D \<subseteq> set gs" "fw_store A s' = fw_store A s1 |` (- D)"
    "\<forall>g c. (g, c) \<in> set (zip gs cs') \<longrightarrow> classify_delete_code c \<noteq> KeyFailed \<longrightarrow> g \<in> D \<or> fw_store A s1 g = None"
    and b: "fw_base A s' = fw_base A s1" "length cs' = length gs"
    using Cons.IH [OF d(2)] by blast
  let ?D = "if c = ERROR_SUCCESS then insert g D else D"
  have "fw_store A s' = fw_store A s |` (- ?D)"
    using D(2) l(2) by (auto simp: restrict_map_def fun_eq_iff)
  moreover have "h \<in> ?D \<or> fw_store A s h = None"
    if "(h, k) \<in> set (zip (g # gs) cs)" "classify_delete_code k \<noteq> KeyFailed" for h k
  proof (cases "(h, k) \<in> set (zip gs cs')")
    case True
    from D(3) [rule_format, OF True that(2)] l(2) show ?thesis by (auto split: if_splits)
  next
    case False
    with that(1) d(3) have "h = g" "k = c" by auto
    with that(2) l(3) show ?thesis by (auto simp: classify_delete_code_def split: if_splits)
  qed
  moreover have "?D \<subseteq> set (g # gs)" using D(1) by auto
  moreover have "fw_base A s' = fw_base A s" "length cs = length (g # gs)" using b l(1) d(3) by simp_all
  ultimately show ?case by blast
qed auto

lemma first_delete_failure_None:
  "first_delete_failure cs = None \<longleftrightarrow> (\<forall>(l, c) \<in> set cs. classify_delete_code c \<noteq> KeyFailed)"
  by (induction cs rule: first_delete_failure.induct) auto

lemma benign_deletes:
  assumes "fwpm_laws A" "delete_keys A gs s = (s', cs)"
    and "first_delete_failure (zip ls cs) = None" "length ls = length gs"
  shows "fw_store A s' = fw_store A s |` (- set gs)"
proof -
  obtain D where D: "D \<subseteq> set gs" "fw_store A s' = fw_store A s |` (- D)"
    "\<forall>g c. (g, c) \<in> set (zip gs cs) \<longrightarrow> classify_delete_code c \<noteq> KeyFailed \<longrightarrow> g \<in> D \<or> fw_store A s g = None"
    and len: "length cs = length gs"
    using delete_keys_store [OF assms(1,2)] by blast
  have "g \<in> D \<or> fw_store A s g = None" if g: "g \<in> set gs" for g
  proof -
    obtain i where i: "i < length gs" "gs ! i = g" using g by (auto simp: in_set_conv_nth)
    have "(ls ! i, cs ! i) \<in> set (zip ls cs)" "(g, cs ! i) \<in> set (zip gs cs)"
      using i len assms(4) by (auto simp: set_zip)
    then show ?thesis using assms(3) D(3) by (force simp: first_delete_failure_None)
  qed
  with D(1,2) show ?thesis by (auto simp: restrict_map_def fun_eq_iff)
qed

text \<open>
  The specification of an engage on the object store: the pre-deleted keys are emptied and every
  filter of the cover is put under its key unless a filter is already there.
\<close>

definition filter_table :: "cover_spec \<Rightarrow> (guid \<rightharpoonup> filter_spec)" where
  "filter_table spec = map_of (map (\<lambda>f. (f_guid f, f)) (filters spec))"

definition installed_over :: "cover_spec \<Rightarrow> guid set \<Rightarrow> (guid \<rightharpoonup> filter_spec) \<Rightarrow> (guid \<rightharpoonup> filter_spec)" where
  "installed_over spec D store = filter_table spec ++ (store |` (- D))"

lemma issue_pre_deletes_store:
  assumes "fwpm_laws A" "issue_pre_deletes A gs policy s = (s', r)"
  shows "fw_base A s' = fw_base A s"
    and "\<exists>D \<subseteq> set gs. fw_store A s' = fw_store A s |` (- D)"
    and "r = None \<Longrightarrow> refuses_a_stale_key policy \<Longrightarrow> fw_store A s' = fw_store A s |` (- set gs)"
proof -
  obtain cs where cs: "delete_keys A gs s = (s', cs)" "r = pre_delete_verdict policy (zip (map pre_delete_label gs) cs)"
    using assms(2) by (auto simp: issue_pre_deletes_def split: prod.splits)
  note d = delete_keys_store [OF assms(1) cs(1)]
  from d show "fw_base A s' = fw_base A s" by (rule conjunct1)
  from d show "\<exists>D \<subseteq> set gs. fw_store A s' = fw_store A s |` (- D)" by (elim conjE exE) auto
  show "fw_store A s' = fw_store A s |` (- set gs)" if "r = None" "refuses_a_stale_key policy"
    using that cs(2) benign_deletes [OF assms(1) cs(1), of "map pre_delete_label gs"]
    by (auto simp: pre_delete_verdict_def split: option.splits)
qed

lemma add_filter_store:
  assumes "fwpm_laws A" "add_filter A f policy s = (s', r)"
  shows "fw_base A s' = fw_base A s"
    and "r = None \<Longrightarrow> fw_store A s' = [f_guid f \<mapsto> f] ++ fw_store A s"
proof -
  let ?id = "case f_condition f of AppId path \<Rightarrow> wfp_check (fw_app_id A path s) ''FwpmGetAppIdFromFileName0'' | _ \<Rightarrow> None"
  obtain s1 c where a: "fw_add A f s = (s1, c)" by fastforce
  note l = add_law [OF assms(1) a]
  have "(?id \<noteq> None \<and> s' = s \<and> r \<noteq> None) \<or> (s' = s1 \<and> (r = None \<longrightarrow> c = ERROR_SUCCESS \<or> c = FWP_E_ALREADY_EXISTS))"
    using assms(2) a
    by (auto simp: add_filter_def wfp_check_def ok_or_exists_def split: option.splits prod.splits if_splits)
  then show "fw_base A s' = fw_base A s" using l by auto
  show "fw_store A s' = [f_guid f \<mapsto> f] ++ fw_store A s" if "r = None"
  proof -
    have "s' = s1" "c = ERROR_SUCCESS \<or> c = FWP_E_ALREADY_EXISTS"
      using that \<open>_ \<or> _\<close> by auto
    with l show ?thesis
      by (auto simp: map_add_def fun_eq_iff ERROR_SUCCESS_def FWP_E_ALREADY_EXISTS_def split: option.splits)
  qed
qed

lemma add_filters_store:
  assumes "fwpm_laws A" "add_filters A policy fs s = (s', r)"
  shows "fw_base A s' = fw_base A s \<and>
    (r = None \<longrightarrow> fw_store A s' = map_of (map (\<lambda>f. (f_guid f, f)) fs) ++ fw_store A s)"
  using assms(2)
proof (induction fs arbitrary: s)
  case (Cons f fs)
  obtain s1 r1 where f: "add_filter A f policy s = (s1, r1)" by fastforce
  note l = add_filter_store [OF assms(1) f]
  show ?case
  proof (cases r1)
    case None
    with Cons.prems f have "add_filters A policy fs s1 = (s', r)" by simp
    from Cons.IH [OF this] l None show ?thesis
      by (auto simp: map_add_def fun_eq_iff split: option.splits)
  qed (use Cons.prems f l in auto)
qed simp

lemma engage_steps_store:
  assumes "fwpm_laws A" "fw_base A s = None" "engage_steps A spec s = (s', r)"
  shows "fw_base A s' = Some (fw_store A s) \<or> (fw_base A s' = None \<and> fw_store A s' = fw_store A s \<and> r \<noteq> None)"
    and "r = None \<Longrightarrow> \<exists>D \<subseteq> set (pre_delete spec). fw_store A s' = installed_over spec D (fw_store A s) \<and>
      (refuses_a_stale_key (stale_key spec) \<longrightarrow> D = set (pre_delete spec))"
proof -
  obtain s1 c1 where 1: "fw_begin A s = (s1, c1)" by fastforce
  obtain s2 r2 where 2: "issue_pre_deletes A (pre_delete spec) (stale_key spec) s1 = (s2, r2)" by fastforce
  obtain s3 c3 where 3: "fw_provider A (cs_provider spec) s2 = (s3, c3)" by fastforce
  obtain s4 c4 where 4: "fw_sublayer A (cs_sublayer spec) (cs_provider spec) s3 = (s4, c4)" by fastforce
  obtain s5 r5 where 5: "add_filters A (stale_key spec) (filters spec) s4 = (s5, r5)" by fastforce
  note l = transaction_law(1) [OF assms(1) 1] issue_pre_deletes_store [OF assms(1) 2] container_law(1) [OF assms(1) 3]
    container_law(2) [OF assms(1) 4] add_filters_store [OF assms(1) 5]
  have run: "(c1 \<noteq> ERROR_SUCCESS \<and> s' = s1 \<and> r \<noteq> None) \<or>
      (c1 = ERROR_SUCCESS \<and> s' \<in> {s2, s3, s4} \<and> r \<noteq> None) \<or>
      (c1 = ERROR_SUCCESS \<and> r2 = None \<and> s' = s5 \<and> r = r5)"
    using assms(3) 1 2 3 4 5
    by (auto simp: engage_steps_def wfp_check_def split: option.splits if_splits)
  have base: "c1 = ERROR_SUCCESS \<Longrightarrow> x \<in> {s2, s3, s4, s5} \<Longrightarrow> fw_base A x = Some (fw_store A s)" for x
    using l by auto
  from run base l(1) assms(2) show "fw_base A s' = Some (fw_store A s) \<or> (fw_base A s' = None \<and> fw_store A s' = fw_store A s \<and> r \<noteq> None)"
    by auto
  assume "r = None"
  with run have ok: "r2 = None" "s' = s5" "r5 = None" by auto
  have table: "fw_store A s' = filter_table spec ++ fw_store A s2" using ok l(5-7) by (simp add: filter_table_def)
  show "\<exists>D \<subseteq> set (pre_delete spec). fw_store A s' = installed_over spec D (fw_store A s) \<and>
      (refuses_a_stale_key (stale_key spec) \<longrightarrow> D = set (pre_delete spec))"
  proof (cases "refuses_a_stale_key (stale_key spec)")
    case True
    with l(1,4) ok table show ?thesis by (auto simp: installed_over_def)
  next
    case False
    with l(1,3) table show ?thesis by (auto simp: installed_over_def)
  qed
qed

section \<open>What an engage leaves\<close>

lemma engage_store:
  assumes "fwpm_laws A" "fw_base A s = None" "engage A server_ip resolver_ip s = (s', r)"
  shows "fw_base A s' = None \<and> (if r = None
    then \<exists>D \<subseteq> set transient_pre_delete_guids. fw_store A s' = installed_over (build_cover_spec server_ip resolver_ip) D (fw_store A s)
    else fw_store A s' = fw_store A s)"
proof -
  let ?spec = "build_cover_spec server_ip resolver_ip"
  obtain s1 r1 where 1: "engage_steps A ?spec s = (s1, r1)" by fastforce
  obtain s2 c where 2: "fw_commit A s1 = (s2, c)" by fastforce
  note l = engage_steps_store [OF assms(1,2) 1] transaction_law(2) [OF assms(1) 2]
  have "pre_delete ?spec = transient_pre_delete_guids" by (simp add: build_cover_spec_def)
  with l assms(2,3) 1 2 transaction_law(3) [OF assms(1)] show ?thesis
    by (auto simp: engage_def wfp_check_def split: option.splits if_splits)
qed

lemma engage_lockdown_store:
  assumes "fwpm_laws A" "fw_base A s = None" "engage_lockdown A C E server_ip luid apps (s, w) = ((s', w'), r)"
  shows "fw_base A s' = None \<and> ((r \<noteq> None \<and> fw_store A s' = fw_store A s \<and> w' = w) \<or>
    (fw_store A s' = installed_over (build_lockdown_spec server_ip luid apps) (set lockdown_pre_delete_guids) (fw_store A s) \<and>
     w' = fst (record_armed C E w) \<and> (\<exists>s1. fw_store A s1 = fw_store A s' \<and> r = verify_boottime_twins A s1)))"
proof -
  let ?spec = "build_lockdown_spec server_ip luid apps"
  obtain s1 r1 where 1: "engage_steps A ?spec s = (s1, r1)" by fastforce
  obtain s2 c where 2: "fw_commit A s1 = (s2, c)" by fastforce
  note l = engage_steps_store [OF assms(1,2) 1] transaction_law(2) [OF assms(1) 2] transaction_law(3) [OF assms(1)]
  have spec: "pre_delete ?spec = lockdown_pre_delete_guids" "stale_key ?spec = StaleFail"
    by (simp_all add: build_lockdown_spec_def)
  have arms: "STANDING_COVER_ARMS_BOOT_TIME" by (simp add: STANDING_COVER_ARMS_BOOT_TIME_def LOCKDOWN_BOOTTIME_TWINS_def)
  show ?thesis
  proof (cases "fw_open A s = ERROR_SUCCESS \<and> r1 = None \<and> c = ERROR_SUCCESS")
    case True
    with l(2) spec have st: "fw_store A s1 = installed_over ?spec (set lockdown_pre_delete_guids) (fw_store A s)" by auto
    have "fw_base A s' = None \<and> fw_store A s' = fw_store A s2 \<and> w' = fst (record_armed C E w) \<and> r = verify_boottime_twins A s2"
      using assms(3) 1 2 True arms l(3,4)
      by (auto simp: engage_lockdown_def wfp_check_def Let_def split: option.splits)
    with st l(3) show ?thesis by metis
  next
    case False
    with assms(2,3) 1 2 l show ?thesis
      by (auto simp: engage_lockdown_def wfp_check_def Let_def split: option.splits if_splits)
  qed
qed

section \<open>The keys of the two covers\<close>

text \<open>The filters whose content no argument changes, and the keys whose content can change.\<close>

definition fixed_filters :: "filter_spec list" where
  "fixed_filters =
     filter (\<lambda>f. \<not> requires_fresh_add f) (filters (build_cover_spec (V4 0) None) @ filters (build_lockdown_spec (V4 0) 0 []))"

definition runtime_keys :: "guid list" where
  "runtime_keys = transient_pre_delete_guids @ lockdown_pre_delete_guids"

definition cover_keys :: "guid list" where
  "cover_keys = map sk_guid (swept_lockdown_keys @ swept_transient_keys)"

lemma key_counts [simp]:
  "length FILTER_GUIDS = 12" "length LOCKDOWN_FILTER_GUIDS = 12" "length LOCKDOWN_BOOTTIME_BLOCK_ALL_GUIDS = 2"
  by (simp_all add: FILTER_GUIDS_def LOCKDOWN_FILTER_GUIDS_def LOCKDOWN_BOOTTIME_BLOCK_ALL_GUIDS_def)

lemma appid_keys:
  "appid_pre_delete_guids =
     [0xf611568d6af6412786002d3239500000, 0xf611568d6af6412786002d3239500001,
      0xf611568d6af6412786002d3239500100, 0xf611568d6af6412786002d3239500101,
      0xf611568d6af6412786002d3239500200, 0xf611568d6af6412786002d3239500201,
      0xf611568d6af6412786002d3239500300, 0xf611568d6af6412786002d3239500301]"
  by (simp add: appid_pre_delete_guids_def MAX_APPID_BINARIES_def appid_filter_guid_def upt_rec eval_nat_numeral
      numeral_3_eq_3 numeral_2_eq_2)

lemma twin_keys: "map tw_guid LOCKDOWN_BOOTTIME_TWINS = LOCKDOWN_BOOTTIME_BLOCK_ALL_GUIDS"
  by (simp add: LOCKDOWN_BOOTTIME_TWINS_def LOCKDOWN_BOOTTIME_BLOCK_ALL_GUIDS_def)

lemma lockdown_keys:
  "map sk_guid swept_lockdown_keys = LOCKDOWN_FILTER_GUIDS @ LOCKDOWN_BOOTTIME_BLOCK_ALL_GUIDS @ appid_pre_delete_guids"
  by (simp add: swept_lockdown_keys_def appid_pre_delete_guids_def map_concat comp_def twin_keys [symmetric])

lemma transient_keys: "map sk_guid swept_transient_keys = FILTER_GUIDS"
  by (simp add: swept_transient_keys_def comp_def)

text \<open>Keys are compared as integers: one conversion for each key, not one for each pair.\<close>

lemmas key_tables = FILTER_GUIDS_def LOCKDOWN_FILTER_GUIDS_def LOCKDOWN_BOOTTIME_BLOCK_ALL_GUIDS_def appid_keys

lemma distinct_uints: "distinct (map uint xs) \<Longrightarrow> distinct xs"
  by (simp add: distinct_map)

lemma cover_keys_distinct: "distinct cover_keys"
  by (rule distinct_uints) (simp add: cover_keys_def lockdown_keys transient_keys key_tables del: distinct_map)

lemma keys_distinct: "distinct (map f_guid fixed_filters @ runtime_keys)"
  by (rule distinct_uints)
    (simp add: fixed_filters_def runtime_keys_def build_cover_spec_def build_lockdown_spec_def appid_permits_def
      requires_fresh_add_def LOCKDOWN_BOOTTIME_TWINS_def transient_pre_delete_guids_def lockdown_pre_delete_guids_def
      adopt_delete_guids_def LOCKDOWN_TUN_GUID_INDICES_def LOCKDOWN_SERVER_GUID_INDICES_def key_tables del: distinct_map)

lemma runtime_keys_swept: "set runtime_keys \<subseteq> set cover_keys"
  by (auto simp: runtime_keys_def cover_keys_def lockdown_keys transient_keys transient_pre_delete_guids_def
      lockdown_pre_delete_guids_def adopt_delete_guids_def LOCKDOWN_TUN_GUID_INDICES_def LOCKDOWN_SERVER_GUID_INDICES_def twin_keys)

text \<open>A filter of some transient cover or of some standing cover that fits its slots.\<close>

definition own_filter :: "filter_spec \<Rightarrow> bool" where
  "own_filter f \<longleftrightarrow>
     (\<exists>server resolver. f \<in> set (filters (build_cover_spec server resolver))) \<or>
     (\<exists>server luid apps. length apps \<le> MAX_APPID_BINARIES \<and> f \<in> set (filters (build_lockdown_spec server luid apps)))"

lemma appid_key_in_table: "i < MAX_APPID_BINARIES \<Longrightarrow> appid_filter_guid i v6 \<in> set appid_pre_delete_guids"
  by (cases v6) (auto simp: appid_pre_delete_guids_def)

lemma transient_filter_keys:
  assumes "f \<in> set (filters (build_cover_spec server resolver))"
  shows "if requires_fresh_add f then f_guid f \<in> set transient_pre_delete_guids else f \<in> set fixed_filters"
  using assms
  by (cases server; cases resolver; cases "the resolver")
    (auto simp: build_cover_spec_def requires_fresh_add_def fixed_filters_def transient_pre_delete_guids_def connect_layer_def)

lemma lockdown_filter_keys:
  assumes "f \<in> set (filters (build_lockdown_spec server luid apps))" "length apps \<le> MAX_APPID_BINARIES"
  shows "if requires_fresh_add f then f_guid f \<in> set lockdown_pre_delete_guids else f \<in> set fixed_filters"
proof (cases "f \<in> set (appid_permits apps)")
  case True
  then obtain i v6 l where "i < length apps" and f: "f = permit (appid_filter_guid i v6) l (AppId (apps ! i))"
    unfolding in_appid_permits by blast
  with assms(2) have "i < MAX_APPID_BINARIES" by simp
  then show ?thesis
    by (simp add: f requires_fresh_add_def lockdown_pre_delete_guids_def appid_key_in_table)
next
  case False
  with assms(1) show ?thesis
    by (cases server)
      (auto simp: build_lockdown_spec_def requires_fresh_add_def fixed_filters_def lockdown_pre_delete_guids_def
        adopt_delete_guids_def LOCKDOWN_TUN_GUID_INDICES_def LOCKDOWN_SERVER_GUID_INDICES_def connect_layer_def)
qed

lemma own_filter_cases:
  assumes "own_filter f"
  shows "if requires_fresh_add f then f_guid f \<in> set runtime_keys else f \<in> set fixed_filters"
  using assms transient_filter_keys lockdown_filter_keys
  by (fastforce simp: own_filter_def runtime_keys_def split: if_splits)

text \<open>A key that always carries the same filter carries no other filter of a cover.\<close>

lemma fixed_filter_unique:
  assumes "own_filter f" "own_filter f'" "f_guid f = f_guid f'" "\<not> requires_fresh_add f"
  shows "f' = f"
proof -
  have f: "f \<in> set fixed_filters" using own_filter_cases [OF assms(1)] assms(4) by simp
  have "f_guid f' \<notin> set runtime_keys" using keys_distinct f assms(3) by force
  then have "f' \<in> set fixed_filters" using own_filter_cases [OF assms(2)] by (auto split: if_splits)
  with f assms(3) keys_distinct show ?thesis by (auto simp: distinct_map inj_on_def)
qed

lemma fixed_keys_swept: "f \<in> set fixed_filters \<Longrightarrow> f_guid f \<in> set cover_keys"
  by (auto simp: fixed_filters_def cover_keys_def lockdown_keys transient_keys build_cover_spec_def build_lockdown_spec_def
      appid_permits_def requires_fresh_add_def LOCKDOWN_BOOTTIME_TWINS_def)

lemma own_filter_swept: "own_filter f \<Longrightarrow> f_guid f \<in> set cover_keys"
  using own_filter_cases [of f] fixed_keys_swept [of f] runtime_keys_swept by (auto split: if_splits)

lemma appid_permit_guids:
  assumes "length apps \<le> MAX_APPID_BINARIES"
  shows "\<exists>unused. appid_pre_delete_guids = map f_guid (appid_permits apps) @ unused"
proof -
  let ?pair = "\<lambda>i. map (appid_filter_guid i) [False, True]"
  have "map f_guid (appid_permits apps) = concat (map ?pair (map fst (enumerate 0 apps)))"
    by (simp add: appid_permits_def map_concat comp_def split_def del: map_fst_enumerate)
  also have "\<dots> = concat (map ?pair [0..<length apps])" by simp
  finally have "map f_guid (appid_permits apps) = concat (map ?pair [0..<length apps])" .
  moreover have "[0..<MAX_APPID_BINARIES] = [0..<length apps] @ [length apps..<MAX_APPID_BINARIES]"
    using assms upt_add_eq_append [of 0 "length apps" "MAX_APPID_BINARIES - length apps"] by simp
  ultimately show ?thesis unfolding appid_pre_delete_guids_def by (metis concat_append map_append)
qed

lemma lockdown_specs_distinct:
  assumes "length apps \<le> MAX_APPID_BINARIES"
  shows "distinct (map f_guid (filters (build_lockdown_spec server luid apps)))"
proof -
  obtain unused where unused: "appid_pre_delete_guids = map f_guid (appid_permits apps) @ unused"
    using appid_permit_guids [OF assms] ..
  have "distinct (LOCKDOWN_FILTER_GUIDS @ LOCKDOWN_BOOTTIME_BLOCK_ALL_GUIDS @ map f_guid (appid_permits apps))"
    using cover_keys_distinct by (simp add: cover_keys_def lockdown_keys unused Int_Un_distrib Int_Un_distrib2)
  moreover define K n where "K = LOCKDOWN_FILTER_GUIDS @ LOCKDOWN_BOOTTIME_BLOCK_ALL_GUIDS @ map f_guid (appid_permits apps)"
    and "n = length (appid_permits apps)"
  moreover define idx where "idx = [0, 1, 10, 11, 8, 9, 2, 3] @ [14..<14 + n] @
      [if connect_layer server = ConnectV4 then 4 else 5, 6, 7] @ [12, 13]"
  have "map f_guid (appid_permits apps) = map ((!) K) [14..<14 + n]"
    by (intro nth_equalityI) (simp_all add: K_def n_def nth_append)
  then have "map f_guid (filters (build_lockdown_spec server luid apps)) = map ((!) K) idx"
    by (simp add: build_lockdown_spec_def LOCKDOWN_BOOTTIME_TWINS_def idx_def K_def nth_append)
  moreover have "distinct idx" "set idx \<subseteq> {..<length K}"
    by (auto simp: idx_def K_def n_def)
  ultimately show ?thesis by (auto simp: distinct_map inj_on_def nth_eq_iff_index_eq subset_iff)
qed

section \<open>Histories of the covers\<close>

text \<open>Every operation of the code on the two covers, each with its own file-system faults.\<close>

inductive cover_run :: "'s fwpm \<Rightarrow> boot_time_state codec \<Rightarrow> 's \<times> world \<Rightarrow> 's \<times> world \<Rightarrow> bool"
  for A :: "'s fwpm" and C :: "boot_time_state codec" and sw :: "'s \<times> world" where
  start: "cover_run A C sw sw"
| engage: "cover_run A C sw (s, w) \<Longrightarrow> engage A server resolver s = (s', r) \<Longrightarrow> cover_run A C sw (s', w)"
| lockdown: "cover_run A C sw sw1 \<Longrightarrow> length apps \<le> MAX_APPID_BINARIES \<Longrightarrow>
    engage_lockdown A C E server luid apps sw1 = (sw2, r) \<Longrightarrow> cover_run A C sw sw2"
| disengage: "cover_run A C sw sw1 \<Longrightarrow> disengage_with_record A C E sw1 = (sw2, r') \<Longrightarrow> cover_run A C sw sw2"
| release: "cover_run A C sw sw1 \<Longrightarrow> release_with_record A C E sw1 = (sw2, r') \<Longrightarrow> cover_run A C sw sw2"
| drop: "cover_run A C sw (s, w) \<Longrightarrow> cover_run A C sw (drop_cover A kind s, w)"
| recover_transient: "cover_run A C sw (s, w) \<Longrightarrow> cover_run A C sw (recover_transient_cover A adopting s, w)"
| recover_lockdown: "cover_run A C sw sw1 \<Longrightarrow> cover_run A C sw (recover_lockdown A C E resolve dec tun sw1)"

definition own_store :: "(guid \<rightharpoonup> filter_spec) \<Rightarrow> bool" where
  "own_store m \<longleftrightarrow> (\<forall>g \<in> set cover_keys. \<forall>f. m g = Some f \<longrightarrow> own_filter f \<and> f_guid f = g)"

definition settled :: "'s fwpm \<Rightarrow> 's \<Rightarrow> bool" where
  "settled A s \<longleftrightarrow> fw_base A s = None \<and> own_store (fw_store A s)"

lemma own_store_restrict: "own_store m \<Longrightarrow> own_store (m |` S)"
  by (auto simp: own_store_def restrict_map_def)

lemma own_store_installed:
  assumes "own_store m" "\<forall>f \<in> set (filters spec). own_filter f"
  shows "own_store (installed_over spec D m)"
  using own_store_restrict [OF assms(1), of "- D"] assms(2)
  by (auto simp: own_store_def installed_over_def map_add_def filter_table_def split: option.splits dest!: map_of_SomeD)

lemma settled_deletes: "fwpm_laws A \<Longrightarrow> settled A s \<Longrightarrow> settled A (fst (delete_keys A gs s))"
proof -
  assume laws: "fwpm_laws A" and s: "settled A s"
  obtain s' cs where d: "delete_keys A gs s = (s', cs)" by fastforce
  from delete_keys_store [OF laws d] obtain D where "fw_base A s' = fw_base A s" "fw_store A s' = fw_store A s |` (- D)" by auto
  with s d show ?thesis by (simp add: settled_def own_store_restrict)
qed

lemma settled_containers: "fwpm_laws A \<Longrightarrow> settled A s \<Longrightarrow> settled A (fw_delete_containers A s)"
  by (simp add: settled_def container_law)

lemmas settled_sweeps = settled_deletes settled_containers

lemma disengage_settled: "fwpm_laws A \<Longrightarrow> settled A s \<Longrightarrow> settled A (fst (disengage_lockdown A s))"
  using settled_deletes [of A s "map sk_guid swept_lockdown_keys"]
  by (auto simp: disengage_lockdown_def split: prod.splits)

lemma release_settled: "fwpm_laws A \<Longrightarrow> settled A s \<Longrightarrow> settled A (fst (release_all A s))"
  using settled_deletes [of A s "map sk_guid (swept_lockdown_keys @ swept_transient_keys)"]
  by (auto simp: release_all_def Let_def settled_containers split: prod.splits)

lemma disengage_record_settled:
  "fwpm_laws A \<Longrightarrow> settled A (fst sw) \<Longrightarrow> settled A (fst (fst (disengage_with_record A C E sw)))"
  using disengage_settled [of A "fst sw"] by (auto simp: disengage_with_record_def split: prod.splits)

lemma release_record_settled:
  "fwpm_laws A \<Longrightarrow> settled A (fst sw) \<Longrightarrow> settled A (fst (fst (release_with_record A C E sw)))"
  using release_settled [of A "fst sw"] by (auto simp: release_with_record_def split: prod.splits)

lemma engage_settled:
  assumes "fwpm_laws A" "settled A s"
  shows "settled A (fst (engage A server resolver s))"
proof -
  obtain s' r where e: "engage A server resolver s = (s', r)" by fastforce
  have own: "\<forall>f \<in> set (filters (build_cover_spec server resolver)). own_filter f" by (auto simp: own_filter_def)
  from engage_store [OF assms(1) _ e] assms(2) own_store_installed [OF _ own] e show ?thesis
    by (auto simp: settled_def split: if_splits)
qed

lemma lockdown_settled:
  assumes "fwpm_laws A" "settled A s" "length apps \<le> MAX_APPID_BINARIES"
  shows "settled A (fst (fst (engage_lockdown A C E server luid apps (s, w))))"
proof -
  obtain s' w' r where e: "engage_lockdown A C E server luid apps (s, w) = ((s', w'), r)" by (metis prod.exhaust)
  have own: "\<forall>f \<in> set (filters (build_lockdown_spec server luid apps)). own_filter f" using assms(3) by (auto simp: own_filter_def)
  from engage_lockdown_store [OF assms(1) _ e] assms(2) own_store_installed [OF _ own] e show ?thesis
    by (auto simp: settled_def)
qed

text \<open>Between operations no transaction is open and a cover's keys carry nothing but that key's filters.\<close>

lemma run_settled:
  assumes "fwpm_laws A" "cover_run A C sw sw'" "settled A (fst sw)"
  shows "settled A (fst sw')"
  using assms(2,3)
proof (induction rule: cover_run.induct)
  case (engage s w server resolver s' r)
  with engage_settled [OF assms(1), of s server resolver] show ?case by simp
next
  case (lockdown sw1 apps E server luid sw2 r)
  with lockdown_settled [OF assms(1), of "fst sw1" apps C E server luid "snd sw1"] show ?case by simp
next
  case (disengage sw1 E sw2 r)
  with disengage_record_settled [OF assms(1), of sw1 C E] show ?case by simp
next
  case (release sw1 E sw2 r)
  with release_record_settled [OF assms(1), of sw1 C E] show ?case by simp
next
  case (drop s w kind)
  then show ?case by (cases kind) (simp_all add: drop_cover_def delete_all_def settled_sweeps assms(1))
next
  case (recover_transient s w adopting)
  then show ?case by (simp add: recover_transient_cover_def delete_all_def settled_sweeps assms(1))
next
  case (recover_lockdown sw1 E resolve dec tun)
  with disengage_record_settled [OF assms(1), of sw1 C E] settled_deletes [OF assms(1), of "fst sw1"] show ?case
    by (auto simp: recover_lockdown_def reclaim_stale_tun_permit_def split: recovery_dispatch.split option.split)
qed simp

section \<open>What is in force\<close>

lemma transient_filter_home: "f \<in> set (filters (build_cover_spec server resolver)) \<Longrightarrow> f_guid f \<in> set FILTER_GUIDS \<and> f_lifetime f = PersistentKey"
  by (cases server; cases resolver; cases "the resolver") (auto simp: build_cover_spec_def connect_layer_def)

lemma lockdown_filter_home:
  assumes "f \<in> set (filters (build_lockdown_spec server luid apps))" "length apps \<le> MAX_APPID_BINARIES"
  shows "f_guid f \<in> set (map sk_guid swept_lockdown_keys)"
proof (cases "f \<in> set (appid_permits apps)")
  case True
  obtain unused where "appid_pre_delete_guids = map f_guid (appid_permits apps) @ unused"
    using appid_permit_guids [OF assms(2)] ..
  then have "set (map f_guid (appid_permits apps)) \<subseteq> set appid_pre_delete_guids" by (metis set_append Un_upper1)
  with True show ?thesis by (auto simp: lockdown_keys)
next
  case False
  with assms(1) show ?thesis
    by (cases server) (auto simp: build_lockdown_spec_def lockdown_keys connect_layer_def twin_keys [symmetric])
qed

lemma homes_disjoint: "set FILTER_GUIDS \<inter> set (map sk_guid swept_lockdown_keys) = {}"
  using cover_keys_distinct by (auto simp: cover_keys_def transient_keys)

lemma fixed_in_lockdown:
  assumes "f \<in> set fixed_filters" "f_guid f \<in> set (map sk_guid swept_lockdown_keys)"
  shows "f \<in> set (filters (build_lockdown_spec server luid apps))"
proof -
  have "f \<notin> set (filters (build_cover_spec (V4 0) None))"
    using assms(2) transient_filter_home homes_disjoint by blast
  with assms(1) show ?thesis
    by (auto simp: fixed_filters_def build_lockdown_spec_def appid_permits_def requires_fresh_add_def)
qed

lemma own_filter_weight:
  "own_filter f \<Longrightarrow> f_weight f = (case f_action f of PermitFlow \<Rightarrow> PERMIT_WEIGHT | BlockFlow \<Rightarrow> BLOCK_WEIGHT)"
  by (auto simp: own_filter_def build_cover_spec_def build_lockdown_spec_def in_appid_permits split: option.splits)

lemma filter_table_at:
  assumes "length apps \<le> MAX_APPID_BINARIES"
  shows "filter_table (build_lockdown_spec server luid apps) g = Some f \<longleftrightarrow>
    f \<in> set (filters (build_lockdown_spec server luid apps)) \<and> f_guid f = g"
  using lockdown_specs_distinct [OF assms] by (auto simp: filter_table_def map_of_eq_Some_iff comp_def)

text \<open>Over what earlier operations left, an engage puts exactly its own filters under the standing keys.\<close>

lemma engaged_exactly:
  assumes "own_store m" "length apps \<le> MAX_APPID_BINARIES" "g \<in> set (map sk_guid swept_lockdown_keys)"
  shows "installed_over (build_lockdown_spec server luid apps) (set lockdown_pre_delete_guids) m g =
    filter_table (build_lockdown_spec server luid apps) g"
proof (cases "g \<in> set lockdown_pre_delete_guids \<or> m g = None")
  case True
  then show ?thesis by (auto simp: installed_over_def map_add_def restrict_map_def split: option.splits)
next
  case False
  then obtain f where f: "m g = Some f" by auto
  with assms(1,3) have own: "own_filter f" "f_guid f = g" by (auto simp: own_store_def cover_keys_def)
  have "set transient_pre_delete_guids \<subseteq> set FILTER_GUIDS" by (simp add: transient_pre_delete_guids_def)
  with False assms(3) homes_disjoint have "g \<notin> set runtime_keys" by (auto simp: runtime_keys_def)
  with own own_filter_cases [OF own(1)] assms(3) have "f \<in> set (filters (build_lockdown_spec server luid apps))"
    by (auto split: if_splits intro: fixed_in_lockdown)
  with own(2) filter_table_at [OF assms(2)] have "filter_table (build_lockdown_spec server luid apps) g = Some f" by blast
  with f False show ?thesis by (auto simp: installed_over_def map_add_def restrict_map_def)
qed

text \<open>The filters of both covers that the sublayer holds with a lifetime.\<close>

definition sublayer_filters :: "key_lifetime \<Rightarrow> (guid \<rightharpoonup> filter_spec) \<Rightarrow> filter_spec list" where
  "sublayer_filters t m = filter (\<lambda>f. f_lifetime f = t) (List.map_filter m cover_keys)"

definition transient_permits :: "(guid \<rightharpoonup> filter_spec) \<Rightarrow> flow \<Rightarrow> bool" where
  "transient_permits m fl =
     list_ex (\<lambda>g. case m g of Some f \<Rightarrow> f_action f = PermitFlow \<and> filter_matches f fl | None \<Rightarrow> False) FILTER_GUIDS"

lemma transient_permits_iff:
  "transient_permits m fl \<longleftrightarrow> (\<exists>f g. g \<in> set FILTER_GUIDS \<and> m g = Some f \<and> filter_matches f fl \<and> f_action f = PermitFlow)"
  by (auto simp: transient_permits_def list_ex_iff split: option.splits)

lemma in_sublayer: "f \<in> set (sublayer_filters t m) \<longleftrightarrow> f_lifetime f = t \<and> (\<exists>g \<in> set cover_keys. m g = Some f)"
  by (force simp: sublayer_filters_def List.map_filter_def)

section \<open>Samples\<close>

text \<open>A platform that follows the laws: its store is a list of filters.\<close>

definition sample_fwpm :: "(filter_spec list \<times> filter_spec list option) fwpm" where
  "sample_fwpm =
     (let has = (\<lambda>g fs. list_ex (\<lambda>f. f_guid f = g) fs)
      in \<lparr>fw_open = (\<lambda>_. ERROR_SUCCESS),
          fw_begin = (\<lambda>(fs, _). ((fs, Some fs), ERROR_SUCCESS)),
          fw_delete = (\<lambda>g (fs, b). if has g fs then ((filter (\<lambda>f. f_guid f \<noteq> g) fs, b), ERROR_SUCCESS)
             else ((fs, b), FWP_E_FILTER_NOT_FOUND)),
          fw_provider = (\<lambda>_ s. (s, ERROR_SUCCESS)),
          fw_sublayer = (\<lambda>_ _ s. (s, FWP_E_ALREADY_EXISTS)),
          fw_app_id = (\<lambda>_ _. ERROR_SUCCESS),
          fw_add = (\<lambda>f (fs, b). if has (f_guid f) fs then ((fs, b), FWP_E_ALREADY_EXISTS) else ((f # fs, b), ERROR_SUCCESS)),
          fw_commit = (\<lambda>(fs, _). ((fs, None), ERROR_SUCCESS)),
          fw_abort = (\<lambda>(fs, b). (case b of Some fs' \<Rightarrow> fs' | None \<Rightarrow> fs, None)),
          fw_get = (\<lambda>g (fs, _). if has g fs then ERROR_SUCCESS else FWP_E_FILTER_NOT_FOUND),
          fw_delete_containers = (\<lambda>s. s),
          fw_boottime_views = (\<lambda>l (fs, _). [Ok (map (\<lambda>f. \<lparr>fr_key = f_guid f, fr_boottime = True, fr_disabled = False\<rparr>)
             (filter (\<lambda>f. f_layer f = l \<and> f_lifetime f = BootTimeKey) fs))]),
          fw_store = (\<lambda>(fs, _). map_of (map (\<lambda>f. (f_guid f, f)) fs)),
          fw_base = (\<lambda>(_, b). map_option (\<lambda>fs. map_of (map (\<lambda>f. (f_guid f, f)) fs)) b)\<rparr>)"

lemma sample_lookup:
  "map_of (map (\<lambda>f. (f_guid f, f)) fs) g = None \<longleftrightarrow> \<not> list_ex (\<lambda>f. f_guid f = g) fs"
  "map_of (map (\<lambda>f. (f_guid f, f)) (filter (\<lambda>f. f_guid f \<noteq> g) fs)) = (map_of (map (\<lambda>f. (f_guid f, f)) fs))(g := None)"
  by (induction fs) (auto simp: fun_eq_iff)

lemma sample_codes: "ERROR_SUCCESS \<noteq> FWP_E_FILTER_NOT_FOUND" "ERROR_SUCCESS \<noteq> FWP_E_ALREADY_EXISTS"
  by (simp_all add: ERROR_SUCCESS_def FWP_E_FILTER_NOT_FOUND_def FWP_E_ALREADY_EXISTS_def)

lemma sample_fwpm_laws: "fwpm_laws sample_fwpm"
  unfolding fwpm_laws_def
proof (intro conjI)
  note sel = sample_fwpm_def Let_def split_def
  show "delete_honest sample_fwpm"
    using sample_codes by (auto simp: delete_honest_def sel sample_lookup split: if_splits)
  show "add_honest sample_fwpm"
    using sample_codes by (auto simp: add_honest_def sel sample_lookup split: if_splits)
  show "get_honest sample_fwpm"
    using sample_codes by (auto simp: get_honest_def sel sample_lookup split: if_splits)
  show "containers_inert sample_fwpm" by (auto simp: containers_inert_def sel)
  show "transactional sample_fwpm" by (auto simp: transactional_def sel split: option.splits)
qed

lemma sample_settled: "settled sample_fwpm ([], None)"
  by (simp add: settled_def own_store_def sample_fwpm_def Let_def)

definition sample_arm :: "(filter_spec list \<times> filter_spec list option) \<times> world \<Rightarrow>
    ((filter_spec list \<times> filter_spec list option) \<times> world) \<times> wfp_error option" where
  "sample_arm sw = engage_lockdown sample_fwpm sample_boottime no_faults (V4 0x08080808) 7 [] sw"

lemma sample_arm_ok: "snd (sample_arm (([], None), empty_world)) = None"
  by code_simp

section \<open>Properties\<close>

text \<open>
  C13. The standing cover confines the host. After any history of engages, failed engages, sweeps,
  drops and recoveries, an engage of the standing cover that succeeds leaves the sublayer letting
  an outgoing flow through exactly when it is loopback, leaves by the current tunnel interface,
  belongs to a currently permitted binary, goes to the current server, or a transient cover that
  is still installed permits it: no stale interface, server or binary of an earlier engage
  survives. And the boot-time filters let nothing through.
\<close>

theorem engaged_lockdown_confines:
  assumes "fwpm_laws A" "settled A s0" "cover_run A C (s0, w0) (s, w)" "length apps \<le> MAX_APPID_BINARIES"
    and "engage_lockdown A C E server luid apps (s, w) = ((s', w'), None)" "outgoing fl"
  shows "(allows (sublayer_filters PersistentKey (fw_store A s')) fl \<longleftrightarrow>
      fl_loopback fl \<or> loopback_address (fl_remote fl) \<or> fl_luid fl = luid \<or> fl_app fl \<in> set apps \<or> fl_remote fl = server \<or>
      transient_permits (fw_store A s') fl) \<and>
    \<not> allows (sublayer_filters BootTimeKey (fw_store A s')) fl"
proof -
  let ?spec = "build_lockdown_spec server luid apps" and ?m = "fw_store A s'"
  have s: "fw_base A s = None" "own_store (fw_store A s)"
    using run_settled [OF assms(1,3)] assms(2) by (simp_all add: settled_def)
  have m: "?m = installed_over ?spec (set lockdown_pre_delete_guids) (fw_store A s)"
    using engage_lockdown_store [OF assms(1) s(1) assms(5)] by auto
  have own: "own_store ?m"
    using lockdown_settled [OF assms(1) _ assms(4), of s C E server luid w] s assms(5) by (simp add: settled_def)
  have standing: "?m g = Some f \<longleftrightarrow> f \<in> set (filters ?spec) \<and> f_guid f = g" if "g \<in> set (map sk_guid swept_lockdown_keys)" for g f
    using engaged_exactly [OF s(2) assms(4) that] filter_table_at [OF assms(4)] m by simp
  have sub: "f \<in> set (sublayer_filters t ?m) \<longleftrightarrow>
      f \<in> set (in_force t ?spec) \<or> f_lifetime f = t \<and> (\<exists>g \<in> set FILTER_GUIDS. ?m g = Some f)" for t f
    using standing lockdown_filter_home [OF _ assms(4), of f server luid]
    by (auto simp: in_sublayer in_force_def cover_keys_def transient_keys)
  have w: "\<forall>f \<in> set (sublayer_filters t ?m). f_weight f = (case f_action f of PermitFlow \<Rightarrow> PERMIT_WEIGHT | BlockFlow \<Rightarrow> BLOCK_WEIGHT)" for t
    using own own_filter_weight by (auto simp: in_sublayer own_store_def)
  have life: "f_lifetime f = PersistentKey" if "g \<in> set FILTER_GUIDS" "?m g = Some f" for f g
  proof -
    have "own_filter f" "f_guid f = g" using own that by (auto simp: own_store_def cover_keys_def transient_keys)
    with transient_filter_home lockdown_filter_home homes_disjoint that(1) show ?thesis
      unfolding own_filter_def by (metis disjoint_iff)
  qed
  have b: "\<exists>f \<in> set (sublayer_filters t ?m). filter_matches f fl \<and> f_action f = BlockFlow" for t
    using lockdown_blocks [OF assms(6), of t server luid apps] sub by blast
  have "(\<exists>f \<in> set (sublayer_filters PersistentKey ?m). filter_matches f fl \<and> f_action f = PermitFlow) \<longleftrightarrow>
      (\<exists>f \<in> set (in_force PersistentKey ?spec). filter_matches f fl \<and> f_action f = PermitFlow) \<or> transient_permits ?m fl"
    unfolding Bex_def sub transient_permits_iff using life by blast
  moreover have "f_action f = BlockFlow" if "f \<in> set (sublayer_filters BootTimeKey ?m)" for f
    using that life lockdown_boot_time_permits by (auto simp: sub)
  ultimately show ?thesis using allows_permits [OF w b] lockdown_permits [OF assms(6), of server luid apps] by auto
qed

theorem engaged_lockdown_confines_witness:
  "let fl = \<lparr>fl_layer = ConnectV4, fl_remote = V4 0x01010101, fl_protocol = 6, fl_port = 443, fl_luid = 9, fl_app = ''ex'', fl_loopback = False\<rparr>
   in \<not> allows (sublayer_filters BootTimeKey (fw_store sample_fwpm (fst (fst (sample_arm (([], None), empty_world)))))) fl"
proof -
  let ?fl = "\<lparr>fl_layer = ConnectV4, fl_remote = V4 0x01010101, fl_protocol = 6, fl_port = 443, fl_luid = 9, fl_app = ''ex'', fl_loopback = False\<rparr> :: flow"
  let ?r = "sample_arm (([], None), empty_world)"
  have "?r = ((fst (fst ?r), snd (fst ?r)), None)" using sample_arm_ok by (metis prod.collapse)
  note e = this [unfolded sample_arm_def]
  have "length [] \<le> MAX_APPID_BINARIES" by (simp add: MAX_APPID_BINARIES_def)
  from engaged_lockdown_confines [OF sample_fwpm_laws sample_settled cover_run.start this e, of ?fl]
  show ?thesis by (simp add: outgoing_def connect_layer_def sample_arm_def)
qed

lemma fwpm_open_irrelevant: "fwpm_laws (A\<lparr>fw_open := f\<rparr>) = fwpm_laws A"
  unfolding fwpm_laws_def delete_honest_def add_honest_def get_honest_def containers_inert_def transactional_def
  by (simp cong: option.case_cong)



lemma release_all_store:
  assumes "fwpm_laws A" "release_all A s = (s', sweep)"
  shows "so_failure (sweep x) = None \<Longrightarrow> fw_store A s' = fw_store A s |` (- set cover_keys)"
    and "\<exists>D \<subseteq> set cover_keys. fw_store A s' = fw_store A s |` (- D)"
proof -
  let ?keys = "swept_lockdown_keys @ swept_transient_keys"
  obtain s1 cs where d: "delete_keys A cover_keys s = (s1, cs)" by fastforce
  note sel = release_all_def Let_def cover_keys_def [symmetric]
  show "\<exists>D \<subseteq> set cover_keys. fw_store A s' = fw_store A s |` (- D)"
  proof (cases "fw_open A s = ERROR_SUCCESS")
    case True
    then have "s' = fw_delete_containers A s1" using assms(2) d by (simp add: sel del: map_append)
    with delete_keys_store [OF assms(1) d] container_law(3) [OF assms(1), of s1] show ?thesis by auto
  next
    case False
    then have "s' = s" using assms(2) by (simp add: sel)
    then show ?thesis by (intro exI [of _ "{}"]) (simp add: restrict_map_def)
  qed
  assume ok: "so_failure (sweep x) = None"
  show "fw_store A s' = fw_store A s |` (- set cover_keys)"
  proof (cases "fw_open A s = ERROR_SUCCESS")
    case True
    then have s': "s' = fw_delete_containers A s1" "sweep = disengage_verdict None (zip ?keys cs)"
      using assms(2) d by (simp_all add: sel del: map_append)
    have "first_delete_failure (zip (map sk_label ?keys) cs) = None"
      using ok unfolding zip_map1
      by (auto simp: s' disengage_verdict_def sweep_failed_def Let_def split: option.splits)
    from benign_deletes [OF assms(1) d this] container_law(3) [OF assms(1), of s1] show ?thesis
      by (simp add: s' cover_keys_def)
  next
    case False
    then show ?thesis using assms(2) ok by (auto simp: sel sweep_failed_def)
  qed
qed

text \<open>
  C15. A release that answers success has removed everything: no filter of a transient or a standing
  cover is left in the object store, with whatever arguments it was engaged. No release, even one
  that fails, writes a filter or touches another object.
\<close>

theorem release_removes_every_filter:
  assumes "fwpm_laws A" "release_with_record A C E (s, w) = ((s', w'), r)"
  shows "(\<forall>c f. r = Ok c \<longrightarrow> own_filter f \<longrightarrow> fw_store A s' (f_guid f) = None) \<and>
    (\<forall>g. fw_store A s' g = fw_store A s g \<or> g \<in> set cover_keys \<and> fw_store A s' g = None)"
proof -
  obtain sweep where sweep: "release_all A s = (s', sweep)"
    using assms(2) by (auto simp: release_with_record_def split: prod.splits)
  have "\<exists>x. so_failure (sweep x) = None" if "r = Ok c" for c
    using assms(2) sweep that by (auto simp: release_with_record_def sweep_with_witness_def Let_def split: prod.splits option.splits)
  then have "fw_store A s' = fw_store A s |` (- set cover_keys)" if "r = Ok c" for c
    using release_all_store(1) [OF assms(1) sweep] that by blast
  then have "fw_store A s' (f_guid f) = None" if "r = Ok c" "own_filter f" for c f
    using that own_filter_swept by simp
  moreover have "fw_store A s' g = fw_store A s g \<or> g \<in> set cover_keys \<and> fw_store A s' g = None" for g
    using release_all_store(2) [OF assms(1) sweep] by (auto simp: restrict_map_def split: if_splits)
  ultimately show ?thesis by simp
qed

theorem release_removes_every_filter_witness:
  "let r = release_with_record sample_fwpm sample_boottime no_faults (([block (FILTER_GUIDS ! 4) ConnectV4 PersistentKey], None), empty_world)
   in (\<exists>c. snd r = Ok c) \<and> fw_store sample_fwpm (fst (fst r)) (FILTER_GUIDS ! 4) = None"
proof -
  let ?r = "release_with_record sample_fwpm sample_boottime no_faults (([block (FILTER_GUIDS ! 4) ConnectV4 PersistentKey], None), empty_world)"
  have e: "?r = ((fst (fst ?r), snd (fst ?r)), snd ?r)" by simp
  have "case snd ?r of Ok _ \<Rightarrow> True | Err _ \<Rightarrow> False" by code_simp
  then obtain c where c: "snd ?r = Ok c" by (auto split: sum.splits)
  have "own_filter (block (FILTER_GUIDS ! 4) ConnectV4 PersistentKey)"
    by (auto simp: own_filter_def build_cover_spec_def)
  with release_removes_every_filter [OF sample_fwpm_laws e] c show ?thesis by (auto simp: Let_def)
qed

end
