(* ===== verification/Pf_Rules.thy ===== *)
theory Pf_Rules
  imports Addr_Text
begin

text \<open>
  The packet-filter rule sets of the macOS fail-closed covers
  (crates/tun-engine/src/routing/failclosed/macos.rs): their text, and what the tool's output is
  read for. The rule language is the one of \<^verbatim>\<open>pf.conf(5)\<close>: \<open>pf_text\<close> prints the rules the
  covers use and \<open>rules_pass\<close> is its evaluation order (the last matching rule decides, a matching
  \<^verbatim>\<open>quick\<close> rule at once, no match passes), which is the specification the texts are measured by.
\<close>

section \<open>The texts\<close>

definition PF_RESOLVER_PERMIT_PORT :: int where
  "PF_RESOLVER_PERMIT_PORT = 443"

definition pf_permit :: "bytes \<Rightarrow> bytes" where
  "pf_permit rule = rule @ '' no state'' @ [newline]"

definition LOOPBACK_SKIP :: bytes where
  "LOOPBACK_SKIP = ''set skip on lo0'' @ [newline]"

definition LOOPBACK_PASSES :: bytes where
  "LOOPBACK_PASSES = ''pass out quick on lo0 all no state'' @ [newline] @ ''pass in quick on lo0 all no state'' @ [newline]"

definition build_pf_ruleset :: "ip_addr \<Rightarrow> ip_addr option \<Rightarrow> bytes" where
  "build_pf_ruleset server_ip resolver_ip =
     (let resolver_pass = (case resolver_ip of
            Some ip \<Rightarrow> pf_permit (''pass out quick proto tcp from any to '' @ display_ip ip @ '' port '' @
                          show_radix 10 PF_RESOLVER_PERMIT_PORT)
          | None \<Rightarrow> [])
      in ''set block-policy drop'' @ [newline] @ LOOPBACK_SKIP @ LOOPBACK_PASSES @ ''block out all'' @ [newline] @
         pf_permit (''pass out quick from any to '' @ display_ip server_ip) @ resolver_pass)"

definition ensure_trailing_nl :: "bytes \<Rightarrow> bytes" where
  "ensure_trailing_nl s = (if s = [] \<or> last s = newline then s else s @ [newline])"

definition LOCKDOWN_PF_LABEL :: bytes where
  "LOCKDOWN_PF_LABEL = ''hole-lockdown''"

definition dquote :: char where
  "dquote = CHR 0x22"

definition build_lockdown_main_ruleset :: "bytes \<Rightarrow> ip_addr \<Rightarrow> bytes \<Rightarrow> bytes" where
  "build_lockdown_main_ruleset tun_name server_ip nat_snapshot =
     ''set block-policy drop'' @ [newline] @ LOOPBACK_SKIP @ ensure_trailing_nl nat_snapshot @ LOOPBACK_PASSES @
     pf_permit (''pass out quick proto '' @ ''tcp'' @ '' from any to '' @ display_ip server_ip) @
     pf_permit (''pass out quick on '' @ tun_name @ '' all'') @
     ''block drop out quick inet6 all'' @ [newline] @
     ''block drop out quick all label '' @ [dquote] @ LOCKDOWN_PF_LABEL @ [dquote] @ [newline]"

definition build_lockdown_restore_ruleset :: "bytes \<Rightarrow> bytes \<Rightarrow> bytes" where
  "build_lockdown_restore_ruleset nat_snapshot main_snapshot =
     ''set require-order no'' @ [newline] @ ''set block-policy drop'' @ [newline] @
     ensure_trailing_nl nat_snapshot @ main_snapshot"

section \<open>Reading the tool\<close>

definition labels_listing_carries_our_label :: "bytes \<Rightarrow> bool" where
  "labels_listing_carries_our_label labels_output =
     list_ex (\<lambda>l. first_word l = Some LOCKDOWN_PF_LABEL) (lines labels_output)"

text \<open>The first line with a token decides, whether or not its token is empty.\<close>

definition parse_enable_token :: "bytes \<Rightarrow> bytes option" where
  "parse_enable_token text_out =
     (case List.find (\<lambda>l. after_first ''Token :'' l \<noteq> None) (lines text_out) of
        None \<Rightarrow> None
      | Some l \<Rightarrow>
          (case after_first ''Token :'' l of
             None \<Rightarrow> None
           | Some t \<Rightarrow> if trim t = [] then None else Some (trim t)))"

definition parse_pf_enabled :: "bytes \<Rightarrow> bool" where
  "parse_pf_enabled text_out =
     list_ex (\<lambda>l. starts_with (trim_start l) ''Status:'' \<and> contains l ''Enabled'') (lines text_out)"

section \<open>The rule language\<close>

datatype direction = InRule | OutRule

datatype verdict = PassRule | BlockRule

record pf_rule =
  pr_action :: verdict
  pr_drop :: bool
  pr_dir :: direction
  pr_quick :: bool
  pr_on :: "bytes option"
  pr_inet6 :: bool
  pr_tcp :: bool
  pr_to :: "(ip_addr \<times> int option) option"
  pr_label :: "bytes option"
  pr_stateless :: bool

datatype pf_line = BlockPolicyDrop | SkipOn bytes | Translation bytes | FilterRule pf_rule

definition print_rule :: "pf_rule \<Rightarrow> bytes" where
  "print_rule r =
     (case pr_action r of PassRule \<Rightarrow> ''pass'' | BlockRule \<Rightarrow> ''block'') @
     (if pr_drop r then '' drop'' else []) @
     (case pr_dir r of InRule \<Rightarrow> '' in'' | OutRule \<Rightarrow> '' out'') @
     (if pr_quick r then '' quick'' else []) @
     (case pr_on r of None \<Rightarrow> [] | Some i \<Rightarrow> '' on '' @ i) @
     (if pr_inet6 r then '' inet6'' else []) @
     (if pr_tcp r then '' proto tcp'' else []) @
     (case pr_to r of
        None \<Rightarrow> '' all''
      | Some (ip, port) \<Rightarrow>
          '' from any to '' @ display_ip ip @ (case port of None \<Rightarrow> [] | Some n \<Rightarrow> '' port '' @ show_radix 10 n)) @
     (case pr_label r of None \<Rightarrow> [] | Some l \<Rightarrow> '' label '' @ [dquote] @ l @ [dquote]) @
     (if pr_stateless r then '' no state'' else []) @ [newline]"

fun print_line :: "pf_line \<Rightarrow> bytes" where
  "print_line BlockPolicyDrop = ''set block-policy drop'' @ [newline]"
| "print_line (SkipOn i) = ''set skip on '' @ i @ [newline]"
| "print_line (Translation t) = t"
| "print_line (FilterRule r) = print_rule r"

definition pf_text :: "pf_line list \<Rightarrow> bytes" where
  "pf_text ls = concat (map print_line ls)"

text \<open>
  A packet of a flow that has no state entry. A rule that keeps state (the default) matches a TCP
  packet only if it opens the connection.
\<close>

record packet =
  pk_dir :: direction
  pk_iface :: bytes
  pk_tcp :: bool
  pk_dst :: ip_addr
  pk_dport :: int
  pk_syn :: bool

definition is_v6 :: "ip_addr \<Rightarrow> bool" where
  "is_v6 ip = (case ip of V6 _ \<Rightarrow> True | V4 _ \<Rightarrow> False)"

definition rule_matches :: "pf_rule \<Rightarrow> packet \<Rightarrow> bool" where
  "rule_matches r p \<longleftrightarrow>
     pk_dir p = pr_dir r \<and>
     (case pr_on r of None \<Rightarrow> True | Some i \<Rightarrow> pk_iface p = i) \<and>
     (pr_inet6 r \<longrightarrow> is_v6 (pk_dst p)) \<and>
     (pr_tcp r \<longrightarrow> pk_tcp p) \<and>
     (case pr_to r of
        None \<Rightarrow> True
      | Some (ip, port) \<Rightarrow> pk_dst p = ip \<and> (case port of None \<Rightarrow> True | Some n \<Rightarrow> pk_dport p = n)) \<and>
     (pr_action r = PassRule \<longrightarrow> pr_stateless r \<or> \<not> pk_tcp p \<or> pk_syn p)"

fun decide_rules :: "verdict \<Rightarrow> pf_line list \<Rightarrow> packet \<Rightarrow> verdict" where
  "decide_rules v [] p = v"
| "decide_rules v (FilterRule r # ls) p =
     (if rule_matches r p then (if pr_quick r then pr_action r else decide_rules (pr_action r) ls p)
      else decide_rules v ls p)"
| "decide_rules v (BlockPolicyDrop # ls) p = decide_rules v ls p"
| "decide_rules v (SkipOn i # ls) p = decide_rules v ls p"
| "decide_rules v (Translation t # ls) p = decide_rules v ls p"

text \<open>
  \<open>rules_pass\<close> leaves the skip flags out: it is the verdict while a reload has them cleared.
  \<open>pf_passes\<close> is the verdict with the flags the rule set sets.
\<close>

definition rules_pass :: "pf_line list \<Rightarrow> packet \<Rightarrow> bool" where
  "rules_pass ls p \<longleftrightarrow> decide_rules PassRule ls p = PassRule"

definition pf_passes :: "pf_line list \<Rightarrow> packet \<Rightarrow> bool" where
  "pf_passes ls p \<longleftrightarrow> SkipOn (pk_iface p) \<in> set ls \<or> rules_pass ls p"

section \<open>The covers as rules\<close>

definition plain_rule :: pf_rule where
  "plain_rule = \<lparr>pr_action = PassRule, pr_drop = False, pr_dir = OutRule, pr_quick = True, pr_on = None,
     pr_inet6 = False, pr_tcp = False, pr_to = None, pr_label = None, pr_stateless = True\<rparr>"

definition loopback_lines :: "pf_line list" where
  "loopback_lines = [FilterRule (plain_rule\<lparr>pr_on := Some ''lo0''\<rparr>),
     FilterRule (plain_rule\<lparr>pr_dir := InRule, pr_on := Some ''lo0''\<rparr>)]"

definition transient_lines :: "ip_addr \<Rightarrow> ip_addr option \<Rightarrow> pf_line list" where
  "transient_lines server_ip resolver_ip =
     [BlockPolicyDrop, SkipOn ''lo0''] @ loopback_lines @
     [FilterRule (plain_rule\<lparr>pr_action := BlockRule, pr_quick := False, pr_stateless := False\<rparr>),
      FilterRule (plain_rule\<lparr>pr_to := Some (server_ip, None)\<rparr>)] @
     (case resolver_ip of
        None \<Rightarrow> []
      | Some ip \<Rightarrow> [FilterRule (plain_rule\<lparr>pr_tcp := True, pr_to := Some (ip, Some PF_RESOLVER_PERMIT_PORT)\<rparr>)])"

definition lockdown_lines :: "bytes \<Rightarrow> ip_addr \<Rightarrow> bytes \<Rightarrow> pf_line list" where
  "lockdown_lines tun_name server_ip nat_snapshot =
     [BlockPolicyDrop, SkipOn ''lo0'', Translation (ensure_trailing_nl nat_snapshot)] @ loopback_lines @
     [FilterRule (plain_rule\<lparr>pr_tcp := True, pr_to := Some (server_ip, None)\<rparr>),
      FilterRule (plain_rule\<lparr>pr_on := Some tun_name\<rparr>),
      FilterRule (plain_rule\<lparr>pr_action := BlockRule, pr_drop := True, pr_inet6 := True, pr_stateless := False\<rparr>),
      FilterRule (plain_rule\<lparr>pr_action := BlockRule, pr_drop := True, pr_label := Some LOCKDOWN_PF_LABEL, pr_stateless := False\<rparr>)]"

lemmas ruleset_texts = pf_text_def print_rule_def plain_rule_def loopback_lines_def pf_permit_def
  LOOPBACK_SKIP_def LOOPBACK_PASSES_def

lemma transient_text: "build_pf_ruleset server_ip resolver_ip = pf_text (transient_lines server_ip resolver_ip)"
  by (cases resolver_ip) (simp_all add: build_pf_ruleset_def transient_lines_def ruleset_texts)

lemma lockdown_text: "build_lockdown_main_ruleset tun server_ip nats = pf_text (lockdown_lines tun server_ip nats)"
  by (simp add: build_lockdown_main_ruleset_def lockdown_lines_def ruleset_texts)

lemma transient_verdict:
  "rules_pass (transient_lines server_ip resolver_ip) p \<longleftrightarrow>
     pk_dir p = InRule \<or> pk_iface p = ''lo0'' \<or> pk_dst p = server_ip \<or>
     (pk_tcp p \<and> resolver_ip = Some (pk_dst p) \<and> pk_dport p = PF_RESOLVER_PERMIT_PORT)"
  by (cases "pk_dir p"; cases resolver_ip)
     (auto simp: rules_pass_def transient_lines_def loopback_lines_def rule_matches_def plain_rule_def)

lemma lockdown_verdict:
  "rules_pass (lockdown_lines tun server_ip nats) p \<longleftrightarrow>
     pk_dir p = InRule \<or> pk_iface p = ''lo0'' \<or> pk_iface p = tun \<or> (pk_tcp p \<and> pk_dst p = server_ip)"
  by (cases "pk_dir p") (auto simp: rules_pass_def lockdown_lines_def loopback_lines_def rule_matches_def plain_rule_def)

lemma only_loopback_skipped:
  "SkipOn i \<in> set (transient_lines server_ip resolver_ip) \<longleftrightarrow> i = ''lo0''"
  "SkipOn i \<in> set (lockdown_lines tun server_ip nats) \<longleftrightarrow> i = ''lo0''"
  by (auto simp: transient_lines_def lockdown_lines_def loopback_lines_def split: option.splits)

text \<open>
  What the macOS covers let out. The text either cover loads is the printed form of rules under
  which an outgoing packet passes exactly if it is on loopback, or, behind the transient cover,
  goes to the server or by TCP to the permitted resolver's port 443, or, behind the standing
  cover, goes by TCP to the server or through the tunnel's interface. That holds mid-stream as
  well as for a new connection, and, since it is the rules and not only the skip flag that pass
  loopback, also while a reload has the skip flags cleared.
\<close>

theorem pf_covers_permit:
  "build_pf_ruleset server_ip resolver_ip = pf_text (transient_lines server_ip resolver_ip) \<and>
   build_lockdown_main_ruleset tun server_ip nats = pf_text (lockdown_lines tun server_ip nats) \<and>
   (rules_pass (transient_lines server_ip resolver_ip) p \<longleftrightarrow>
      pk_dir p = InRule \<or> pk_iface p = ''lo0'' \<or> pk_dst p = server_ip \<or>
      (pk_tcp p \<and> resolver_ip = Some (pk_dst p) \<and> pk_dport p = 443)) \<and>
   (rules_pass (lockdown_lines tun server_ip nats) p \<longleftrightarrow>
      pk_dir p = InRule \<or> pk_iface p = ''lo0'' \<or> pk_iface p = tun \<or> (pk_tcp p \<and> pk_dst p = server_ip)) \<and>
   pf_passes (transient_lines server_ip resolver_ip) p = rules_pass (transient_lines server_ip resolver_ip) p \<and>
   pf_passes (lockdown_lines tun server_ip nats) p = rules_pass (lockdown_lines tun server_ip nats) p"
  by (simp add: transient_text lockdown_text transient_verdict lockdown_verdict pf_passes_def only_loopback_skipped
      PF_RESOLVER_PERMIT_PORT_def) blast

end
