(* ===== verification/Pf_Cover.thy ===== *)
theory Pf_Cover
  imports Pf_Rules Clearance
begin

text \<open>
  The macOS fail-closed covers, crates/tun-engine/src/routing/failclosed/macos.rs with its two
  records failclosed\_state.rs and lockdown\_pf\_state.rs: engaging the transient and the standing
  cover, releasing either, the recovery of a crashed transient cover, the presence probe, and the
  release of both.

  \<^verbatim>\<open>pfctl\<close> is a parameter, \<open>me_pfctl\<close>: given its arguments and its standard input it changes the
  packet filter's state and answers with an exit status and its output as lossy text, or cannot be
  run at all. The records are \<open>Versioned_File\<close>s of role \<^verbatim>\<open>Cover\<close>; \<open>me_fs\<close> says which calls of
  which file operation fail, the operations being counted in \<open>mc_calls\<close>. \<open>mc_seen\<close> is no state of
  the program: it collects the states a crash could leave behind, one per completed call.
  Log lines are left out, and with them the phase a command runs in.
\<close>

section \<open>The records\<close>

record failclosed_state =
  ft_pf_token :: bytes
  ft_pf_was_enabled :: bool

record lockdown_pf_state =
  fl_pf_token :: bytes
  fl_main_snapshot :: bytes
  fl_nat_snapshot :: bytes
  fl_main_snapshot_captured :: bool

definition FAILCLOSED_FILE_NAME :: string where
  "FAILCLOSED_FILE_NAME = ''bridge-failclosed.json''"

definition LOCKDOWN_PF_FILE_NAME :: string where
  "LOCKDOWN_PF_FILE_NAME = ''bridge-lockdown-pf.json''"

definition failclosed_file :: "failclosed_state codec \<Rightarrow> failclosed_state schema" where
  "failclosed_file C = record_file Cover FAILCLOSED_FILE_NAME C"

definition lockdown_pf_file :: "lockdown_pf_state codec \<Rightarrow> lockdown_pf_state schema" where
  "lockdown_pf_file C = record_file Cover LOCKDOWN_PF_FILE_NAME C"

datatype 's state_record = NoRecord | UnusableRecord "bytes option" | RecordPresent 's

text \<open>\<open>json\<close> is \<^verbatim>\<open>serde_json\<close>: the string at the key \<^verbatim>\<open>pf_token\<close> of the value the bytes parse to.\<close>

definition unusable :: "(bytes \<Rightarrow> bytes option) \<Rightarrow> bytes \<Rightarrow> 's state_record" where
  "unusable json bs = UnusableRecord (case json bs of Some t \<Rightarrow> if t = [] then None else Some t | None \<Rightarrow> None)"

fun state_record_of :: "(bytes \<Rightarrow> bytes option) \<Rightarrow> 's loaded \<Rightarrow> 's state_record" where
  "state_record_of json (Current value _) = RecordPresent value"
| "state_record_of json Absent = NoRecord"
| "state_record_of json (Obsolete _ raw) = unusable json raw"
| "state_record_of json (Newer _ raw) = unusable json raw"
| "state_record_of json (Corrupt _ raw) = unusable json raw"
| "state_record_of json (Unreadable _ _) = UnusableRecord None"

fun record_value :: "'s state_record \<Rightarrow> 's option" where
  "record_value (RecordPresent s) = Some s"
| "record_value NoRecord = None"
| "record_value (UnusableRecord _) = None"

section \<open>The host\<close>

record tool_output =
  to_success :: bool
  to_stdout :: bytes
  to_stderr :: bytes

record 'p mac_env =
  me_pfctl :: "string list \<Rightarrow> bytes option \<Rightarrow> 'p \<Rightarrow> tool_output option \<times> 'p"
  me_fs :: "nat \<Rightarrow> fs_env"
  me_transient :: "failclosed_state codec"
  me_standing :: "lockdown_pf_state codec"
  me_json_token :: "bytes \<Rightarrow> bytes option"

record 'p mac =
  mc_pf :: 'p
  mc_dir :: world
  mc_calls :: nat
  mc_seen :: "('p \<times> world) list"

definition starting :: "'p \<Rightarrow> world \<Rightarrow> 'p mac" where
  "starting p w = \<lparr>mc_pf = p, mc_dir = w, mc_calls = 0, mc_seen = [(p, w)]\<rparr>"

definition seen_now :: "'p mac \<Rightarrow> 'p mac" where
  "seen_now s = s\<lparr>mc_seen := mc_seen s @ [(mc_pf s, mc_dir s)]\<rparr>"

text \<open>\<open>Unreached\<close> stands for a panic of the file layer, which these schemas do not have.\<close>

datatype pf_error =
    SpawnFailed
  | ToolFailed string bytes
  | NoEnableToken
  | StateWriteFailed string store_error
  | ReloadSkipped
  | PresenceUndetermined
  | BothRestoresFailed pf_error pf_error
  | LeftInPlace string
  | ClearFailed string store_error
  | Unreached

definition PFCONF :: string where
  "PFCONF = ''/etc/pf.conf''"

definition pfctl :: "'p mac_env \<Rightarrow> string list \<Rightarrow> bytes option \<Rightarrow> 'p mac \<Rightarrow> (pf_error, tool_output) result \<times> 'p mac" where
  "pfctl E args stdin s =
     (let (out, p) = me_pfctl E args stdin (mc_pf s)
      in (case out of None \<Rightarrow> Err SpawnFailed | Some r \<Rightarrow> Ok r, seen_now (s\<lparr>mc_pf := p\<rparr>)))"

definition pfctl_stdout :: "(pf_error, tool_output) result \<Rightarrow> string \<Rightarrow> (pf_error, bytes) result" where
  "pfctl_stdout out what =
     (case out of
        Err e \<Rightarrow> Err e
      | Ok r \<Rightarrow> if to_success r then Ok (to_stdout r) else Err (ToolFailed what (trim (to_stderr r))))"

definition pfctl_status :: "(pf_error, tool_output) result \<Rightarrow> string \<Rightarrow> (pf_error, unit) result" where
  "pfctl_status out what = map_ok (\<lambda>_. ()) (pfctl_stdout out what)"

definition update_record :: "'p mac_env \<Rightarrow> 's schema \<Rightarrow> 's change \<Rightarrow> 'p mac \<Rightarrow> unit update_result \<times> 'p mac" where
  "update_record E S change s =
     (let (w, r) = vf_update S (me_fs E (mc_calls s)) (\<lambda>_. (change, ())) (mc_dir s)
      in (r, seen_now (s\<lparr>mc_dir := w, mc_calls := Suc (mc_calls s)\<rparr>)))"

definition load_record :: "'p mac_env \<Rightarrow> 's schema \<Rightarrow> 'p mac \<Rightarrow> 's state_record \<times> 'p mac" where
  "load_record E S s =
     (case observe S (me_fs E (mc_calls s)) (mc_dir s) of
        Some ob \<Rightarrow> state_record_of (me_json_token E) (obs_loaded ob)
      | None \<Rightarrow> UnusableRecord None,
      s\<lparr>mc_calls := Suc (mc_calls s)\<rparr>)"

definition load_presence_transient :: "'p mac_env \<Rightarrow> 'p mac \<Rightarrow> failclosed_state state_record \<times> 'p mac" where
  "load_presence_transient E s = load_record E (failclosed_file (me_transient E)) s"

definition load_presence_standing :: "'p mac_env \<Rightarrow> 'p mac \<Rightarrow> lockdown_pf_state state_record \<times> 'p mac" where
  "load_presence_standing E s = load_record E (lockdown_pf_file (me_standing E)) s"

definition load_standing :: "'p mac_env \<Rightarrow> 'p mac \<Rightarrow> lockdown_pf_state option \<times> 'p mac" where
  "load_standing E s = (let (file, s1) = load_presence_standing E s in (record_value file, s1))"

fun saved :: "string \<Rightarrow> unit update_result \<Rightarrow> (pf_error, unit) result" where
  "saved what (UOk _ _) = Ok ()"
| "saved what (UErr e) = Err (StateWriteFailed what e)"
| "saved what UPanic = Err Unreached"

definition save_transient :: "'p mac_env \<Rightarrow> failclosed_state \<Rightarrow> 'p mac \<Rightarrow> (pf_error, unit) result \<times> 'p mac" where
  "save_transient E st s =
     (let (r, s1) = update_record E (failclosed_file (me_transient E)) (Store st) s in (saved ''failclosed-state'' r, s1))"

definition save_standing :: "'p mac_env \<Rightarrow> lockdown_pf_state \<Rightarrow> 'p mac \<Rightarrow> (pf_error, unit) result \<times> 'p mac" where
  "save_standing E st s =
     (let (r, s1) = update_record E (lockdown_pf_file (me_standing E)) (Store st) s in (saved ''lockdown-pf-state'' r, s1))"

text \<open>\<^verbatim>\<open>cleared\<close>: every outcome but a record kept because its read failed is a clear.\<close>

fun cleared :: "string \<Rightarrow> unit update_result \<Rightarrow> (pf_error, unit) result" where
  "cleared what (UOk _ outcome) = (if outcome = Kept then Err (LeftInPlace what) else Ok ())"
| "cleared what (UErr e) = Err (ClearFailed what e)"
| "cleared what UPanic = Err Unreached"

definition clear_transient :: "'p mac_env \<Rightarrow> 'p mac \<Rightarrow> (pf_error, unit) result \<times> 'p mac" where
  "clear_transient E s =
     (let (r, s1) = update_record E (failclosed_file (me_transient E)) Remove s in (cleared ''failclosed-state'' r, s1))"

definition clear_standing :: "'p mac_env \<Rightarrow> 'p mac \<Rightarrow> (pf_error, unit) result \<times> 'p mac" where
  "clear_standing E s =
     (let (r, s1) = update_record E (lockdown_pf_file (me_standing E)) Remove s in (cleared ''lockdown-pf-state'' r, s1))"

section \<open>The calls of the tool\<close>

definition load_ruleset :: "'p mac_env \<Rightarrow> string \<Rightarrow> bytes \<Rightarrow> 'p mac \<Rightarrow> (pf_error, unit) result \<times> 'p mac" where
  "load_ruleset E what txt s = (let (out, s1) = pfctl E [''-f'', ''-''] (Some txt) s in (pfctl_status out what, s1))"

definition reload_default :: "'p mac_env \<Rightarrow> 'p mac \<Rightarrow> (pf_error, unit) result \<times> 'p mac" where
  "reload_default E s =
     (let (out, s1) = pfctl E [''-f'', PFCONF] None s in (pfctl_status out ''pf default-ruleset reload'', s1))"

definition flush_states :: "'p mac_env \<Rightarrow> 'p mac \<Rightarrow> (pf_error, unit) result \<times> 'p mac" where
  "flush_states E s = (let (out, s1) = pfctl E [''-F'', ''states''] None s in (pfctl_status out ''pfctl -F states'', s1))"

definition drop_token :: "'p mac_env \<Rightarrow> bytes \<Rightarrow> 'p mac \<Rightarrow> (pf_error, unit) result \<times> 'p mac" where
  "drop_token E token s = (let (out, s1) = pfctl E [''-X'', token] None s in (pfctl_status out ''pfctl -X'', s1))"

definition pf_enabled :: "'p mac_env \<Rightarrow> 'p mac \<Rightarrow> (pf_error, bool) result \<times> 'p mac" where
  "pf_enabled E s =
     (let (out, s1) = pfctl E [''-s'', ''info''] None s
      in (map_ok parse_pf_enabled (pfctl_stdout out ''pfctl -s info''), s1))"

text \<open>The exit status of \<^verbatim>\<open>pfctl -E\<close> is not looked at: a token is what counts.\<close>

definition enable_pf_capture_token :: "'p mac_env \<Rightarrow> 'p mac \<Rightarrow> (pf_error, bytes) result \<times> 'p mac" where
  "enable_pf_capture_token E s =
     (let (out, s1) = pfctl E [''-E''] None s
      in (case out of
            Err e \<Rightarrow> Err e
          | Ok r \<Rightarrow>
              (case parse_enable_token (to_stderr r) of
                 Some t \<Rightarrow> Ok t
               | None \<Rightarrow> (case parse_enable_token (to_stdout r) of Some t \<Rightarrow> Ok t | None \<Rightarrow> Err NoEnableToken)), s1))"

definition drop_refcount_or_warn :: "'p mac_env \<Rightarrow> bytes \<Rightarrow> 'p mac \<Rightarrow> 'p mac" where
  "drop_refcount_or_warn E token s = snd (drop_token E token s)"

definition drop_salvaged_token_or_warn :: "'p mac_env \<Rightarrow> bytes option \<Rightarrow> 'p mac \<Rightarrow> 'p mac" where
  "drop_salvaged_token_or_warn E token s =
     (case token of Some t \<Rightarrow> drop_refcount_or_warn E t s | None \<Rightarrow> s)"

section \<open>The transient cover\<close>

datatype pf_cover_kind = TransientPf | LockdownPf

fun purges_state :: "pf_cover_kind \<Rightarrow> bool" where
  "purges_state TransientPf = True"
| "purges_state LockdownPf = False"

definition load_cover_ruleset :: "'p mac_env \<Rightarrow> pf_cover_kind \<Rightarrow> bytes \<Rightarrow> 'p mac \<Rightarrow> (pf_error, unit) result \<times> 'p mac" where
  "load_cover_ruleset E kind ruleset s =
     (case load_ruleset E ''pfctl load'' ruleset s of
        (Err e, s1) \<Rightarrow> (Err e, s1)
      | (Ok _, s1) \<Rightarrow> (Ok (), if purges_state kind then snd (flush_states E s1) else s1))"

definition restore_confirmed :: "bool \<Rightarrow> (pf_error, tool_output) result \<Rightarrow> bool" where
  "restore_confirmed adopting out = (adopting \<or> (case out of Ok r \<Rightarrow> to_success r | Err _ \<Rightarrow> False))"

definition disengage :: "'p mac_env \<Rightarrow> bytes option \<Rightarrow> bool \<Rightarrow> 'p mac \<Rightarrow> 'p mac" where
  "disengage E token adopting s =
     (let (reload, s1) = (if adopting then (Err ReloadSkipped, s) else pfctl E [''-f'', PFCONF] None s);
          s2 = drop_salvaged_token_or_warn E token s1
      in if restore_confirmed adopting reload then snd (clear_transient E s2) else s2)"

definition engage_with :: "'p mac_env \<Rightarrow> ip_addr \<Rightarrow> ip_addr option \<Rightarrow> 'p mac \<Rightarrow> (pf_error, bytes) result \<times> 'p mac" where
  "engage_with E server_ip resolver_ip s =
     (let (enabled, s1) = pf_enabled E s;
          was_enabled = (case enabled of Ok b \<Rightarrow> b | Err _ \<Rightarrow> False)
      in case enable_pf_capture_token E s1 of
           (Err e, s2) \<Rightarrow> (Err e, s2)
         | (Ok token, s2) \<Rightarrow>
             (case save_transient E \<lparr>ft_pf_token = token, ft_pf_was_enabled = was_enabled\<rparr> s2 of
                (Err e, s3) \<Rightarrow> (Err e, drop_refcount_or_warn E token s3)
              | (Ok _, s3) \<Rightarrow>
                  (case load_cover_ruleset E TransientPf (build_pf_ruleset server_ip resolver_ip) s3 of
                     (Err e, s4) \<Rightarrow> (Err e, disengage E (Some token) False s4)
                   | (Ok _, s4) \<Rightarrow> (Ok token, s4))))"

definition recover_cover_with :: "'p mac_env \<Rightarrow> failclosed_state state_record \<Rightarrow> bool \<Rightarrow> 'p mac \<Rightarrow> 'p mac" where
  "recover_cover_with E file adopting s =
     (case file of
        NoRecord \<Rightarrow> s
      | RecordPresent st \<Rightarrow> disengage E (Some (ft_pf_token st)) adopting s
      | UnusableRecord token \<Rightarrow> disengage E token adopting s)"

definition pf_recover_cover :: "'p mac_env \<Rightarrow> bool \<Rightarrow> 'p mac \<Rightarrow> 'p mac" where
  "pf_recover_cover E adopting s =
     (let (file, s1) = load_presence_transient E s in recover_cover_with E file adopting s1)"

section \<open>The standing cover\<close>

definition pf_label_answer :: "(pf_error, tool_output) result \<Rightarrow> bool option" where
  "pf_label_answer out =
     (case out of
        Err _ \<Rightarrow> None
      | Ok r \<Rightarrow> if to_success r then Some (labels_listing_carries_our_label (to_stdout r)) else None)"

fun fold_presence :: "bool option \<Rightarrow> lockdown_pf_state state_record \<Rightarrow> cover_presence" where
  "fold_presence (Some True) file = Live"
| "fold_presence (Some False) NoRecord = AbsentCover"
| "fold_presence None NoRecord = Unreachable"
| "fold_presence _ _ = Recorded"

definition lockdown_presence_and_state ::
  "'p mac_env \<Rightarrow> 'p mac \<Rightarrow> cover_presence \<times> lockdown_pf_state state_record \<times> 'p mac" where
  "lockdown_presence_and_state E s =
     (let (out, s1) = pfctl E [''-s'', ''labels''] None s; (file, s2) = load_presence_standing E s1
      in (fold_presence (pf_label_answer out) file, file, s2))"

datatype pf_engage_action = FreshEnable | ReuseToken | Reenable

fun engage_pf_action :: "bool \<Rightarrow> bool \<Rightarrow> pf_engage_action" where
  "engage_pf_action _ False = FreshEnable"
| "engage_pf_action True True = ReuseToken"
| "engage_pf_action False True = Reenable"

definition persist_baseline ::
  "'p mac_env \<Rightarrow> bytes \<Rightarrow> cover_presence \<Rightarrow> bytes \<Rightarrow> bytes \<Rightarrow> 'p mac \<Rightarrow> (pf_error, bytes) result \<times> 'p mac" where
  "persist_baseline E token presence main_snapshot nat_snapshot s =
     (let captured = (presence \<noteq> Live)
      in case save_standing E \<lparr>fl_pf_token = token, fl_main_snapshot = (if captured then main_snapshot else []),
             fl_nat_snapshot = nat_snapshot, fl_main_snapshot_captured = captured\<rparr> s of
           (Err e, s1) \<Rightarrow> (Err e, s1)
         | (Ok _, s1) \<Rightarrow> (Ok nat_snapshot, s1))"

definition capture_and_persist :: "'p mac_env \<Rightarrow> bytes \<Rightarrow> 'p mac \<Rightarrow> (pf_error, bytes) result \<times> 'p mac" where
  "capture_and_persist E token s =
     (let (presence, _, s1) = lockdown_presence_and_state E s; (sr, s2) = pfctl E [''-sr''] None s1
      in case pfctl_stdout sr ''pfctl -sr'' of
           Err e \<Rightarrow> (Err e, s2)
         | Ok main_snapshot \<Rightarrow>
             (let (sn, s3) = pfctl E [''-sn''] None s2
              in case pfctl_stdout sn ''pfctl -sn'' of
                   Err e \<Rightarrow> (Err e, s3)
                 | Ok nat_snapshot \<Rightarrow> persist_baseline E token presence main_snapshot nat_snapshot s3))"

definition disengage_lockdown_with ::
  "'p mac_env \<Rightarrow> cover_presence \<Rightarrow> lockdown_pf_state state_record \<Rightarrow> 'p mac \<Rightarrow> (pf_error, unit) result \<times> 'p mac" where
  "disengage_lockdown_with E presence st s =
     (if presence = AbsentCover then (Ok (), s)
      else if presence \<in> {Unreachable, Indeterminate} then (Err PresenceUndetermined, s)
      else
        (let (restored, s1) =
           (case st of
              RecordPresent r \<Rightarrow>
                if fl_main_snapshot_captured r
                then load_ruleset E ''pf ruleset load'' (build_lockdown_restore_ruleset (fl_nat_snapshot r) (fl_main_snapshot r)) s
                else reload_default E s
            | _ \<Rightarrow> reload_default E s)
         in case restored of
              Err e \<Rightarrow> (Err e, s1)
            | Ok _ \<Rightarrow>
                (let (dropped, s2) =
                   (case st of
                      NoRecord \<Rightarrow> (Ok (), s1)
                    | RecordPresent r \<Rightarrow> drop_token E (fl_pf_token r) s1
                    | UnusableRecord (Some t) \<Rightarrow> drop_token E t s1
                    | UnusableRecord None \<Rightarrow> (Ok (), s1))
                 in case dropped of
                      Err e \<Rightarrow> (Err e, s2)
                    | Ok _ \<Rightarrow> (Ok (), snd (clear_standing E s2)))))"

definition pf_disengage_lockdown :: "'p mac_env \<Rightarrow> 'p mac \<Rightarrow> (pf_error, unit) result \<times> 'p mac" where
  "pf_disengage_lockdown E s =
     (let (presence, file, s1) = lockdown_presence_and_state E s in disengage_lockdown_with E presence file s1)"

definition lockdown_disengage :: "'p mac_env \<Rightarrow> 'p mac \<Rightarrow> 'p mac" where
  "lockdown_disengage E s = snd (pf_disengage_lockdown E s)"

text \<open>
  The first half of \<^verbatim>\<open>engage_lockdown\<close>: a reference to the enabled packet filter and the
  translation rules to carry, with the host's policy on record.
\<close>

definition acquire_standing :: "'p mac_env \<Rightarrow> bool \<Rightarrow> lockdown_pf_state option \<Rightarrow> 'p mac \<Rightarrow> (pf_error, bytes \<times> bytes) result \<times> 'p mac" where
  "acquire_standing E enabled persisted s =
     (case (engage_pf_action enabled (persisted \<noteq> None), persisted) of
        (ReuseToken, Some st) \<Rightarrow> (Ok (fl_pf_token st, fl_nat_snapshot st), s)
      | (Reenable, Some st) \<Rightarrow>
          (case enable_pf_capture_token E s of
             (Err e, s1) \<Rightarrow> (Err e, s1)
           | (Ok token, s1) \<Rightarrow>
               (case save_standing E (st\<lparr>fl_pf_token := token\<rparr>) s1 of
                  (Err e, s2) \<Rightarrow> (Err e, drop_refcount_or_warn E token s2)
                | (Ok _, s2) \<Rightarrow> (Ok (token, fl_nat_snapshot st), s2)))
      | _ \<Rightarrow>
          (case enable_pf_capture_token E s of
             (Err e, s1) \<Rightarrow> (Err e, s1)
           | (Ok token, s1) \<Rightarrow>
               (case capture_and_persist E token s1 of
                  (Ok nat_snapshot, s2) \<Rightarrow> (Ok (token, nat_snapshot), s2)
                | (Err e, s2) \<Rightarrow> (Err e, drop_refcount_or_warn E token s2))))"

definition pf_engage_lockdown :: "'p mac_env \<Rightarrow> ip_addr \<Rightarrow> bytes \<Rightarrow> 'p mac \<Rightarrow> (pf_error, bytes) result \<times> 'p mac" where
  "pf_engage_lockdown E server_ip tun_name s =
     (case pf_enabled E s of
        (Err e, s1) \<Rightarrow> (Err e, s1)
      | (Ok enabled, s1) \<Rightarrow>
          (let (persisted, s2) = load_standing E s1
           in case acquire_standing E enabled persisted s2 of
                (Err e, s3) \<Rightarrow> (Err e, s3)
              | (Ok (token, nat_snapshot), s3) \<Rightarrow>
                  (case load_cover_ruleset E LockdownPf (build_lockdown_main_ruleset tun_name server_ip nat_snapshot) s3 of
                     (Err e, s4) \<Rightarrow> (Err e, lockdown_disengage E s4)
                   | (Ok _, s4) \<Rightarrow> (Ok token, s4))))"

section \<open>Guards, recovery and release\<close>

text \<open>\<^verbatim>\<open>Drop for Cover\<close>.\<close>

fun pf_drop_cover :: "'p mac_env \<Rightarrow> pf_cover_kind \<Rightarrow> bytes \<Rightarrow> 'p mac \<Rightarrow> 'p mac" where
  "pf_drop_cover E TransientPf token s = disengage E (Some token) False s"
| "pf_drop_cover E LockdownPf token s = lockdown_disengage E s"

text \<open>
  The cover half of a boot, \<^verbatim>\<open>recover_routes_with\<close> with this backend: read the intent, probe, decide,
  repair the intent file if that was decided, disengage the standing cover if that was decided
  (\<^verbatim>\<open>recover_lockdown\<close>, which does nothing else here), then sweep the transient one.
\<close>

definition repair_intent :: "'p mac_env \<Rightarrow> lockdown_state codec \<Rightarrow> bool \<Rightarrow> 'p mac \<Rightarrow> 'p mac" where
  "repair_intent E C record_on s =
     (if record_on then snd (update_record E (lockdown_file C) (Store \<lparr>ls_enabled = True\<rparr>) s) else s)"

definition pf_recover :: "'p mac_env \<Rightarrow> lockdown_state codec \<Rightarrow> 'p mac \<Rightarrow> recovery \<times> 'p mac" where
  "pf_recover E C s =
     (let intent = (case load_intent C (me_fs E (mc_calls s)) (mc_dir s) of Some i \<Rightarrow> i | None \<Rightarrow> IntentUnreadable);
          (presence, _, s1) = lockdown_presence_and_state E (s\<lparr>mc_calls := Suc (mc_calls s)\<rparr>);
          r = decide_cover_recovery intent presence;
          s2 = repair_intent E C (record_intent_on r) s1;
          s3 = (if cover_action r = Sweep then lockdown_disengage E s2 else s2)
      in (r, pf_recover_cover E (cover_action r = Adopt) s3))"

definition release_transient :: "'p mac_env \<Rightarrow> failclosed_state state_record \<Rightarrow> 'p mac \<Rightarrow> pf_error option \<times> 'p mac" where
  "release_transient E transient s =
     (if transient = NoRecord then (None, s)
      else
        (let (reload, s1) = reload_default E s;
             s2 = (case transient of
                 RecordPresent st \<Rightarrow> drop_refcount_or_warn E (ft_pf_token st) s1
               | UnusableRecord token \<Rightarrow> drop_salvaged_token_or_warn E token s1
               | NoRecord \<Rightarrow> s1)
         in case reload of Ok _ \<Rightarrow> (None, snd (clear_transient E s2)) | Err e \<Rightarrow> (Some e, s2)))"

definition restore_or_default :: "'p mac_env \<Rightarrow> lockdown_pf_state \<Rightarrow> 'p mac \<Rightarrow> (pf_error, unit) result \<times> 'p mac" where
  "restore_or_default E st s =
     (case load_ruleset E ''pf ruleset load'' (build_lockdown_restore_ruleset (fl_nat_snapshot st) (fl_main_snapshot st)) s of
        (Ok _, s1) \<Rightarrow> (Ok (), s1)
      | (Err snapshot_err, s1) \<Rightarrow>
          (case reload_default E s1 of
             (Ok _, s2) \<Rightarrow> (Ok (), s2)
           | (Err fallback_err, s2) \<Rightarrow> (Err (BothRestoresFailed snapshot_err fallback_err), s2)))"

definition release_standing :: "'p mac_env \<Rightarrow> lockdown_pf_state state_record \<Rightarrow> 'p mac \<Rightarrow> pf_error option \<times> 'p mac" where
  "release_standing E standing s =
     (if standing = NoRecord then (None, s)
      else
        (let (outcome, s1) =
           (case standing of
              RecordPresent st \<Rightarrow>
                if fl_main_snapshot_captured st then restore_or_default E st s else reload_default E s
            | _ \<Rightarrow> reload_default E s);
             s2 = (case standing of
                 RecordPresent st \<Rightarrow> drop_refcount_or_warn E (fl_pf_token st) s1
               | UnusableRecord token \<Rightarrow> drop_salvaged_token_or_warn E token s1
               | NoRecord \<Rightarrow> s1)
         in case outcome of Ok _ \<Rightarrow> (None, snd (clear_standing E s2)) | Err e \<Rightarrow> (Some e, s2)))"

definition release_all_with ::
  "'p mac_env \<Rightarrow> failclosed_state state_record \<Rightarrow> lockdown_pf_state state_record \<Rightarrow> 'p mac \<Rightarrow> pf_error option \<times> 'p mac" where
  "release_all_with E transient standing s =
     (let (first_err, s1) = release_transient E transient s; (second_err, s2) = release_standing E standing s1
      in (if first_err = None then second_err else first_err, s2))"

definition pf_release_all :: "'p mac_env \<Rightarrow> 'p mac \<Rightarrow> pf_error sweep_outcome \<times> 'p mac" where
  "pf_release_all E s =
     (let (transient, s1) = load_presence_transient E s; (standing, s2) = load_presence_standing E s1
      in case release_all_with E transient standing s2 of
           (None, s3) \<Rightarrow> (completed proven, s3)
         | (Some e, s3) \<Rightarrow> (sweep_failed proven e, s3))"

end
