(* ===== verification/Pf_Safety.thy ===== *)
theory Pf_Safety
  imports Pf_Cover
begin

text \<open>
  What the macOS covers guarantee, over every history of engages, drops, recoveries and releases
  with crashes at any completed call: a host behind a cover has the record that undoes it, and a
  release that answers success leaves no cover.
\<close>

section \<open>What is relied on of the packet filter\<close>

text \<open>
  \<open>pv_policy\<close> is the rules (filter and translation) a packet-filter state enforces, \<open>pv_meaning\<close> the
  rules a text denotes and \<open>pv_conf\<close> those of \<^verbatim>\<open>/etc/pf.conf\<close>.
\<close>

record ('p, 'r) pf_view =
  pv_policy :: "'p \<Rightarrow> 'r"
  pv_meaning :: "bytes \<Rightarrow> 'r"
  pv_conf :: 'r

definition transient_policy :: "('p, 'r) pf_view \<Rightarrow> 'r \<Rightarrow> bool" where
  "transient_policy V r \<longleftrightarrow> (\<exists>ip res. r = pv_meaning V (build_pf_ruleset ip res))"

definition standing_policy :: "('p, 'r) pf_view \<Rightarrow> 'r \<Rightarrow> bool" where
  "standing_policy V r \<longleftrightarrow> (\<exists>tun ip nats. r = pv_meaning V (build_lockdown_main_ruleset tun ip nats))"

definition covered :: "('p, 'r) pf_view \<Rightarrow> 'r \<Rightarrow> bool" where
  "covered V r \<longleftrightarrow> transient_policy V r \<or> standing_policy V r"

definition answered :: "tool_output option \<Rightarrow> bool" where
  "answered out = (case out of Some r \<Rightarrow> to_success r | None \<Rightarrow> False)"

text \<open>
  A load that answers success replaces the rules and one that does not changes none; no other call
  changes them; a label listing tells whether the standing cover's rules are loaded; the printed
  filter and translation rules load back as the rules they were printed from; the two covers
  differ (in the label), and the host's own configuration is neither.
\<close>

definition pf_laws :: "'p mac_env \<Rightarrow> ('p, 'r) pf_view \<Rightarrow> bool" where
  "pf_laws E V \<longleftrightarrow>
     (\<forall>txt p. pv_policy V (snd (me_pfctl E [''-f'', ''-''] (Some txt) p)) =
        (if answered (fst (me_pfctl E [''-f'', ''-''] (Some txt) p)) then pv_meaning V txt else pv_policy V p)) \<and>
     (\<forall>p. pv_policy V (snd (me_pfctl E [''-f'', PFCONF] None p)) =
        (if answered (fst (me_pfctl E [''-f'', PFCONF] None p)) then pv_conf V else pv_policy V p)) \<and>
     (\<forall>args p. hd args \<noteq> ''-f'' \<longrightarrow> pv_policy V (snd (me_pfctl E args None p)) = pv_policy V p) \<and>
     (\<forall>p r q. me_pfctl E [''-s'', ''labels''] None p = (Some r, q) \<and> to_success r \<longrightarrow>
        (labels_listing_carries_our_label (to_stdout r) \<longleftrightarrow> standing_policy V (pv_policy V p))) \<and>
     (\<forall>p q r t p' q'. pv_policy V p = pv_policy V q \<and> me_pfctl E [''-sr''] None p = (Some r, p') \<and> to_success r \<and>
        me_pfctl E [''-sn''] None q = (Some t, q') \<and> to_success t \<longrightarrow>
        pv_meaning V (build_lockdown_restore_ruleset (to_stdout t) (to_stdout r)) = pv_policy V p) \<and>
     (\<forall>r. \<not> (transient_policy V r \<and> standing_policy V r)) \<and> \<not> covered V (pv_conf V)"

section \<open>The invariant\<close>

definition transient_recorded :: "'p mac_env \<Rightarrow> world \<Rightarrow> bool" where
  "transient_recorded E w \<longleftrightarrow> clean_read (failclosed_file (me_transient E)) w \<noteq> Some Absent"

definition standing_recorded :: "'p mac_env \<Rightarrow> world \<Rightarrow> bool" where
  "standing_recorded E w \<longleftrightarrow> clean_read (lockdown_pf_file (me_standing E)) w \<noteq> Some Absent"

definition restores_host :: "('p, 'r) pf_view \<Rightarrow> lockdown_pf_state \<Rightarrow> bool" where
  "restores_host V st \<longleftrightarrow>
     (fl_main_snapshot_captured st \<longrightarrow>
       \<not> covered V (pv_meaning V (build_lockdown_restore_ruleset (fl_nat_snapshot st) (fl_main_snapshot st))))"

text \<open>
  A cover in force is on record, the standing one in its own file; and what a readable record of
  the standing cover would restore is the host's policy and no cover.
\<close>

definition on_record :: "'p mac_env \<Rightarrow> ('p, 'r) pf_view \<Rightarrow> 'p \<times> world \<Rightarrow> bool" where
  "on_record E V = (\<lambda>(p, w).
     (transient_policy V (pv_policy V p) \<longrightarrow> transient_recorded E w \<or> standing_recorded E w) \<and>
     (standing_policy V (pv_policy V p) \<longrightarrow> standing_recorded E w) \<and>
     (\<forall>st n. clean_read (lockdown_pf_file (me_standing E)) w = Some (Current st n) \<longrightarrow> restores_host V st))"

definition pf_inv :: "'p mac_env \<Rightarrow> ('p, 'r) pf_view \<Rightarrow> 'p mac \<Rightarrow> bool" where
  "pf_inv E V s \<longleftrightarrow> on_record E V (mc_pf s, mc_dir s) \<and> list_all (on_record E V) (mc_seen s)"

abbreviation policy :: "('p, 'r) pf_view \<Rightarrow> 'p mac \<Rightarrow> 'r" where
  "policy V s \<equiv> pv_policy V (mc_pf s)"

lemma seen_now_sel [simp]: "mc_pf (seen_now s) = mc_pf s" "mc_dir (seen_now s) = mc_dir s" "mc_calls (seen_now s) = mc_calls s"
  by (simp_all add: seen_now_def)

lemma pf_inv_seen_now [simp]:
  "pf_inv E V (seen_now s) \<longleftrightarrow> on_record E V (mc_pf s, mc_dir s) \<and> list_all (on_record E V) (mc_seen s)"
  by (auto simp: pf_inv_def seen_now_def)

lemma pf_inv_calls [simp]: "pf_inv E V (s\<lparr>mc_calls := n\<rparr>) = pf_inv E V s"
  by (simp add: pf_inv_def)

lemma on_record_uncovered:
  "\<not> covered V (pv_policy V q) \<Longrightarrow> on_record E V (p, w) \<Longrightarrow> on_record E V (q, w)"
  by (auto simp: on_record_def covered_def)

lemma on_record_same: "pv_policy V q = pv_policy V p \<Longrightarrow> on_record E V (p, w) \<Longrightarrow> on_record E V (q, w)"
  by (auto simp: on_record_def)

section \<open>The calls of the tool\<close>

lemma pfctl_result:
  assumes "pfctl E args stdin s = (r, s')"
  shows "mc_dir s' = mc_dir s" "mc_calls s' = mc_calls s" "mc_pf s' = snd (me_pfctl E args stdin (mc_pf s))"
    "answered (fst (me_pfctl E args stdin (mc_pf s))) \<longleftrightarrow> (\<exists>t. r = Ok t \<and> to_success t)"
    "fst (me_pfctl E args stdin (mc_pf s)) = ok r"
    "s' = seen_now (s\<lparr>mc_pf := snd (me_pfctl E args stdin (mc_pf s))\<rparr>)"
  using assms by (auto simp: pfctl_def answered_def Let_def split: prod.splits option.splits)

text \<open>Every call but a load leaves the rules, the records and the invariant as they are.\<close>

lemma pfctl_other:
  assumes "pf_laws E V" "pfctl E args None s = (r, s')" "hd args \<noteq> ''-f''" "pf_inv E V s"
  shows "pf_inv E V s' \<and> policy V s' = policy V s \<and> mc_dir s' = mc_dir s \<and> mc_calls s' = mc_calls s"
proof -
  have "policy V s' = policy V s"
    using assms(1,3) pfctl_result(3) [OF assms(2)] by (simp add: pf_laws_def)
  moreover have "pf_inv E V s'"
    using assms(4) calculation pfctl_result(3) [OF assms(2)] on_record_same [of V "mc_pf s'" "mc_pf s" E "mc_dir s"]
    by (simp add: pfctl_result(6) [OF assms(2)] pf_inv_def seen_now_def)
  ultimately show ?thesis using pfctl_result(1,2) [OF assms(2)] by simp
qed

lemma pfctl_status_Ok: "pfctl_status out what = Ok u \<longleftrightarrow> (\<exists>t. out = Ok t \<and> to_success t)"
  by (auto simp: pfctl_status_def pfctl_stdout_def split: sum.splits if_splits)

lemma load_ruleset_policy:
  assumes "pf_laws E V" "load_ruleset E what txt s = (r, s')"
  shows "policy V s' = (if r = Ok () then pv_meaning V txt else policy V s)"
    "mc_dir s' = mc_dir s" "mc_calls s' = mc_calls s" "mc_seen s' = mc_seen s @ [(mc_pf s', mc_dir s')]"
proof -
  obtain out where out: "pfctl E [''-f'', ''-''] (Some txt) s = (out, s')" "r = pfctl_status out what"
    using assms(2) by (auto simp: load_ruleset_def split: prod.splits)
  from assms(1) have "pv_policy V (snd (me_pfctl E [''-f'', ''-''] (Some txt) p)) =
      (if answered (fst (me_pfctl E [''-f'', ''-''] (Some txt) p)) then pv_meaning V txt else pv_policy V p)" for p
    by (simp only: pf_laws_def)
  with out(2) pfctl_result(3,4) [OF out(1)] show "policy V s' = (if r = Ok () then pv_meaning V txt else policy V s)"
    by (simp add: pfctl_status_Ok)
  show "mc_dir s' = mc_dir s" "mc_calls s' = mc_calls s" "mc_seen s' = mc_seen s @ [(mc_pf s', mc_dir s')]"
    using pfctl_result(1,2,6) [OF out(1)] by (simp_all add: seen_now_def)
qed

lemma load_ruleset_inv:
  assumes "pf_laws E V" "load_ruleset E what txt s = (r, s')" "pf_inv E V s"
    "r = Ok () \<Longrightarrow> on_record E V (mc_pf s', mc_dir s)"
  shows "pf_inv E V s'"
proof -
  have "on_record E V (mc_pf s', mc_dir s)"
    using assms(3,4) load_ruleset_policy(1) [OF assms(1,2)] on_record_same [of V "mc_pf s'" "mc_pf s" E "mc_dir s"]
    by (cases "r = Ok ()") (auto simp: pf_inv_def)
  with assms(3) show ?thesis by (simp add: pf_inv_def load_ruleset_policy(2,4) [OF assms(1,2)])
qed

lemma pfconf_policy:
  assumes "pf_laws E V" "pfctl E [''-f'', PFCONF] None s = (out, s')" "pf_inv E V s"
  shows "pf_inv E V s'" "mc_dir s' = mc_dir s" "mc_calls s' = mc_calls s"
    "policy V s' = (if \<exists>t. out = Ok t \<and> to_success t then pv_conf V else policy V s)"
proof -
  from assms(1) have "pv_policy V (snd (me_pfctl E [''-f'', PFCONF] None p)) =
      (if answered (fst (me_pfctl E [''-f'', PFCONF] None p)) then pv_conf V else pv_policy V p)" for p
    by (simp only: pf_laws_def)
  with pfctl_result(3,4) [OF assms(2)]
  show pol: "policy V s' = (if \<exists>t. out = Ok t \<and> to_success t then pv_conf V else policy V s)" by simp
  have "\<not> covered V (pv_conf V)" using assms(1) by (simp add: pf_laws_def)
  then have "on_record E V (mc_pf s', mc_dir s)"
    using assms(3) pol on_record_uncovered [of V "mc_pf s'" E "mc_pf s" "mc_dir s"]
      on_record_same [of V "mc_pf s'" "mc_pf s" E "mc_dir s"]
    by (cases "\<exists>t. out = Ok t \<and> to_success t") (auto simp: pf_inv_def)
  with assms(3) show "pf_inv E V s'" "mc_dir s' = mc_dir s" "mc_calls s' = mc_calls s"
    using pfctl_result(3,6) [OF assms(2)] by (simp_all add: pf_inv_def seen_now_def)
qed

lemma reload_default_effect:
  assumes "pf_laws E V" "reload_default E s = (r, s')" "pf_inv E V s"
  shows "pf_inv E V s' \<and> mc_dir s' = mc_dir s \<and> mc_calls s' = mc_calls s \<and>
    (r = Ok () \<longrightarrow> \<not> covered V (policy V s')) \<and> (r \<noteq> Ok () \<longrightarrow> policy V s' = policy V s)"
proof -
  obtain out where out: "pfctl E [''-f'', PFCONF] None s = (out, s')" "r = pfctl_status out ''pf default-ruleset reload''"
    using assms(2) by (auto simp: reload_default_def split: prod.splits)
  with pfconf_policy [OF assms(1) out(1) assms(3)] assms(1) show ?thesis
    by (auto simp: pfctl_status_Ok pf_laws_def)
qed

lemma drop_token_effect:
  assumes "pf_laws E V" "drop_token E t s = (r, s')" "pf_inv E V s"
  shows "pf_inv E V s' \<and> policy V s' = policy V s \<and> mc_dir s' = mc_dir s \<and> mc_calls s' = mc_calls s"
  using assms(2) pfctl_other [OF assms(1) _ _ assms(3), of "[''-X'', t]"]
  by (auto simp: drop_token_def split: prod.splits)

lemma drop_salvaged_effect:
  assumes "pf_laws E V" "pf_inv E V s" "s' = drop_salvaged_token_or_warn E t s"
  shows "pf_inv E V s' \<and> policy V s' = policy V s \<and> mc_dir s' = mc_dir s \<and> mc_calls s' = mc_calls s"
proof (cases t)
  case (Some u)
  obtain r where "drop_token E u s = (r, s')"
    using assms(3) Some by (cases "drop_token E u s") (simp add: drop_salvaged_token_or_warn_def drop_refcount_or_warn_def)
  from drop_token_effect [OF assms(1) this assms(2)] show ?thesis .
qed (use assms in \<open>simp add: drop_salvaged_token_or_warn_def\<close>)

lemma drop_refcount_effect:
  assumes "pf_laws E V" "pf_inv E V s" "s' = drop_refcount_or_warn E t s"
  shows "pf_inv E V s' \<and> policy V s' = policy V s \<and> mc_dir s' = mc_dir s \<and> mc_calls s' = mc_calls s"
  using drop_salvaged_effect [OF assms(1,2), of s' "Some t"] assms(3) by (simp add: drop_salvaged_token_or_warn_def)

section \<open>The record files\<close>

lemma file_names_apart:
  "FAILCLOSED_FILE_NAME \<noteq> LOCKDOWN_PF_FILE_NAME" "LOCKDOWN_FILE_NAME \<noteq> LOCKDOWN_PF_FILE_NAME"
  "LOCKDOWN_FILE_NAME \<noteq> FAILCLOSED_FILE_NAME"
  "FAILCLOSED_FILE_NAME \<notin> range (backup_name LOCKDOWN_PF_FILE_NAME)"
  "LOCKDOWN_PF_FILE_NAME \<notin> range (backup_name FAILCLOSED_FILE_NAME)"
  "LOCKDOWN_PF_FILE_NAME \<notin> range (backup_name LOCKDOWN_FILE_NAME)"
  "FAILCLOSED_FILE_NAME \<notin> range (backup_name LOCKDOWN_FILE_NAME)"
  by (auto simp: FAILCLOSED_FILE_NAME_def LOCKDOWN_PF_FILE_NAME_def LOCKDOWN_FILE_NAME_def backup_name_def split: if_splits)

lemma update_record_result:
  assumes "update_record E S c s = (r, s')"
  shows "vf_update S (me_fs E (mc_calls s)) (\<lambda>_. (c, ())) (mc_dir s) = (mc_dir s', r)"
    "mc_pf s' = mc_pf s" "mc_calls s' = Suc (mc_calls s)" "mc_seen s' = mc_seen s @ [(mc_pf s', mc_dir s')]"
  using assms by (auto simp: update_record_def seen_now_def split: prod.splits)

lemma update_record_elsewhere:
  assumes "update_record E S c s = (r, s')" "FILE_NAME S' \<noteq> FILE_NAME S" "FILE_NAME S' \<notin> range (backup_name (FILE_NAME S))"
  shows "clean_read S' (mc_dir s') = clean_read S' (mc_dir s)"
  using vf_update_elsewhere [OF update_record_result(1) [OF assms(1)] assms(2,3)] by (simp add: clean_read_node)

lemma record_file_names [simp]:
  "FILE_NAME (failclosed_file C) = FAILCLOSED_FILE_NAME" "FILE_NAME (lockdown_pf_file D) = LOCKDOWN_PF_FILE_NAME"
  "FILE_NAME (lockdown_file F) = LOCKDOWN_FILE_NAME"
  by (simp_all add: failclosed_file_def lockdown_pf_file_def lockdown_file_def)

lemma record_elsewhere:
  "update_record E (failclosed_file C) c s = (r, s') \<Longrightarrow>
     clean_read (lockdown_pf_file D) (mc_dir s') = clean_read (lockdown_pf_file D) (mc_dir s)"
  "update_record E (lockdown_pf_file D) d s = (r, s') \<Longrightarrow>
     clean_read (failclosed_file C) (mc_dir s') = clean_read (failclosed_file C) (mc_dir s)"
  "update_record E (lockdown_file F) i s = (r, s') \<Longrightarrow>
     clean_read (lockdown_pf_file D) (mc_dir s') = clean_read (lockdown_pf_file D) (mc_dir s) \<and>
     clean_read (failclosed_file C) (mc_dir s') = clean_read (failclosed_file C) (mc_dir s)"
  using file_names_apart by (auto intro!: update_record_elsewhere)

text \<open>A store: the record reads back, or what was there is there still.\<close>

lemma store_record:
  assumes "codec_roundtrips C" "update_record E (record_file Cover n C) (Store v) s = (r, s')"
  shows "saved what r = Ok () \<and> clean_read (record_file Cover n C) (mc_dir s') = Some (Current v 1) \<or>
    saved what r \<noteq> Ok () \<and> clean_read (record_file Cover n C) (mc_dir s') = clean_read (record_file Cover n C) (mc_dir s)"
  using record_store [OF assms(1) update_record_result(1) [OF assms(2)]] by (cases r) auto

lemma save_transient_effect:
  assumes "codec_roundtrips (me_transient E)" "save_transient E st s = (r, s')" "pf_inv E V s"
  shows "pf_inv E V s' \<and> mc_pf s' = mc_pf s \<and> (r = Ok () \<longrightarrow> transient_recorded E (mc_dir s'))"
proof -
  obtain u where u: "update_record E (failclosed_file (me_transient E)) (Store st) s = (u, s')" "r = saved ''failclosed-state'' u"
    using assms(2) by (auto simp: save_transient_def split: prod.splits)
  from store_record [OF assms(1) u(1) [unfolded failclosed_file_def], of "''failclosed-state''"] u(2)
  have "transient_recorded E (mc_dir s) \<or> r = Ok () \<Longrightarrow> transient_recorded E (mc_dir s')"
    by (auto simp: transient_recorded_def failclosed_file_def)
  moreover have "clean_read (lockdown_pf_file (me_standing E)) (mc_dir s') = clean_read (lockdown_pf_file (me_standing E)) (mc_dir s)"
    using record_elsewhere(1) [OF u(1)] .
  ultimately show ?thesis
    using assms(3) update_record_result(2,4) [OF u(1)]
    by (auto simp: pf_inv_def on_record_def standing_recorded_def)
qed

lemma save_standing_effect:
  assumes "codec_roundtrips (me_standing E)" "save_standing E st s = (r, s')" "pf_inv E V s" "restores_host V st"
  shows "pf_inv E V s' \<and> mc_pf s' = mc_pf s \<and> (r = Ok () \<longrightarrow> standing_recorded E (mc_dir s'))"
proof -
  obtain u where u: "update_record E (lockdown_pf_file (me_standing E)) (Store st) s = (u, s')" "r = saved ''lockdown-pf-state'' u"
    using assms(2) by (auto simp: save_standing_def split: prod.splits)
  let ?read = "clean_read (lockdown_pf_file (me_standing E))"
  from store_record [OF assms(1) u(1) [unfolded lockdown_pf_file_def], of "''lockdown-pf-state''"] u(2)
  have st: "r = Ok () \<and> ?read (mc_dir s') = Some (Current st 1) \<or> r \<noteq> Ok () \<and> ?read (mc_dir s') = ?read (mc_dir s)"
    by (simp add: lockdown_pf_file_def)
  moreover have "clean_read (failclosed_file (me_transient E)) (mc_dir s') = clean_read (failclosed_file (me_transient E)) (mc_dir s)"
    using record_elsewhere(2) [OF u(1)] .
  moreover have "on_record E V (mc_pf s, mc_dir s)" using assms(3) by (simp add: pf_inv_def)
  ultimately have "on_record E V (mc_pf s', mc_dir s')"
    using assms(4) update_record_result(2) [OF u(1)]
    by (elim disjE) (simp_all add: on_record_def standing_recorded_def transient_recorded_def)
  moreover from st have "r = Ok () \<longrightarrow> standing_recorded E (mc_dir s')" by (auto simp: standing_recorded_def)
  ultimately show ?thesis using assms(3) update_record_result(2,4) [OF u(1)] by (simp add: pf_inv_def)
qed

text \<open>A clear removes the evidence only of a cover that is not in force.\<close>

lemma clear_transient_effect:
  assumes "pf_inv E V s" "s' = snd (clear_transient E s)"
    "transient_policy V (policy V s) \<Longrightarrow> standing_recorded E (mc_dir s)"
  shows "pf_inv E V s' \<and> policy V s' = policy V s \<and>
    clean_read (lockdown_pf_file (me_standing E)) (mc_dir s') = clean_read (lockdown_pf_file (me_standing E)) (mc_dir s)"
proof -
  obtain u where u: "update_record E (failclosed_file (me_transient E)) Remove s = (u, s')"
    using assms(2) by (auto simp: clear_transient_def split: prod.splits)
  from record_elsewhere(1) [OF u]
  have "clean_read (lockdown_pf_file (me_standing E)) (mc_dir s') = clean_read (lockdown_pf_file (me_standing E)) (mc_dir s)" .
  with assms(1,3) update_record_result(2,4) [OF u] show ?thesis
    by (auto simp: pf_inv_def on_record_def standing_recorded_def)
qed

lemma remove_or_keep:
  assumes "vf_update S E (\<lambda>_. (Remove, x)) w = (w', r)"
  shows "file_at w' (FILE_NAME S) = file_at w (FILE_NAME S) \<or> file_at w' (FILE_NAME S) = None"
  using assms
proof (cases rule: vf_update_cases)
  case (ran l change res bs)
  then show ?thesis
    by (auto simp: run_step_def remove_step_def remove_Ok fs_simps dest!: move_aside_in_Some
        split: step.splits option.splits sum.splits io_kind.splits prod.splits remove_over.splits)
qed simp

lemma remove_record_value:
  assumes "update_record E S Remove s = (r, s')" "clean_read S (mc_dir s') = Some (Current st n)"
  shows "clean_read S (mc_dir s) = Some (Current st n)"
  using remove_or_keep [OF update_record_result(1) [OF assms(1)]] assms(2)
  by (auto simp: clean_read_node load_node_def)

lemma clear_standing_effect:
  assumes "pf_inv E V s" "s' = snd (clear_standing E s)" "\<not> covered V (policy V s)"
  shows "pf_inv E V s' \<and> policy V s' = policy V s"
proof -
  obtain u where u: "update_record E (lockdown_pf_file (me_standing E)) Remove s = (u, s')"
    using assms(2) by (auto simp: clear_standing_def split: prod.splits)
  from remove_record_value [OF u]
  have "clean_read (lockdown_pf_file (me_standing E)) (mc_dir s') = Some (Current st n) \<Longrightarrow> restores_host V st" for st n
    using assms(1) by (auto simp: pf_inv_def on_record_def)
  with assms(1,3) update_record_result(2,4) [OF u] show ?thesis
    by (auto simp: pf_inv_def on_record_def covered_def)
qed

text \<open>A read finds what a clean read finds, or an unusable record.\<close>

lemma observe_faulty:
  assumes "schema_linked S"
  shows "\<exists>ob. observe S F w = Some ob \<and> (clean_read S w = Some (obs_loaded ob) \<or> (\<exists>k u. obs_loaded ob = Unreadable k u))"
proof (cases "f_open F")
  case (Some f)
  then show ?thesis by (simp add: observe_def from_read_fault)
next
  case None
  show ?thesis
  proof (cases "w_dir w")
    case None
    with \<open>f_open F = None\<close> show ?thesis
      by (simp add: observe_def clean_read_def from_read_not_found no_faults_def)
  next
    case (Some es)
    from from_read_total [OF assms] have "read_through S F es \<noteq> None" by (simp add: read_through_def)
    with Some None read_through_faulty [of S F es] show ?thesis
      by (auto simp: observe_def clean_read_def no_faults_def)
  qed
qed

lemma load_record_effect:
  assumes "load_record E S s = (rec, s')" "schema_linked S"
  shows "s' = s\<lparr>mc_calls := Suc (mc_calls s)\<rparr>" "rec = NoRecord \<Longrightarrow> clean_read S (mc_dir s) = Some Absent"
    "rec = RecordPresent st \<Longrightarrow> \<exists>n. clean_read S (mc_dir s) = Some (Current st n)"
proof -
  obtain ob where ob: "observe S (me_fs E (mc_calls s)) (mc_dir s) = Some ob"
    "clean_read S (mc_dir s) = Some (obs_loaded ob) \<or> (\<exists>k u. obs_loaded ob = Unreadable k u)"
    using observe_faulty [OF assms(2), of "me_fs E (mc_calls s)" "mc_dir s"] by blast
  from assms(1) ob(1) have rec: "rec = state_record_of (me_json_token E) (obs_loaded ob)"
    and s': "s' = s\<lparr>mc_calls := Suc (mc_calls s)\<rparr>" by (auto simp: load_record_def)
  from s' show "s' = s\<lparr>mc_calls := Suc (mc_calls s)\<rparr>" .
  show "rec = NoRecord \<Longrightarrow> clean_read S (mc_dir s) = Some Absent"
    "rec = RecordPresent st \<Longrightarrow> \<exists>n. clean_read S (mc_dir s) = Some (Current st n)"
    using rec ob(2) by (cases "obs_loaded ob"; auto simp: unusable_def)+
qed

lemma cover_files_linked [simp]: "schema_linked (failclosed_file C)" "schema_linked (lockdown_pf_file D)"
  by (simp_all add: failclosed_file_def lockdown_pf_file_def)

lemma load_transient_effect:
  assumes "load_presence_transient E s = (rec, s')" "pf_inv E V s"
  shows "pf_inv E V s'" "mc_pf s' = mc_pf s" "mc_dir s' = mc_dir s" "rec = NoRecord \<Longrightarrow> \<not> transient_recorded E (mc_dir s)"
  using load_record_effect [OF assms(1) [unfolded load_presence_transient_def]] assms(2)
  by (simp_all add: transient_recorded_def)

lemma load_standing_effect:
  assumes "load_presence_standing E s = (rec, s')" "pf_inv E V s"
  shows "pf_inv E V s'" "mc_pf s' = mc_pf s" "mc_dir s' = mc_dir s" "rec = NoRecord \<Longrightarrow> \<not> standing_recorded E (mc_dir s)"
    "rec = RecordPresent st \<Longrightarrow> restores_host V st \<and> standing_recorded E (mc_dir s)"
proof -
  note L = load_record_effect [OF assms(1) [unfolded load_presence_standing_def], simplified]
  from L(1,2) assms(2) show "pf_inv E V s'" "mc_pf s' = mc_pf s" "mc_dir s' = mc_dir s"
    "rec = NoRecord \<Longrightarrow> \<not> standing_recorded E (mc_dir s)"
    by (simp_all add: standing_recorded_def)
  assume "rec = RecordPresent st"
  with L(3) [of st] assms(2) show "restores_host V st \<and> standing_recorded E (mc_dir s)"
    by (auto simp: pf_inv_def on_record_def standing_recorded_def)
qed

section \<open>Disengaging\<close>

lemma disengage_effect:
  assumes "pf_laws E V" "pf_inv E V s" "adopting \<Longrightarrow> standing_recorded E (mc_dir s)" "s' = disengage E token adopting s"
  shows "pf_inv E V s' \<and> (policy V s' = policy V s \<or> \<not> covered V (policy V s'))"
proof -
  obtain reload s1 where r: "(if adopting then (Err ReloadSkipped, s) else pfctl E [''-f'', PFCONF] None s) = (reload, s1)"
    by (cases "if adopting then (Err ReloadSkipped, s) else pfctl E [''-f'', PFCONF] None s") blast
  define s2 where "s2 = drop_salvaged_token_or_warn E token s1"
  have s': "s' = (if restore_confirmed adopting reload then snd (clear_transient E s2) else s2)"
    by (simp add: assms(4) disengage_def r s2_def)
  have s1: "pf_inv E V s1 \<and> mc_dir s1 = mc_dir s \<and> (policy V s1 = policy V s \<or> \<not> covered V (policy V s1)) \<and>
      (\<not> adopting \<longrightarrow> restore_confirmed adopting reload \<longrightarrow> \<not> covered V (policy V s1))"
  proof (cases adopting)
    case False
    with r have "pfctl E [''-f'', PFCONF] None s = (reload, s1)" by simp
    from pfconf_policy [OF assms(1) this assms(2)] assms(1) False show ?thesis
      by (auto simp: restore_confirmed_def pf_laws_def split: sum.splits)
  qed (use r assms(2) in auto)
  with drop_salvaged_effect [OF assms(1) _ s2_def]
  have s2: "pf_inv E V s2" "policy V s2 = policy V s1" "mc_dir s2 = mc_dir s" by auto
  show ?thesis
  proof (cases "restore_confirmed adopting reload")
    case True
    have "transient_policy V (policy V s2) \<Longrightarrow> standing_recorded E (mc_dir s2)"
      using True s1 s2 assms(3) by (cases adopting) (auto simp: covered_def)
    with clear_transient_effect [OF s2(1) refl] True s1 s2 s' show ?thesis by auto
  qed (use s1 s2 s' in auto)
qed

lemma disengage_lockdown_with_effect:
  assumes "pf_laws E V" "pf_inv E V s" "disengage_lockdown_with E presence st s = (r, s')"
    "\<And>x. st = RecordPresent x \<Longrightarrow> restores_host V x"
  shows "pf_inv E V s' \<and> (policy V s' = policy V s \<or> \<not> covered V (policy V s')) \<and>
    (r = Ok () \<longrightarrow> presence \<noteq> AbsentCover \<longrightarrow> \<not> covered V (policy V s'))"
proof (cases "presence \<in> {AbsentCover, Unreachable, Indeterminate}")
  case True
  with assms(2,3) show ?thesis by (auto simp: disengage_lockdown_with_def split: if_splits)
next
  case False
  define restore where "restore = (case st of
       RecordPresent r \<Rightarrow>
         if fl_main_snapshot_captured r
         then load_ruleset E ''pf ruleset load'' (build_lockdown_restore_ruleset (fl_nat_snapshot r) (fl_main_snapshot r)) s
         else reload_default E s
     | _ \<Rightarrow> reload_default E s)"
  obtain restored s1 where rs: "restore = (restored, s1)" by (cases restore)
  have s1: "pf_inv E V s1 \<and> mc_dir s1 = mc_dir s \<and> (restored = Ok () \<longrightarrow> \<not> covered V (policy V s1)) \<and>
      (restored \<noteq> Ok () \<longrightarrow> policy V s1 = policy V s)"
  proof (cases "\<exists>x. st = RecordPresent x \<and> fl_main_snapshot_captured x")
    case True
    then obtain x where x: "st = RecordPresent x" "fl_main_snapshot_captured x" by blast
    from rs x have l: "load_ruleset E ''pf ruleset load'' (build_lockdown_restore_ruleset (fl_nat_snapshot x) (fl_main_snapshot x)) s = (restored, s1)"
      by (simp add: restore_def)
    from assms(4) [OF x(1)] x(2) load_ruleset_policy(1) [OF assms(1) l]
    have "restored = Ok () \<longrightarrow> \<not> covered V (policy V s1)" by (simp add: restores_host_def)
    with load_ruleset_inv [OF assms(1) l assms(2)] load_ruleset_policy [OF assms(1) l] assms(2)
      on_record_uncovered [of V "mc_pf s1" E "mc_pf s" "mc_dir s"]
    show ?thesis by (auto simp: pf_inv_def)
  next
    case False
    with rs have "reload_default E s = (restored, s1)" by (auto simp: restore_def split: state_record.splits if_splits)
    from reload_default_effect [OF assms(1) this assms(2)] show ?thesis by blast
  qed
  show ?thesis
  proof (cases restored)
    case (Inl e)
    with False rs assms(3) have "s' = s1" "r = Err e" by (auto simp: disengage_lockdown_with_def restore_def [symmetric])
    with s1 Inl show ?thesis by auto
  next
    case (Inr u)
    obtain dropped s2 where d: "(case st of
           NoRecord \<Rightarrow> (Ok (), s1)
         | RecordPresent r \<Rightarrow> drop_token E (fl_pf_token r) s1
         | UnusableRecord (Some t) \<Rightarrow> drop_token E t s1
         | UnusableRecord None \<Rightarrow> (Ok (), s1)) = (dropped, s2)"
      by (metis surj_pair)
    have s2: "pf_inv E V s2 \<and> policy V s2 = policy V s1"
      using d s1 drop_token_effect [OF assms(1)] by (auto split: state_record.splits option.splits)
    have c: "\<not> covered V (policy V s2)" using s1 s2 Inr by (cases u) auto
    have "s' = s2 \<or> s' = snd (clear_standing E s2)"
      using assms(3) False rs Inr d
      by (auto simp: disengage_lockdown_with_def restore_def [symmetric] split: sum.splits)
    with clear_standing_effect [OF _ _ c] s2 c show ?thesis by metis
  qed
qed

lemma presence_effect:
  assumes "pf_laws E V" "pf_inv E V s" "lockdown_presence_and_state E s = (presence, rec, s')"
  shows "pf_inv E V s'" "policy V s' = policy V s" "mc_dir s' = mc_dir s"
    "rec = RecordPresent st \<Longrightarrow> restores_host V st \<and> standing_recorded E (mc_dir s)"
    "presence = AbsentCover \<Longrightarrow> \<not> covered V (policy V s) \<or> transient_policy V (policy V s)"
    "presence = AbsentCover \<Longrightarrow> \<not> standing_recorded E (mc_dir s)"
    "presence = Live \<Longrightarrow> standing_policy V (policy V s)"
    "answered (fst (me_pfctl E [''-s'', ''labels''] None (mc_pf s))) \<Longrightarrow> standing_policy V (policy V s) \<Longrightarrow> presence = Live"
    "presence = Recorded \<Longrightarrow> rec \<noteq> NoRecord" "presence \<noteq> Indeterminate"
proof -
  obtain out s1 where p: "pfctl E [''-s'', ''labels''] None s = (out, s1)" by (cases "pfctl E [''-s'', ''labels''] None s")
  with assms(3) have f: "load_presence_standing E s1 = (rec, s')" and pr: "presence = fold_presence (pf_label_answer out) rec"
    by (auto simp: lockdown_presence_and_state_def split: prod.splits)
  have s1: "pf_inv E V s1" "policy V s1 = policy V s" "mc_dir s1 = mc_dir s"
    using pfctl_other [OF assms(1) p _ assms(2)] by auto
  note L = load_standing_effect [OF f s1(1)]
  from L(1-3) s1 show "pf_inv E V s'" "policy V s' = policy V s" "mc_dir s' = mc_dir s" by simp_all
  from L(5) s1(3) show "rec = RecordPresent st \<Longrightarrow> restores_host V st \<and> standing_recorded E (mc_dir s)" by simp
  have truth: "labels_listing_carries_our_label (to_stdout t) \<longleftrightarrow> standing_policy V (policy V s)" if "out = Ok t" "to_success t" for t
    using assms(1) pfctl_result(5) [OF p] that unfolding pf_laws_def by (metis ok_simps(1) prod.collapse)
  have ans: "pf_label_answer out = Some b \<longleftrightarrow> (\<exists>t. out = Ok t \<and> to_success t \<and> b = standing_policy V (policy V s))" for b
    using truth by (auto simp: pf_label_answer_def split: sum.splits)
  have fold: "fold_presence a rec = Live \<longleftrightarrow> a = Some True" "fold_presence a rec = AbsentCover \<longleftrightarrow> a = Some False \<and> rec = NoRecord"
    "fold_presence a rec = Recorded \<Longrightarrow> rec \<noteq> NoRecord" "fold_presence a rec \<noteq> Indeterminate" for a
    by (cases a; cases "the a"; cases rec; simp)+
  show "presence = AbsentCover \<Longrightarrow> \<not> covered V (policy V s) \<or> transient_policy V (policy V s)"
    by (auto simp: pr fold ans covered_def)
  show "presence = AbsentCover \<Longrightarrow> \<not> standing_recorded E (mc_dir s)" using L(4) s1(3) by (auto simp: pr fold)
  show "presence = Live \<Longrightarrow> standing_policy V (policy V s)" by (auto simp: pr fold ans)
  show "presence = Recorded \<Longrightarrow> rec \<noteq> NoRecord" "presence \<noteq> Indeterminate" using fold(3,4) by (auto simp: pr)
  assume "answered (fst (me_pfctl E [''-s'', ''labels''] None (mc_pf s)))" "standing_policy V (policy V s)"
  with pfctl_result(4) [OF p] ans show "presence = Live" by (auto simp: pr fold)
qed

lemma lockdown_disengage_effect:
  assumes "pf_laws E V" "pf_inv E V s" "s' = lockdown_disengage E s"
  shows "pf_inv E V s' \<and> (policy V s' = policy V s \<or> \<not> covered V (policy V s'))"
proof -
  obtain presence rec s1 where p: "lockdown_presence_and_state E s = (presence, rec, s1)" by (metis prod_cases3)
  obtain r where d: "disengage_lockdown_with E presence rec s1 = (r, s')"
    using assms(3) p by (cases "disengage_lockdown_with E presence rec s1") (simp add: lockdown_disengage_def pf_disengage_lockdown_def)
  note P = presence_effect [OF assms(1,2) p]
  from disengage_lockdown_with_effect [OF assms(1) P(1) d] P(2,4) show ?thesis by auto
qed

section \<open>Engaging\<close>

lemma load_cover_ruleset_effect:
  assumes "pf_laws E V" "pf_inv E V s" "load_cover_ruleset E kind txt s = (r, s')"
    "\<And>q. pv_policy V q = pv_meaning V txt \<Longrightarrow> on_record E V (q, mc_dir s)"
  shows "pf_inv E V s' \<and> mc_dir s' = mc_dir s \<and> policy V s' = (if r = Ok () then pv_meaning V txt else policy V s)"
proof -
  obtain lr s1 where l: "load_ruleset E ''pfctl load'' txt s = (lr, s1)" by (cases "load_ruleset E ''pfctl load'' txt s")
  have s1: "pf_inv E V s1" "mc_dir s1 = mc_dir s" "policy V s1 = (if lr = Ok () then pv_meaning V txt else policy V s)"
    using load_ruleset_inv [OF assms(1) l assms(2)] load_ruleset_policy [OF assms(1) l] assms(4) by auto
  obtain fr s2 where f: "flush_states E s1 = (fr, s2)" by (cases "flush_states E s1")
  have "pf_inv E V s2 \<and> policy V s2 = policy V s1 \<and> mc_dir s2 = mc_dir s1"
    using f pfctl_other [OF assms(1) _ _ s1(1), of "[''-F'', ''states'']"] by (auto simp: flush_states_def split: prod.splits)
  with s1 f l assms(3) show ?thesis by (auto simp: load_cover_ruleset_def split: sum.splits if_splits)
qed

lemma pf_enabled_effect:
  assumes "pf_laws E V" "pf_inv E V s" "pf_enabled E s = (r, s')"
  shows "pf_inv E V s' \<and> policy V s' = policy V s \<and> mc_dir s' = mc_dir s"
  using assms(3) pfctl_other [OF assms(1) _ _ assms(2), of "[''-s'', ''info'']"]
  by (auto simp: pf_enabled_def split: prod.splits)

lemma enable_effect:
  assumes "pf_laws E V" "pf_inv E V s" "enable_pf_capture_token E s = (r, s')"
  shows "pf_inv E V s' \<and> policy V s' = policy V s \<and> mc_dir s' = mc_dir s"
  using assms(3) pfctl_other [OF assms(1) _ _ assms(2), of "[''-E'']"]
  by (auto simp: enable_pf_capture_token_def split: prod.splits)

lemma engage_with_effect:
  assumes "pf_laws E V" "codec_roundtrips (me_transient E)" "pf_inv E V s" "engage_with E ip res s = (r, s')"
  shows "pf_inv E V s'"
proof -
  obtain en s1 where en: "pf_enabled E s = (en, s1)" by (cases "pf_enabled E s")
  obtain tok s2 where tok: "enable_pf_capture_token E s1 = (tok, s2)" by (cases "enable_pf_capture_token E s1")
  have s2: "pf_inv E V s2"
    using pf_enabled_effect [OF assms(1,3) en] enable_effect [OF assms(1) _ tok] by blast
  show ?thesis
  proof (cases tok)
    case (Inl e)
    with s2 en tok assms(4) show ?thesis by (auto simp: engage_with_def)
  next
    case (Inr t)
    let ?st = "\<lparr>ft_pf_token = t, ft_pf_was_enabled = (case en of Ok b \<Rightarrow> b | Err _ \<Rightarrow> False)\<rparr>"
    obtain sv s3 where sv: "save_transient E ?st s2 = (sv, s3)" by (cases "save_transient E ?st s2")
    note s3 = save_transient_effect [OF assms(2) sv s2]
    show ?thesis
    proof (cases sv)
      case (Inl e)
      with en tok Inr sv assms(4) have "s' = drop_refcount_or_warn E t s3" by (auto simp: engage_with_def)
      with drop_refcount_effect [OF assms(1)] s3 show ?thesis by blast
    next
      case (Inr u)
      let ?rules = "build_pf_ruleset ip res"
      have rec: "on_record E V (q, mc_dir s3)" if "pv_policy V q = pv_meaning V ?rules" for q
      proof -
        have "transient_policy V (pv_policy V q)" using that by (auto simp: transient_policy_def)
        then have "\<not> standing_policy V (pv_policy V q)" using assms(1) by (auto simp: pf_laws_def)
        with s3 Inr show ?thesis by (auto simp: pf_inv_def on_record_def)
      qed
      obtain ld s4 where ld: "load_cover_ruleset E TransientPf ?rules s3 = (ld, s4)" by (cases "load_cover_ruleset E TransientPf ?rules s3")
      from load_cover_ruleset_effect [OF assms(1) _ ld rec] s3 have s4: "pf_inv E V s4" by blast
      have "s' = s4 \<or> s' = disengage E (Some t) False s4"
        using assms(4) en tok \<open>tok = Inr t\<close> sv Inr ld by (auto simp: engage_with_def split: sum.splits)
      with s4 disengage_effect [OF assms(1) s4, of False] show ?thesis by auto
    qed
  qed
qed

definition labels_answer :: "'p mac_env \<Rightarrow> ('p, 'r) pf_view \<Rightarrow> 'r \<Rightarrow> bool" where
  "labels_answer E V r \<longleftrightarrow> (\<forall>p. pv_policy V p = r \<longrightarrow> answered (fst (me_pfctl E [''-s'', ''labels''] None p)))"

text \<open>
  A host that can be captured: it is not behind the transient cover, and if it is behind the
  standing one, the label listing says so.
\<close>

definition capturable :: "'p mac_env \<Rightarrow> ('p, 'r) pf_view \<Rightarrow> 'r \<Rightarrow> bool" where
  "capturable E V r \<longleftrightarrow> \<not> transient_policy V r \<and> (standing_policy V r \<longrightarrow> labels_answer E V r)"

lemma capture_effect:
  assumes "pf_laws E V" "codec_roundtrips (me_standing E)" "pf_inv E V s" "capturable E V (policy V s)"
    "capture_and_persist E t s = (r, s')"
  shows "pf_inv E V s' \<and> policy V s' = policy V s \<and> ((\<exists>n. r = Ok n) \<longrightarrow> standing_recorded E (mc_dir s'))"
proof -
  obtain presence rec s1 where p: "lockdown_presence_and_state E s = (presence, rec, s1)" by (metis prod_cases3)
  note P = presence_effect [OF assms(1,3) p]
  obtain sr s2 where sr: "pfctl E [''-sr''] None s1 = (sr, s2)" by (cases "pfctl E [''-sr''] None s1")
  have s2: "pf_inv E V s2" "policy V s2 = policy V s" using pfctl_other [OF assms(1) sr _ P(1)] P(2) by auto
  show ?thesis
  proof (cases "pfctl_stdout sr ''pfctl -sr''")
    case (Inl e)
    with assms(5) p sr s2 show ?thesis by (auto simp: capture_and_persist_def)
  next
    case (Inr main_s)
    obtain sn s3 where sn: "pfctl E [''-sn''] None s2 = (sn, s3)" by (cases "pfctl E [''-sn''] None s2")
    have s3: "pf_inv E V s3" "policy V s3 = policy V s" using pfctl_other [OF assms(1) sn _ s2(1)] s2(2) by auto
    show ?thesis
    proof (cases "pfctl_stdout sn ''pfctl -sn''")
      case (Inl e)
      with assms(5) p sr Inr sn s3 show ?thesis by (auto simp: capture_and_persist_def)
    next
      case (Inr nat_s)
      let ?st = "\<lparr>fl_pf_token = t, fl_main_snapshot = (if presence \<noteq> Live then main_s else []),
             fl_nat_snapshot = nat_s, fl_main_snapshot_captured = (presence \<noteq> Live)\<rparr>"
      obtain a b where ab: "sr = Ok a" "to_success a" "main_s = to_stdout a" "sn = Ok b" "to_success b" "nat_s = to_stdout b"
        using Inr \<open>pfctl_stdout sr _ = Inr main_s\<close> by (auto simp: pfctl_stdout_def split: sum.splits if_splits)
      have "pv_meaning V (build_lockdown_restore_ruleset nat_s main_s) = policy V s1"
      proof -
        obtain q1 q2 where "me_pfctl E [''-sr''] None (mc_pf s1) = (Some a, q1)" "me_pfctl E [''-sn''] None (mc_pf s2) = (Some b, q2)"
          using pfctl_result(5) [OF sr] pfctl_result(5) [OF sn] ab(1,4) by (metis ok_simps(1) prod.collapse)
        moreover have "policy V s1 = policy V s2" using s2(2) P(2) by simp
        ultimately show ?thesis using assms(1) ab(2,3,5,6) unfolding pf_laws_def by metis
      qed
      moreover have "presence \<noteq> Live \<Longrightarrow> \<not> covered V (policy V s)"
        using assms(4) P(8) by (auto simp: capturable_def covered_def labels_answer_def)
      ultimately have host: "restores_host V ?st" using P(2) by (simp add: restores_host_def)
      obtain sv s4 where sv: "save_standing E ?st s3 = (sv, s4)" by (cases "save_standing E ?st s3")
      have "capture_and_persist E t s = (case sv of Err e \<Rightarrow> (Err e, s4) | Ok _ \<Rightarrow> (Ok nat_s, s4))"
        by (simp add: capture_and_persist_def persist_baseline_def p sr sn Inr sv \<open>pfctl_stdout sr _ = Inr main_s\<close>)
      then have "s' = s4" "(\<exists>n. r = Ok n) \<longleftrightarrow> sv = Ok ()"
        using assms(5) by (cases sv; simp)+
      with save_standing_effect [OF assms(2) sv s3(1) host] s3 show ?thesis by auto
    qed
  qed
qed

lemma acquire_effect:
  assumes "pf_laws E V" "codec_roundtrips (me_standing E)" "pf_inv E V s" "capturable E V (policy V s)"
    "\<And>st. persisted = Some st \<Longrightarrow> restores_host V st \<and> standing_recorded E (mc_dir s)"
    "acquire_standing E enabled persisted s = (r, s')"
  shows "pf_inv E V s' \<and> ((\<exists>x. r = Ok x) \<longrightarrow> standing_recorded E (mc_dir s'))"
proof -
  obtain tok s1 where tok: "enable_pf_capture_token E s = (tok, s1)" by (cases "enable_pf_capture_token E s")
  have s1: "pf_inv E V s1" "policy V s1 = policy V s" "mc_dir s1 = mc_dir s" using enable_effect [OF assms(1,3) tok] by auto
  show ?thesis
  proof (cases persisted)
    case None
    show ?thesis
    proof (cases tok)
      case (Inr t)
      obtain c s2 where c: "capture_and_persist E t s1 = (c, s2)" by (cases "capture_and_persist E t s1")
      from capture_effect [OF assms(1,2) s1(1) _ c] s1(2) assms(4)
      have "pf_inv E V s2" "(\<exists>n. c = Ok n) \<longrightarrow> standing_recorded E (mc_dir s2)" by auto
      with drop_refcount_effect [OF assms(1), of s2] assms(6) None tok Inr c show ?thesis
        by (auto simp: acquire_standing_def split: sum.splits)
    qed (use assms(6) None tok s1 in \<open>auto simp: acquire_standing_def\<close>)
  next
    case (Some st)
    note st = assms(5) [OF Some]
    show ?thesis
    proof (cases enabled)
      case True
      with assms(3,6) Some st show ?thesis by (auto simp: acquire_standing_def)
    next
      case False
      show ?thesis
      proof (cases tok)
        case (Inr t)
        have "restores_host V (st\<lparr>fl_pf_token := t\<rparr>)" using st by (simp add: restores_host_def)
        moreover obtain sv s2 where sv: "save_standing E (st\<lparr>fl_pf_token := t\<rparr>) s1 = (sv, s2)" by (cases "save_standing E (st\<lparr>fl_pf_token := t\<rparr>) s1")
        ultimately have "pf_inv E V s2" "sv = Ok () \<longrightarrow> standing_recorded E (mc_dir s2)"
          using save_standing_effect [OF assms(2) sv s1(1)] by auto
        with drop_refcount_effect [OF assms(1), of s2] assms(6) Some False tok Inr sv show ?thesis
          by (auto simp: acquire_standing_def split: sum.splits)
      qed (use assms(6) Some False tok s1 in \<open>auto simp: acquire_standing_def\<close>)
    qed
  qed
qed

lemma engage_lockdown_effect:
  assumes "pf_laws E V" "codec_roundtrips (me_standing E)" "pf_inv E V s" "capturable E V (policy V s)"
    "pf_engage_lockdown E ip tun s = (r, s')"
  shows "pf_inv E V s'"
proof -
  obtain en s1 where en: "pf_enabled E s = (en, s1)" by (cases "pf_enabled E s")
  note s1 = pf_enabled_effect [OF assms(1,3) en]
  show ?thesis
  proof (cases en)
    case (Inr enabled)
    obtain rec s2 where l: "load_presence_standing E s1 = (rec, s2)" by (cases "load_presence_standing E s1")
    have "pf_inv E V s1" using s1 by simp
    note L = load_standing_effect [OF l this]
    obtain a s3 where a: "acquire_standing E enabled (record_value rec) s2 = (a, s3)" by (cases "acquire_standing E enabled (record_value rec) s2")
    have "record_value rec = Some st \<Longrightarrow> restores_host V st \<and> standing_recorded E (mc_dir s2)" for st
      using L(3,5) by (cases rec) auto
    from acquire_effect [OF assms(1,2) L(1) _ this a] L(2) s1 assms(4)
    have s3: "pf_inv E V s3" "(\<exists>x. a = Ok x) \<longrightarrow> standing_recorded E (mc_dir s3)" by auto
    show ?thesis
    proof (cases a)
      case (Inl e)
      with assms(5) en Inr l a s3 show ?thesis by (auto simp: pf_engage_lockdown_def load_standing_def)
    next
      case (Inr x)
      obtain t n where x: "x = (t, n)" by (cases x)
      let ?rules = "build_lockdown_main_ruleset tun ip n"
      have rec: "on_record E V (q, mc_dir s3)" if "pv_policy V q = pv_meaning V ?rules" for q
        using s3 Inr by (auto simp: pf_inv_def on_record_def)
      obtain ld s4 where ld: "load_cover_ruleset E LockdownPf ?rules s3 = (ld, s4)" by (cases "load_cover_ruleset E LockdownPf ?rules s3")
      from load_cover_ruleset_effect [OF assms(1) s3(1) ld rec] have s4: "pf_inv E V s4" by blast
      have "s' = s4 \<or> s' = lockdown_disengage E s4"
        using assms(5) en \<open>en = Inr enabled\<close> l a Inr x ld by (auto simp: pf_engage_lockdown_def load_standing_def split: sum.splits)
      with s4 lockdown_disengage_effect [OF assms(1) s4] show ?thesis by auto
    qed
  qed (use assms(5) en s1 in \<open>auto simp: pf_engage_lockdown_def\<close>)
qed

section \<open>Recovering and releasing\<close>

lemma clean_load:
  "load_record E S s = (rec, s') \<Longrightarrow> me_fs E (mc_calls s) = no_faults \<Longrightarrow> schema_linked S \<Longrightarrow> rec \<noteq> NoRecord \<Longrightarrow>
     clean_read S (mc_dir s) \<noteq> Some Absent"
  using from_read_total [of S] by (auto simp: load_record_def clean_read_def split: option.splits)

lemma adopted_is_recorded:
  assumes "pf_laws E V" "pf_inv E V s" "lockdown_presence_and_state E s = (presence, rec, s')" "me_fs E (mc_calls s) = no_faults"
    "cover_action (decide_cover_recovery intent presence) = Adopt"
  shows "standing_recorded E (mc_dir s')"
proof -
  note P = presence_effect [OF assms(1-3)]
  have "presence = Live \<or> presence = Recorded"
    using assms(5) P(10) by (cases intent; cases presence) (simp_all add: decide_cover_recovery_def)
  then show ?thesis
  proof
    assume "presence = Live"
    with P(7) assms(2) P(3) show ?thesis by (auto simp: pf_inv_def on_record_def)
  next
    assume r: "presence = Recorded"
    obtain out s1 where p: "pfctl E [''-s'', ''labels''] None s = (out, s1)" by (cases "pfctl E [''-s'', ''labels''] None s")
    with assms(3) have f: "load_record E (lockdown_pf_file (me_standing E)) s1 = (rec, s')"
      by (auto simp: lockdown_presence_and_state_def load_presence_standing_def split: prod.splits)
    with clean_load [OF f] P(9) [OF r] P(3) pfctl_result(1,2) [OF p] assms(4) show ?thesis by (simp add: standing_recorded_def)
  qed
qed

lemma repair_effect:
  assumes "pf_inv E V s"
  shows "pf_inv E V (repair_intent E C on s)" "policy V (repair_intent E C on s) = policy V s"
    "standing_recorded E (mc_dir (repair_intent E C on s)) = standing_recorded E (mc_dir s)"
proof -
  obtain r s' where u: "update_record E (lockdown_file C) (Store \<lparr>ls_enabled = True\<rparr>) s = (r, s')"
    by (cases "update_record E (lockdown_file C) (Store \<lparr>ls_enabled = True\<rparr>) s")
  with record_elsewhere(3) [OF u] update_record_result(2,4) [OF u] assms
  have "pf_inv E V s' \<and> policy V s' = policy V s \<and> standing_recorded E (mc_dir s') = standing_recorded E (mc_dir s)"
    by (simp add: pf_inv_def on_record_def standing_recorded_def transient_recorded_def)
  with u assms show "pf_inv E V (repair_intent E C on s)" "policy V (repair_intent E C on s) = policy V s"
    "standing_recorded E (mc_dir (repair_intent E C on s)) = standing_recorded E (mc_dir s)"
    by (auto simp: repair_intent_def)
qed

lemma recover_cover_effect:
  assumes "pf_laws E V" "pf_inv E V s" "adopting \<Longrightarrow> standing_recorded E (mc_dir s)"
  shows "pf_inv E V (pf_recover_cover E adopting s)"
proof -
  obtain rec s1 where l: "load_presence_transient E s = (rec, s1)" by (cases "load_presence_transient E s")
  note L = load_transient_effect [OF l assms(2)]
  from L(3) assms(3) have "adopting \<Longrightarrow> standing_recorded E (mc_dir s1)" by simp
  from disengage_effect [OF assms(1) L(1) this refl] l L(1) show ?thesis
    by (auto simp: pf_recover_cover_def recover_cover_with_def split: state_record.splits)
qed

lemma pf_recover_effect:
  assumes "pf_laws E V" "pf_inv E V s" "me_fs E (Suc (mc_calls s)) = no_faults"
  shows "pf_inv E V (snd (pf_recover E C s))"
proof -
  let ?s0 = "s\<lparr>mc_calls := Suc (mc_calls s)\<rparr>"
  let ?i = "case load_intent C (me_fs E (mc_calls s)) (mc_dir s) of Some i \<Rightarrow> i | None \<Rightarrow> IntentUnreadable"
  obtain presence rec s1 where p: "lockdown_presence_and_state E ?s0 = (presence, rec, s1)" by (metis prod_cases3)
  define r where "r = decide_cover_recovery ?i presence"
  define s2 where "s2 = repair_intent E C (record_intent_on r) s1"
  define s3 where "s3 = (if cover_action r = Sweep then lockdown_disengage E s2 else s2)"
  have inv0: "pf_inv E V ?s0" using assms(2) by simp
  have inv2: "pf_inv E V s2" unfolding s2_def using presence_effect(1) [OF assms(1) inv0 p] by (rule repair_effect(1))
  then have inv3: "pf_inv E V s3" unfolding s3_def using lockdown_disengage_effect [OF assms(1) inv2 refl] by simp
  have "standing_recorded E (mc_dir s3)" if "cover_action r = Adopt"
  proof -
    have "standing_recorded E (mc_dir s1)"
      using adopted_is_recorded [OF assms(1) inv0 p] assms(3) that by (simp add: r_def)
    with that repair_effect(3) [OF presence_effect(1) [OF assms(1) inv0 p]] show ?thesis by (simp add: s3_def s2_def)
  qed
  then have "pf_inv E V (pf_recover_cover E (cover_action r = Adopt) s3)" by (rule recover_cover_effect [OF assms(1) inv3])
  moreover have "snd (pf_recover E C s) = pf_recover_cover E (cover_action r = Adopt) s3"
    by (simp add: pf_recover_def p Let_def r_def s2_def s3_def)
  ultimately show ?thesis by simp
qed

lemma release_transient_effect:
  assumes "pf_laws E V" "pf_inv E V s" "release_transient E t s = (e, s')"
  shows "pf_inv E V s' \<and> (policy V s' = policy V s \<or> \<not> covered V (policy V s')) \<and>
    (e = None \<longrightarrow> t \<noteq> NoRecord \<longrightarrow> \<not> covered V (policy V s'))"
proof (cases "t = NoRecord")
  case False
  obtain reload s1 where r: "reload_default E s = (reload, s1)" by (cases "reload_default E s")
  define s2 where "s2 = (case t of RecordPresent st \<Rightarrow> drop_refcount_or_warn E (ft_pf_token st) s1
      | UnusableRecord token \<Rightarrow> drop_salvaged_token_or_warn E token s1 | NoRecord \<Rightarrow> s1)"
  note s1 = reload_default_effect [OF assms(1) r assms(2)]
  have s2: "pf_inv E V s2 \<and> policy V s2 = policy V s1"
    using s1 drop_refcount_effect [OF assms(1) _ refl] drop_salvaged_effect [OF assms(1) _ refl] by (cases t) (simp_all add: s2_def)
  have e: "(e, s') = (case reload of Ok _ \<Rightarrow> (None, snd (clear_transient E s2)) | Err e \<Rightarrow> (Some e, s2))"
    using assms(3) False r by (simp add: release_transient_def s2_def [symmetric])
  show ?thesis
  proof (cases reload)
    case (Inr u)
    then have c: "\<not> covered V (policy V s2)" using s1 s2 by simp
    with clear_transient_effect [of E V s2 s'] s2 e Inr show ?thesis by (auto simp: covered_def)
  qed (use s1 s2 e in auto)
qed (use assms in \<open>auto simp: release_transient_def\<close>)

lemma restore_or_default_effect:
  assumes "pf_laws E V" "pf_inv E V s" "restores_host V st" "fl_main_snapshot_captured st" "restore_or_default E st s = (r, s')"
  shows "pf_inv E V s' \<and> mc_dir s' = mc_dir s \<and> (r = Ok () \<longrightarrow> \<not> covered V (policy V s')) \<and>
    (r \<noteq> Ok () \<longrightarrow> policy V s' = policy V s)"
proof -
  let ?txt = "build_lockdown_restore_ruleset (fl_nat_snapshot st) (fl_main_snapshot st)"
  obtain a s1 where a: "load_ruleset E ''pf ruleset load'' ?txt s = (a, s1)" by (cases "load_ruleset E ''pf ruleset load'' ?txt s")
  note pol = load_ruleset_policy [OF assms(1) a]
  have open1: "a = Ok () \<Longrightarrow> \<not> covered V (policy V s1)" using pol(1) assms(3,4) by (simp add: restores_host_def)
  have "a = Ok () \<Longrightarrow> on_record E V (mc_pf s1, mc_dir s)"
    using open1 assms(2) on_record_uncovered [of V "mc_pf s1" E "mc_pf s" "mc_dir s"] by (simp add: pf_inv_def)
  note inv1 = load_ruleset_inv [OF assms(1) a assms(2) this]
  obtain b s2 where b: "reload_default E s1 = (b, s2)" by (cases "reload_default E s1")
  from reload_default_effect [OF assms(1) b inv1] pol(1,2) open1 inv1 assms(5) a b show ?thesis
    by (cases a; cases b) (auto simp: restore_or_default_def)
qed

lemma release_standing_effect:
  assumes "pf_laws E V" "pf_inv E V s" "\<And>x. t = RecordPresent x \<Longrightarrow> restores_host V x" "release_standing E t s = (e, s')"
  shows "pf_inv E V s' \<and> (policy V s' = policy V s \<or> \<not> covered V (policy V s')) \<and>
    (e = None \<longrightarrow> t \<noteq> NoRecord \<longrightarrow> \<not> covered V (policy V s'))"
proof (cases "t = NoRecord")
  case False
  define restore where "restore = (case t of
        RecordPresent st \<Rightarrow> if fl_main_snapshot_captured st then restore_or_default E st s else reload_default E s
      | _ \<Rightarrow> reload_default E s)"
  obtain outcome s1 where r: "restore = (outcome, s1)" by (cases restore)
  define s2 where "s2 = (case t of RecordPresent st \<Rightarrow> drop_refcount_or_warn E (fl_pf_token st) s1
      | UnusableRecord token \<Rightarrow> drop_salvaged_token_or_warn E token s1 | NoRecord \<Rightarrow> s1)"
  have s1: "pf_inv E V s1 \<and> (outcome = Ok () \<longrightarrow> \<not> covered V (policy V s1)) \<and> (outcome \<noteq> Ok () \<longrightarrow> policy V s1 = policy V s)"
  proof (cases "\<exists>x. t = RecordPresent x \<and> fl_main_snapshot_captured x")
    case True
    with r assms(3) restore_or_default_effect [OF assms(1,2)] show ?thesis by (auto simp: restore_def)
  next
    case False
    with r have "reload_default E s = (outcome, s1)" by (auto simp: restore_def split: state_record.splits if_splits)
    with reload_default_effect [OF assms(1) this assms(2)] show ?thesis by blast
  qed
  have s2: "pf_inv E V s2 \<and> policy V s2 = policy V s1"
    using s1 drop_refcount_effect [OF assms(1) _ refl] drop_salvaged_effect [OF assms(1) _ refl] by (cases t) (simp_all add: s2_def)
  have e: "(e, s') = (case outcome of Ok _ \<Rightarrow> (None, snd (clear_standing E s2)) | Err e \<Rightarrow> (Some e, s2))"
    using assms(4) False r by (simp add: release_standing_def restore_def [symmetric] s2_def [symmetric])
  show ?thesis
  proof (cases outcome)
    case (Inr u)
    then have c: "\<not> covered V (policy V s2)" using s1 s2 by simp
    with clear_standing_effect [of E V s2 s'] s2 e Inr show ?thesis by auto
  qed (use s1 s2 e in auto)
qed (use assms in \<open>auto simp: release_standing_def\<close>)

lemma release_all_effect:
  assumes "pf_laws E V" "pf_inv E V s" "pf_release_all E s = (out, s')"
  shows "pf_inv E V s'" "so_failure out = None \<Longrightarrow> \<not> covered V (policy V s')"
proof -
  obtain t s1 where t: "load_presence_transient E s = (t, s1)" by (cases "load_presence_transient E s")
  note T = load_transient_effect [OF t assms(2)]
  obtain l s2 where l: "load_presence_standing E s1 = (l, s2)" by (cases "load_presence_standing E s1")
  note L = load_standing_effect [OF l T(1)]
  obtain e1 s3 where e1: "release_transient E t s2 = (e1, s3)" by (cases "release_transient E t s2")
  note A = release_transient_effect [OF assms(1) L(1) e1]
  obtain e2 s4 where e2: "release_standing E l s3 = (e2, s4)" by (cases "release_standing E l s3")
  have "pf_inv E V s3" using A by simp
  note B = release_standing_effect [OF assms(1) this _ e2]
  have host: "l = RecordPresent x \<Longrightarrow> restores_host V x" for x using L(5) by blast
  have s': "s' = s4" "so_failure out = (if e1 = None then e2 else e1)"
    using assms(3) t l e1 e2
    by (auto simp: pf_release_all_def release_all_with_def completed_def sweep_failed_def split: option.splits if_splits)
  show "pf_inv E V s'" using B host s'(1) by blast
  assume "so_failure out = None"
  then have none: "e1 = None" "e2 = None" using s'(2) by (auto split: if_splits)
  have "t \<noteq> NoRecord \<or> l \<noteq> NoRecord \<or> \<not> covered V (policy V s)"
    using assms(2) T(4) L(4) T(3) by (auto simp: pf_inv_def on_record_def covered_def)
  moreover have "policy V s2 = policy V s" using T(2) L(2) by simp
  ultimately show "\<not> covered V (policy V s')" using A B host none s'(1) by metis
qed

section \<open>Histories\<close>

datatype pf_op =
    EngageTransient ip_addr "ip_addr option"
  | EngageStanding ip_addr bytes
  | DropGuard pf_cover_kind bytes
  | BootRecovery "lockdown_state codec"
  | DisengageStanding
  | ReleaseAll

fun run_pf_op :: "'p mac_env \<Rightarrow> pf_op \<Rightarrow> 'p mac \<Rightarrow> 'p mac" where
  "run_pf_op E (EngageTransient ip res) s = snd (engage_with E ip res s)"
| "run_pf_op E (EngageStanding ip tun) s = snd (pf_engage_lockdown E ip tun s)"
| "run_pf_op E (DropGuard kind token) s = pf_drop_cover E kind token s"
| "run_pf_op E (BootRecovery C) s = snd (pf_recover E C s)"
| "run_pf_op E DisengageStanding s = snd (pf_disengage_lockdown E s)"
| "run_pf_op E ReleaseAll s = snd (pf_release_all E s)"

text \<open>
  What an operation is entered with: the standing cover over a host that can be captured, and a
  boot whose probe reads the standing record without an I/O failure (the second file call).
\<close>

fun pf_op_allowed :: "'p mac_env \<Rightarrow> ('p, 'r) pf_view \<Rightarrow> 'r \<Rightarrow> pf_op \<Rightarrow> bool" where
  "pf_op_allowed E V r (EngageStanding ip tun) = capturable E V r"
| "pf_op_allowed E V r (BootRecovery C) = (me_fs E 1 = no_faults)"
| "pf_op_allowed E V r (EngageTransient ip res) = True"
| "pf_op_allowed E V r (DropGuard kind token) = True"
| "pf_op_allowed E V r DisengageStanding = True"
| "pf_op_allowed E V r ReleaseAll = True"

text \<open>
  Every state some history leaves behind: an operation may stop after any of its calls (a crash),
  with any of its file calls failing, and between operations something else may replace the rules
  (a reboot, another program) and write other files.
\<close>

inductive pf_reach :: "'p mac_env \<Rightarrow> ('p, 'r) pf_view \<Rightarrow> 'p \<times> world \<Rightarrow> bool" for E V where
  fresh: "\<not> covered V (pv_policy V p) \<Longrightarrow> \<not> standing_recorded E w \<Longrightarrow> pf_reach E V (p, w)"
| ran: "pf_reach E V (p, w) \<Longrightarrow> pf_op_allowed (E\<lparr>me_fs := F\<rparr>) V (pv_policy V p) op \<Longrightarrow>
    x \<in> set (mc_seen (run_pf_op (E\<lparr>me_fs := F\<rparr>) op (starting p w))) \<Longrightarrow> pf_reach E V x"
| outside: "pf_reach E V (p, w) \<Longrightarrow> \<not> covered V (pv_policy V q) \<or> pv_policy V q = pv_policy V p \<Longrightarrow>
    clean_read (failclosed_file (me_transient E)) w' = clean_read (failclosed_file (me_transient E)) w \<Longrightarrow>
    clean_read (lockdown_pf_file (me_standing E)) w' = clean_read (lockdown_pf_file (me_standing E)) w \<Longrightarrow>
    pf_reach E V (q, w')"

lemma env_fs [simp]:
  "pf_laws (E\<lparr>me_fs := F\<rparr>) V = pf_laws E V" "on_record (E\<lparr>me_fs := F\<rparr>) V = on_record E V"
  by (simp_all add: pf_laws_def on_record_def transient_recorded_def standing_recorded_def)

lemma pf_inv_fs [simp]: "pf_inv (E\<lparr>me_fs := F\<rparr>) V s = pf_inv E V s"
  by (simp add: pf_inv_def)

lemma starting_sel [simp]: "mc_pf (starting p w) = p" "mc_dir (starting p w) = w" "mc_calls (starting p w) = 0"
  by (simp_all add: starting_def)

lemma starting_inv [simp]: "pf_inv E V (starting p w) = on_record E V (p, w)"
  by (simp add: pf_inv_def starting_def)

lemma run_pf_op_inv:
  assumes "pf_laws E V" "codec_roundtrips (me_transient E)" "codec_roundtrips (me_standing E)"
    "pf_inv E V s" "pf_op_allowed E V (policy V s) op" "mc_calls s = 0"
  shows "pf_inv E V (run_pf_op E op s)"
proof (cases op)
  case (EngageTransient ip res)
  with engage_with_effect [OF assms(1,2,4), of ip res] show ?thesis by (cases "engage_with E ip res s") simp
next
  case (EngageStanding ip tun)
  with engage_lockdown_effect [OF assms(1,3,4), of ip tun] assms(5) show ?thesis
    by (cases "pf_engage_lockdown E ip tun s") simp
next
  case (DropGuard kind t)
  with disengage_effect [OF assms(1,4) _ refl] lockdown_disengage_effect [OF assms(1,4) refl] show ?thesis
    by (cases kind) simp_all
next
  case (BootRecovery C)
  with pf_recover_effect [OF assms(1,4)] assms(5,6) show ?thesis by simp
next
  case DisengageStanding
  with lockdown_disengage_effect [OF assms(1,4) refl] show ?thesis by (simp add: lockdown_disengage_def)
next
  case ReleaseAll
  with release_all_effect(1) [OF assms(1,4)] show ?thesis by (cases "pf_release_all E s") simp
qed

lemma reach_on_record:
  assumes "pf_reach E V x" "pf_laws E V" "codec_roundtrips (me_transient E)" "codec_roundtrips (me_standing E)"
  shows "on_record E V x"
  using assms(1)
proof induction
  case (fresh p w)
  then show ?case by (auto simp: on_record_def covered_def standing_recorded_def)
next
  case (ran p w F op x)
  have "pf_inv E V (run_pf_op (E\<lparr>me_fs := F\<rparr>) op (starting p w))"
    using run_pf_op_inv [of "E\<lparr>me_fs := F\<rparr>" V "starting p w" op] ran assms(2-4) by simp
  with ran show ?case by (auto simp: pf_inv_def list_all_iff)
next
  case (outside p w q w')
  then show ?case by (auto simp: on_record_def covered_def transient_recorded_def standing_recorded_def)
qed

section \<open>A sample host\<close>

datatype sample_rules = SampleStanding | SampleTransient | SampleOpen

definition label_line :: bytes where
  "label_line = ''block drop out quick all label '' @ [dquote] @ LOCKDOWN_PF_LABEL @ [dquote] @ [newline]"

definition sample_meaning :: "bytes \<Rightarrow> sample_rules" where
  "sample_meaning txt =
     (if starts_with (rev txt) (rev label_line) then SampleStanding
      else if starts_with txt ''set block-policy drop'' \<or> txt = build_lockdown_restore_ruleset [] ''T'' then SampleTransient
      else SampleOpen)"

definition printed :: "bytes \<Rightarrow> bytes \<Rightarrow> tool_output option" where
  "printed out err = Some \<lparr>to_success = True, to_stdout = out, to_stderr = err\<rparr>"

definition sample_pfctl :: "string list \<Rightarrow> bytes option \<Rightarrow> sample_rules \<Rightarrow> tool_output option \<times> sample_rules" where
  "sample_pfctl args stdin p =
     (if args = [''-f'', ''-''] then (printed [] [], case stdin of Some txt \<Rightarrow> sample_meaning txt | None \<Rightarrow> p)
      else if args = [''-f'', PFCONF] then (printed [] [], SampleOpen)
      else if args = [''-E''] then (printed [] ''Token : 7'', p)
      else if args = [''-s'', ''labels''] then (printed (if p = SampleStanding then ''hole-lockdown 0 0'' else []) [], p)
      else if args = [''-sr''] then
        (printed (case p of SampleStanding \<Rightarrow> label_line | SampleTransient \<Rightarrow> ''T'' | SampleOpen \<Rightarrow> ''O'') [], p)
      else (printed [] [], p))"

definition sample_view :: "(sample_rules, sample_rules) pf_view" where
  "sample_view = \<lparr>pv_policy = (\<lambda>p. p), pv_meaning = sample_meaning, pv_conf = SampleOpen\<rparr>"

lemma sample_view_sel [simp]:
  "pv_policy sample_view p = p" "pv_meaning sample_view = sample_meaning" "pv_conf sample_view = SampleOpen"
  by (simp_all add: sample_view_def)

lemma starts_with_append: "starts_with (a @ b) a"
  by (simp add: starts_with_def)

lemma sample_lockdown: "sample_meaning (build_lockdown_main_ruleset tun ip nats) = SampleStanding"
  using starts_with_append [of "rev label_line"]
  by (simp add: sample_meaning_def build_lockdown_main_ruleset_def label_line_def)

lemma sample_transient: "sample_meaning (build_pf_ruleset ip res) = SampleTransient"
  by (cases res) (simp_all add: sample_meaning_def build_pf_ruleset_def pf_permit_def label_line_def dquote_def newline_def starts_with_def)

lemma sample_restores: "sample_meaning (build_lockdown_restore_ruleset [] label_line) = SampleStanding"
  "sample_meaning (build_lockdown_restore_ruleset [] ''T'') = SampleTransient"
  "sample_meaning (build_lockdown_restore_ruleset [] ''O'') = SampleOpen"
  by code_simp+

lemma sample_policies [simp]:
  "transient_policy sample_view r \<longleftrightarrow> r = SampleTransient" "standing_policy sample_view r \<longleftrightarrow> r = SampleStanding"
  "covered sample_view r \<longleftrightarrow> r \<noteq> SampleOpen"
  by (cases r; simp add: transient_policy_def standing_policy_def covered_def sample_lockdown sample_transient)+

lemma sample_labels: "labels_listing_carries_our_label ''hole-lockdown 0 0''" "\<not> labels_listing_carries_our_label []"
  by code_simp+

lemma sample_laws: "me_pfctl E = sample_pfctl \<Longrightarrow> pf_laws E sample_view"
proof -
  assume e: "me_pfctl E = sample_pfctl"
  have "sample_meaning (build_lockdown_restore_ruleset (to_stdout t) (to_stdout r)) = p"
    if "sample_pfctl [''-sr''] None p = (Some r, p')" "sample_pfctl [''-sn''] None q = (Some t, q')" for p q r t p' q'
    using that sample_restores by (cases p) (auto simp: sample_pfctl_def printed_def PFCONF_def)
  moreover have "labels_listing_carries_our_label (to_stdout r) \<longleftrightarrow> p = SampleStanding"
    if "sample_pfctl [''-s'', ''labels''] None p = (Some r, q)" for p r q
    using that sample_labels by (cases p) (auto simp: sample_pfctl_def printed_def PFCONF_def)
  moreover have "snd (sample_pfctl args None p) = p" if "hd args \<noteq> ''-f''" for args p
    using that by (auto simp: sample_pfctl_def)
  moreover have "sample_pfctl [''-f'', ''-''] (Some rules) p = (printed [] [], sample_meaning rules)"
    "sample_pfctl [''-f'', PFCONF] None p = (printed [] [], SampleOpen)" for rules p
    by (simp_all add: sample_pfctl_def PFCONF_def)
  ultimately show ?thesis
    unfolding pf_laws_def e by (auto simp: printed_def answered_def)
qed

definition sample_transient_codec :: "failclosed_state codec" where
  "sample_transient_codec =
     \<lparr>cd_json = sample_json,
      cd_from_slice = (\<lambda>bs. case bs of
          _ # f # t \<Rightarrow> Ok \<lparr>ft_pf_token = t, ft_pf_was_enabled = (f = CHR ''y'')\<rparr> | _ \<Rightarrow> Err (framing ''data'')),
      cd_to_vec = (\<lambda>v x. Ok (CHR ''1'' # (if ft_pf_was_enabled x then CHR ''y'' else CHR ''n'') # ft_pf_token x))\<rparr>"

definition sample_baseline :: "bytes \<Rightarrow> lockdown_pf_state" where
  "sample_baseline main_s =
     \<lparr>fl_pf_token = ''7'', fl_main_snapshot = main_s, fl_nat_snapshot = [], fl_main_snapshot_captured = True\<rparr>"

definition sample_standing_codec :: "lockdown_pf_state codec" where
  "sample_standing_codec =
     \<lparr>cd_json = sample_json,
      cd_from_slice = (\<lambda>bs. case bs of _ # m \<Rightarrow> if m = ''?'' then Err (framing ''data'') else Ok (sample_baseline m) | _ \<Rightarrow> Err (framing ''data'')),
      cd_to_vec = (\<lambda>v x. if x = sample_baseline (fl_main_snapshot x) \<and> fl_main_snapshot x \<noteq> ''?''
        then Ok (CHR ''1'' # fl_main_snapshot x) else Err (framing ''unsupported''))\<rparr>"

lemma sample_codecs_roundtrip [simp]: "codec_roundtrips sample_transient_codec" "codec_roundtrips sample_standing_codec"
  by (auto simp: codec_roundtrips_def sample_transient_codec_def sample_standing_codec_def split: if_splits)

definition sample_mac :: "sample_rules mac_env" where
  "sample_mac = \<lparr>me_pfctl = sample_pfctl, me_fs = (\<lambda>_. no_faults), me_transient = sample_transient_codec,
     me_standing = sample_standing_codec, me_json_token = (\<lambda>_. None)\<rparr>"

definition sample_server :: ip_addr where
  "sample_server = V4 0x01010101"

lemma sample_mac_ok [simp]:
  "pf_laws sample_mac sample_view" "codec_roundtrips (me_transient sample_mac)" "codec_roundtrips (me_standing sample_mac)"
  "sample_mac\<lparr>me_fs := \<lambda>_. no_faults\<rparr> = sample_mac"
  by (simp_all add: sample_laws sample_mac_def)

text \<open>A host behind the standing cover, engaged from a fresh one.\<close>

lemma sample_reach: "pf_reach sample_mac sample_view (mc_pf s, mc_dir s)"
  if "s = snd (pf_engage_lockdown sample_mac sample_server ''utun4'' (starting SampleOpen empty_world))" for s
proof -
  have fresh: "pf_reach sample_mac sample_view (SampleOpen, empty_world)"
    by (rule pf_reach.fresh) (simp, code_simp)
  have "(mc_pf s, mc_dir s) \<in> set (mc_seen s)" unfolding that by code_simp
  with that have "(mc_pf s, mc_dir s) \<in>
      set (mc_seen (run_pf_op (sample_mac\<lparr>me_fs := \<lambda>_. no_faults\<rparr>) (EngageStanding sample_server ''utun4'') (starting SampleOpen empty_world)))"
    by simp
  moreover have "pf_op_allowed (sample_mac\<lparr>me_fs := \<lambda>_. no_faults\<rparr>) sample_view (pv_policy sample_view SampleOpen) (EngageStanding sample_server ''utun4'')"
    by (simp add: capturable_def)
  ultimately show ?thesis using pf_reach.ran [OF fresh] by blast
qed

section \<open>Properties\<close>

text \<open>
  C21. A blocked Mac has the record that unblocks it. After any history of engages, drops, boots
  and releases, whichever file calls fail and whichever call a crash follows: if the rules in force
  are a cover's, a record of a cover is on disk, for the standing cover its own; and a readable
  record of a captured baseline restores rules that are no cover. The standing cover must be
  engaged over a host that is not behind the transient one and whose label listing answers when it
  is already behind the standing one, and the boot's probe must read the standing record without
  an I/O failure.
\<close>

theorem blocked_host_is_on_record:
  assumes "pf_reach E V (p, w)" "pf_laws E V" "codec_roundtrips (me_transient E)" "codec_roundtrips (me_standing E)"
  shows "(covered V (pv_policy V p) \<longrightarrow> transient_recorded E w \<or> standing_recorded E w) \<and>
    (standing_policy V (pv_policy V p) \<longrightarrow> standing_recorded E w) \<and>
    (\<forall>st n. clean_read (lockdown_pf_file (me_standing E)) w = Some (Current st n) \<and> fl_main_snapshot_captured st \<longrightarrow>
      \<not> covered V (pv_meaning V (build_lockdown_restore_ruleset (fl_nat_snapshot st) (fl_main_snapshot st))))"
  using reach_on_record [OF assms] by (auto simp: on_record_def covered_def restores_host_def)

theorem blocked_host_is_on_record_witness:
  "(let s = snd (pf_engage_lockdown sample_mac sample_server ''utun4'' (starting SampleOpen empty_world))
    in mc_pf s = SampleStanding \<and> standing_recorded sample_mac (mc_dir s))"
proof -
  let ?s = "snd (pf_engage_lockdown sample_mac sample_server ''utun4'' (starting SampleOpen empty_world))"
  have "mc_pf ?s = SampleStanding" by code_simp
  with blocked_host_is_on_record [OF sample_reach [OF refl]] show ?thesis by simp
qed

text \<open>
  C22. A release that answers success opens the Mac: from any state such a history leaves, whichever
  file calls of the release fail, the rules in force afterwards are no cover's.
\<close>

theorem pf_release_opens:
  assumes "pf_reach E V (p, w)" "pf_laws E V" "codec_roundtrips (me_transient E)" "codec_roundtrips (me_standing E)"
    "pf_release_all (E\<lparr>me_fs := F\<rparr>) (starting p w) = (out, s)" "so_failure out = None"
  shows "\<not> covered V (pv_policy V (mc_pf s))"
  using release_all_effect(2) [OF _ _ assms(5,6)] reach_on_record [OF assms(1-4)] assms(2) by simp

theorem pf_release_opens_witness:
  "(let s = snd (pf_engage_lockdown sample_mac sample_server ''utun4'' (starting SampleOpen empty_world))
    in mc_pf s = SampleStanding \<and>
       mc_pf (snd (pf_release_all (sample_mac\<lparr>me_fs := \<lambda>_. no_faults\<lparr>f_read := Some (FaultOther 5)\<rparr>\<rparr>)
         (starting (mc_pf s) (mc_dir s)))) = SampleOpen)"
proof -
  let ?s = "snd (pf_engage_lockdown sample_mac sample_server ''utun4'' (starting SampleOpen empty_world))"
  let ?r = "pf_release_all (sample_mac\<lparr>me_fs := \<lambda>_. no_faults\<lparr>f_read := Some (FaultOther 5)\<rparr>\<rparr>) (starting (mc_pf ?s) (mc_dir ?s))"
  have "mc_pf ?s = SampleStanding" "so_failure (fst ?r) = None" by code_simp+
  with pf_release_opens [OF sample_reach [OF refl] sample_mac_ok(1-3), of _ "fst ?r" "snd ?r"] show ?thesis
    by (simp add: Let_def)
qed

section \<open>A cover captured as the host's policy\<close>

text \<open>
  Where the label listing does not answer and the record cannot be used, an engage over a standing
  cover records that cover as the host's own policy. The disengage then answers success, with the
  cover back in force and its record gone.
\<close>

definition flaky_mac :: "sample_rules mac_env" where
  "flaky_mac = sample_mac\<lparr>me_pfctl := (\<lambda>args stdin p. if args = [''-s'', ''labels''] then (None, p) else sample_pfctl args stdin p)\<rparr>"

definition unusable_record_world :: world where
  "unusable_record_world = \<lparr>w_dir = Some [(LOCKDOWN_PF_FILE_NAME, Regular ''1?'')], w_gen = 0\<rparr>"

lemma self_captured_cover_survives_disengage:
  "(let (r, s) = pf_engage_lockdown flaky_mac sample_server ''utun4'' (starting SampleStanding unusable_record_world);
        (r', s') = pf_disengage_lockdown flaky_mac s
    in r = Ok ''7'' \<and> r' = Ok () \<and> mc_pf s' = SampleStanding \<and> \<not> standing_recorded flaky_mac (mc_dir s'))"
  by code_simp

end
