(* ===== verification/Dns_Bootstrap.thy ===== *)
theory Dns_Bootstrap
  imports Dns_Forwarder Plugin_Directives
begin

text \<open>
  The resolution of the proxy server before the tunnel exists, crates/bridge/src/dns/bootstrap.rs,
  and the start-time gate over the forwarder, crates/bridge/src/dns/self\_test.rs, with the verdicts
  of crates/bridge/src/reachability.rs that replace its report.

  The hickory-proto crate (building a query, parsing a reply) and the operating system's resolver
  are parameters; \<open>boot_call\<close>s record which resolver was asked what, in order. A query may be answered
  by everything asked before it.
\<close>

section \<open>Bootstrap: errors, queries and replies\<close>

datatype bootstrap_error =
    InvalidName
  | BootCertificateRejected
  | MalformedReply
  | NoAnswer
  | BootTransport
  | BootTimeout
  | BootUnreachable

fun boot_rank :: "bootstrap_error \<Rightarrow> nat" where
  "boot_rank InvalidName = 7"
| "boot_rank BootCertificateRejected = 6"
| "boot_rank MalformedReply = 5"
| "boot_rank NoAnswer = 4"
| "boot_rank BootTransport = 3"
| "boot_rank BootTimeout = 2"
| "boot_rank BootUnreachable = 1"

fun classify_cause :: "upstream_cause \<Rightarrow> bootstrap_error" where
  "classify_cause CauseCertificateRejected = BootCertificateRejected"
| "classify_cause CauseUnreachable = BootUnreachable"
| "classify_cause CauseConnectTimeout = BootTimeout"
| "classify_cause CauseExchangeTimeout = BootTimeout"
| "classify_cause CauseTlsFailed = BootTransport"
| "classify_cause CauseBadResponse = BootTransport"
| "classify_cause CauseIo = BootTransport"

fun fold_worst :: "bootstrap_error option \<Rightarrow> bootstrap_error \<Rightarrow> bootstrap_error option" where
  "fold_worst None e = Some e"
| "fold_worst (Some w) e = (if boot_rank e > boot_rank w then Some e else Some w)"

datatype record_type = RecordA | RecordAAAA

text \<open>
  hickory-proto: the wire form of a recursive query for a name, \<open>None\<close> when the name or the message is
  rejected, and a parsed reply, the address of each of its answers (if it is an address record) and
  whether its code is NXDOMAIN.
\<close>

record hickory =
  hk_query :: "bytes \<Rightarrow> u16 \<Rightarrow> record_type \<Rightarrow> bytes option"
  hk_parse :: "bytes \<Rightarrow> (ip_addr option list \<times> bool) option"

definition build_query :: "hickory \<Rightarrow> bytes \<Rightarrow> u16 \<Rightarrow> record_type \<Rightarrow> (bootstrap_error, bytes) result" where
  "build_query H name tx_id rtype =
     (case hk_query H (trim_end_char (CHR ''.'') name @ ''.'') tx_id rtype of
        Some wire \<Rightarrow> Ok wire
      | None \<Rightarrow> Err InvalidName)"

record dns_reply =
  dr_addrs :: "ip_addr list"
  dr_name_missing :: bool

definition parse_addrs :: "hickory \<Rightarrow> bytes \<Rightarrow> dns_reply option" where
  "parse_addrs H reply =
     map_option (\<lambda>(answers, nxdomain). \<lparr>dr_addrs = List.map_filter id answers, dr_name_missing = nxdomain\<rparr>)
       (hk_parse H reply)"

datatype boot_call = DohQuery ip_addr bytes | OsLookup bytes

type_synonym querier = "boot_call list \<Rightarrow> ip_addr \<Rightarrow> bytes \<Rightarrow> (upstream_cause, bytes) result"

definition single_resolver_cfg :: "ip_addr \<Rightarrow> dns_config" where
  "single_resolver_cfg server =
     \<lparr>dns_enabled = True, dns_servers = [server], dns_protocol = Https, allow_insecure_bootstrap = False\<rparr>"

definition single_round_trip :: "network \<Rightarrow> forwarder \<Rightarrow> bytes \<Rightarrow> (upstream_cause, bytes) result" where
  "single_round_trip net fwd wire =
     (case fst (try_forward net wire DIRECT_UPSTREAM_TIMEOUT fwd) of
        Ok reply \<Rightarrow> Ok reply
      | Err (Upstream c) \<Rightarrow> Err c
      | Err _ \<Rightarrow> Err CauseUnreachable)"

text \<open>\<^verbatim>\<open>ForwarderQuerier\<close>: a new forwarder for each query, over the direct network.\<close>

definition forwarder_querier :: "(boot_call list \<Rightarrow> network) \<Rightarrow> querier" where
  "forwarder_querier direct calls server wire =
     single_round_trip (direct calls) (forwarder_new (single_resolver_cfg server) True) wire"

section \<open>Bootstrap: resolving\<close>

datatype leg_outcome = LegAddress ip_addr | LegAnswered bool | LegFailed bootstrap_error

definition run_leg ::
  "hickory \<Rightarrow> querier \<Rightarrow> ip_addr \<Rightarrow> bytes \<Rightarrow> (ip_addr \<Rightarrow> bool) \<Rightarrow> boot_call list \<Rightarrow> leg_outcome \<times> boot_call list" where
  "run_leg H Q server wire want calls =
     (case Q calls server wire of
        Ok reply \<Rightarrow>
          (case parse_addrs H reply of
             Some parsed \<Rightarrow>
               (case find want (dr_addrs parsed) of
                  Some ip \<Rightarrow> LegAddress ip
                | None \<Rightarrow> LegAnswered (dr_name_missing parsed))
           | None \<Rightarrow> LegFailed MalformedReply)
      | Err c \<Rightarrow> LegFailed (classify_cause c),
      calls @ [DohQuery server wire])"

record bootstrapped =
  bt_server_ip :: ip_addr
  bt_via :: pin_source

record resolve_state =
  rv_v6_fallback :: "bootstrapped option"
  rv_reachable :: "ip_addr option"
  rv_worst :: "bootstrap_error option"
  rv_calls :: "boot_call list"

definition note_reachable :: "ip_addr \<Rightarrow> resolve_state \<Rightarrow> resolve_state" where
  "note_reachable server v =
     (if rv_reachable v = None then v\<lparr>rv_reachable := Some server\<rparr> else v)"

definition note_failure :: "bootstrap_error \<Rightarrow> resolve_state \<Rightarrow> resolve_state" where
  "note_failure e v = v\<lparr>rv_worst := fold_worst (rv_worst v) e\<rparr>"

text \<open>One round of the loop: the address its A leg found, if any, and the state after both legs.\<close>

definition ask_a ::
  "hickory \<Rightarrow> querier \<Rightarrow> bytes \<Rightarrow> ip_addr \<Rightarrow> resolve_state \<Rightarrow> bootstrapped option \<times> bool \<times> resolve_state" where
  "ask_a H Q a_query server v =
     (let (leg, calls) = run_leg H Q server a_query is_ipv4 (rv_calls v); v = v\<lparr>rv_calls := calls\<rparr>
      in case leg of
           LegAddress ip \<Rightarrow> (Some \<lparr>bt_server_ip = ip, bt_via = Answered server\<rparr>, False, v)
         | LegAnswered name_missing \<Rightarrow>
             (None, True, if name_missing then note_failure NoAnswer (note_reachable server v) else note_reachable server v)
         | LegFailed e \<Rightarrow> (None, False, note_failure e v))"

definition ask_aaaa :: "hickory \<Rightarrow> querier \<Rightarrow> bytes \<Rightarrow> ip_addr \<Rightarrow> bool \<Rightarrow> resolve_state \<Rightarrow> resolve_state" where
  "ask_aaaa H Q aaaa_query server a_answered v =
     (if rv_v6_fallback v = None then
        (let (leg, calls) = run_leg H Q server aaaa_query (\<lambda>ip. \<not> is_ipv4 ip) (rv_calls v); v = v\<lparr>rv_calls := calls\<rparr>
         in case leg of
              LegAddress ip \<Rightarrow> v\<lparr>rv_v6_fallback := Some \<lparr>bt_server_ip = ip, bt_via = Answered server\<rparr>\<rparr>
            | LegAnswered name_missing \<Rightarrow>
                (if a_answered \<or> name_missing then note_failure NoAnswer (note_reachable server v)
                 else note_reachable server v)
            | LegFailed e \<Rightarrow> note_failure e v)
      else v)"

fun ask_servers ::
  "hickory \<Rightarrow> querier \<Rightarrow> bytes \<Rightarrow> bytes \<Rightarrow> ip_addr list \<Rightarrow> resolve_state \<Rightarrow> bootstrapped option \<times> resolve_state" where
  "ask_servers H Q a_query aaaa_query [] v = (None, v)"
| "ask_servers H Q a_query aaaa_query (server # rest) v =
     (case ask_a H Q a_query server v of
        (Some b, _, v) \<Rightarrow> (Some b, v)
      | (None, a_answered, v) \<Rightarrow>
          ask_servers H Q a_query aaaa_query rest (ask_aaaa H Q aaaa_query server a_answered v))"

definition insecure_fallback ::
  "(bytes \<Rightarrow> ip_addr list option) \<Rightarrow> bytes \<Rightarrow> bootstrap_error \<Rightarrow> resolve_state \<Rightarrow> (bootstrap_error, bootstrapped) result" where
  "insecure_fallback os host failure v =
     (case os host of
        None \<Rightarrow> Err failure
      | Some addrs \<Rightarrow>
          (let via = (case rv_reachable v of Some r \<Rightarrow> Answered r | None \<Rightarrow> SecureBootstrapFailed)
           in case (case find is_ipv4 addrs of Some ip \<Rightarrow> Some ip | None \<Rightarrow> (case addrs of ip # _ \<Rightarrow> Some ip | [] \<Rightarrow> None)) of
                Some ip \<Rightarrow> Ok \<lparr>bt_server_ip = ip, bt_via = via\<rparr>
              | None \<Rightarrow> Err failure))"

definition resolve_via_doh_with ::
  "hickory \<Rightarrow> querier \<Rightarrow> (bytes \<Rightarrow> ip_addr list option) \<Rightarrow> bytes \<Rightarrow> dns_config \<Rightarrow>
     (bootstrap_error, bootstrapped) result \<times> boot_call list" where
  "resolve_via_doh_with H Q os host dns =
     (case ip_addr_from_str host of
        Some ip \<Rightarrow> (Ok \<lparr>bt_server_ip = ip, bt_via = NoQueryNeeded\<rparr>, [])
      | None \<Rightarrow>
          (case build_query H host 1 RecordA of
             Err e \<Rightarrow> (Err e, [])
           | Ok a_query \<Rightarrow>
               (case build_query H host 2 RecordAAAA of
                  Err e \<Rightarrow> (Err e, [])
                | Ok aaaa_query \<Rightarrow>
                    (case ask_servers H Q a_query aaaa_query (dns_servers dns)
                            \<lparr>rv_v6_fallback = None, rv_reachable = None, rv_worst = None, rv_calls = []\<rparr> of
                       (Some b, v) \<Rightarrow> (Ok b, rv_calls v)
                     | (None, v) \<Rightarrow>
                         (case rv_v6_fallback v of
                            Some b \<Rightarrow> (Ok b, rv_calls v)
                          | None \<Rightarrow>
                              (let failure = (case rv_worst v of Some e \<Rightarrow> e | None \<Rightarrow> NoAnswer)
                               in if \<not> allow_insecure_bootstrap dns then (Err failure, rv_calls v)
                                  else (insecure_fallback os host failure v, rv_calls v @ [OsLookup host])))))))"

definition resolve_via_doh ::
  "hickory \<Rightarrow> (boot_call list \<Rightarrow> network) \<Rightarrow> (bytes \<Rightarrow> ip_addr list option) \<Rightarrow> bytes \<Rightarrow> dns_config \<Rightarrow>
     (bootstrap_error, bootstrapped) result \<times> boot_call list" where
  "resolve_via_doh H direct os host dns = resolve_via_doh_with H (forwarder_querier direct) os host dns"

fun handoff_host :: "ip_addr \<Rightarrow> bytes" where
  "handoff_host (V4 v4) = display_v4 v4"
| "handoff_host (V6 v6) = ''['' @ display_v6 v6 @ '']''"

section \<open>The self-test gate\<close>

datatype self_test_reason =
    NoConnection
  | TunnelSilent
  | TunnelSetupPending
  | InconclusiveTransport string
  | OtherReason string

record gate_observed =
  ob_answered :: bool
  ob_dialled :: bool
  ob_moved :: upstream_activity

definition classify_failure :: "gate_observed \<Rightarrow> string \<Rightarrow> self_test_reason" where
  "classify_failure ob last_err =
     (if \<not> ob_dialled ob then OtherReason last_err
      else if ob_answered ob then OtherReason last_err
      else if ua_read (ob_moved ob) > 0 then OtherReason ''a resolver responded, but the exchange failed''
      else if ua_connects (ob_moved ob) > 0 then TunnelSilent
      else if ua_associates (ob_moved ob) > 0 then InconclusiveTransport last_err
      else if ua_connect_timeouts (ob_moved ob) > 0 then TunnelSetupPending
      else NoConnection)"

fun cause_str :: "upstream_cause \<Rightarrow> string" where
  "cause_str CauseUnreachable = ''unreachable''"
| "cause_str CauseCertificateRejected = ''certificate-rejected''"
| "cause_str CauseTlsFailed = ''tls-failed''"
| "cause_str CauseBadResponse = ''bad-response''"
| "cause_str CauseIo = ''io''"
| "cause_str CauseConnectTimeout = ''connect-timeout''"
| "cause_str CauseExchangeTimeout = ''exchange-timeout''"

definition describe_upstream_failure :: "upstream_cause \<Rightarrow> string" where
  "describe_upstream_failure c =
     (if c \<in> {CauseBadResponse, CauseCertificateRejected, CauseTlsFailed}
      then ''a resolver responded, but the exchange failed ('' @ cause_str c @ '')''
      else if c = CauseConnectTimeout
      then ''no connection to a resolver could be opened through the tunnel ('' @ cause_str c @ '')''
      else ''no resolver answered through the tunnel ('' @ cause_str c @ '')'')"

definition is_dns_reply_ok :: "bytes \<Rightarrow> bool" where
  "is_dns_reply_ok reply \<longleftrightarrow> 12 \<le> length reply \<and> byte_at reply 3 AND 0x0F \<noteq> 2"

definition sample_self_test_query :: bytes where
  "sample_self_test_query =
     to_be_bytes 1 @ [CHR 0x01, CHR 0x00] @ [CHR 0x00, CHR 0x01] @ replicate 6 (CHR 0x00) @
     [CHR 0x07] @ ''example'' @ [CHR 0x03] @ ''com'' @ [CHR 0x00] @ [CHR 0x00, CHR 0x01] @ [CHR 0x00, CHR 0x01]"

datatype self_test_outcome =
    GateOk nat
  | GateFailed nat u64 self_test_reason
  | GateCancelled

text \<open>
  \<open>None\<close> is the \<^verbatim>\<open>unreachable!\<close>, \<open>cancelled\<close> that the token fired before the walk ended (its future
  is dropped then), \<open>elapsed\<close> the reading of the gate's clock.
\<close>

definition run_forwarder_self_test ::
  "network \<Rightarrow> bool \<Rightarrow> u64 \<Rightarrow> ip_addr list \<Rightarrow> forwarder \<Rightarrow> self_test_outcome option" where
  "run_forwarder_self_test net cancelled elapsed servers fwd =
     (if servers = [] then Some (GateOk 0)
      else if cancelled then Some GateCancelled
      else
        (let before = activity fwd;
             (result, fwd) = try_forward net sample_self_test_query TUNNEL_QUERY_TIMEOUT fwd;
             moved = since (activity fwd) before
         in case result of
              Ok reply \<Rightarrow>
                if is_dns_reply_ok reply then Some (GateOk 1)
                else
                  (let last_err = (if length reply < 12
                                   then ''a resolver answered with a malformed reply ('' @
                                        show_radix 10 (int (length reply)) @ '' bytes)''
                                   else ''a resolver answered with SERVFAIL'')
                   in Some (GateFailed 1 elapsed
                        (classify_failure \<lparr>ob_answered = True, ob_dialled = True, ob_moved = moved\<rparr> last_err)))
            | Err MalformedQuery \<Rightarrow> None
            | Err NoUpstream \<Rightarrow>
                Some (GateFailed 1 elapsed
                  (classify_failure \<lparr>ob_answered = False, ob_dialled = False, ob_moved = moved\<rparr>
                     ''no configured DNS resolver could be used''))
            | Err (Upstream c) \<Rightarrow>
                Some (GateFailed 1 elapsed
                  (classify_failure \<lparr>ob_answered = False, ob_dialled = True, ob_moved = moved\<rparr>
                     (describe_upstream_failure c)))))"

datatype local_dns_error = NoDnsServersConfigured

definition build_local_dns :: "dns_config \<Rightarrow> bool \<Rightarrow> (local_dns_error, forwarder option) result" where
  "build_local_dns dns_cfg ipv6_bypass_available =
     (if \<not> dns_enabled dns_cfg then Ok None
      else if dns_servers dns_cfg = [] then Err NoDnsServersConfigured
      else Ok (Some (forwarder_new dns_cfg ipv6_bypass_available)))"

datatype reachability_verdict = Reachable | DnsFailed | TcpRefused | TcpTimeout | Blocked | InconclusiveVerdict

definition NETWORK_BLOCKED_MESSAGE :: string where
  "NETWORK_BLOCKED_MESSAGE =
     ''The network is blocking the connection to this server '' @ [CHR 0xE2, CHR 0x80, CHR 0x94] @
     '' the handshake was reset or got no response. This usually means a firewall or censorship; '' @
     ''try a different server.''"

fun user_message :: "reachability_verdict \<Rightarrow> string option" where
  "user_message Blocked = Some NETWORK_BLOCKED_MESSAGE"
| "user_message TcpRefused = Some ''The server refused the connection.''"
| "user_message TcpTimeout = Some ''The server did not respond (connection timed out).''"
| "user_message _ = None"

datatype gate_error =
    NetworkBlocked
  | NoTunnelConnection nat u64
  | TunnelSilentError nat u64
  | TunnelSetupIncomplete nat u64
  | ForwarderSelfTestFailed string nat u64

text \<open>\<open>None\<close> is the panic of \<^verbatim>\<open>expect\<close> on a verdict without a message.\<close>

definition self_test_error_for ::
  "reachability_verdict option \<Rightarrow> nat \<Rightarrow> u64 \<Rightarrow> self_test_reason \<Rightarrow> gate_error option" where
  "self_test_error_for verdict attempts elapsed_ms reason =
     (if verdict = Some Blocked then Some NetworkBlocked
      else if verdict \<in> {Some TcpRefused, Some TcpTimeout}
      then map_option (\<lambda>m. ForwarderSelfTestFailed m attempts elapsed_ms) (Option.bind verdict user_message)
      else Some
        (case reason of
           NoConnection \<Rightarrow> NoTunnelConnection attempts elapsed_ms
         | TunnelSilent \<Rightarrow> TunnelSilentError attempts elapsed_ms
         | TunnelSetupPending \<Rightarrow> TunnelSetupIncomplete attempts elapsed_ms
         | InconclusiveTransport r \<Rightarrow> ForwarderSelfTestFailed r attempts elapsed_ms
         | OtherReason r \<Rightarrow> ForwarderSelfTestFailed r attempts elapsed_ms))"

definition implicates_plugin_transport :: "self_test_reason \<Rightarrow> reachability_verdict option \<Rightarrow> bool" where
  "implicates_plugin_transport reason verdict \<longleftrightarrow>
     (case reason of OtherReason _ \<Rightarrow> False | _ \<Rightarrow> True) \<and>
     verdict \<notin> {Some Blocked, Some TcpRefused, Some TcpTimeout}"

end
