(* ===== verification/Dns_Safety.thy ===== *)
theory Dns_Safety
  imports Dns_Forwarder
begin

text \<open>
  What the DNS forwarder guarantees: what an attempt reports, the order of the walk, the bound on a
  reply, the SERVFAIL it makes up, and the log throttle.
\<close>

section \<open>A network for the witnesses\<close>

text \<open>\<^verbatim>\<open>8.8.8.8\<close> never completes a connect; every other server answers over TCP with the query it was sent.\<close>

definition echo_peer :: peer where
  "echo_peer =
     \<lparr>peer_write = (\<lambda>_. Ready ()), peer_flush = (\<lambda>_. Ready ()),
      peer_sends = (\<lambda>request. \<lparr>in_bytes = request, in_end = EndOfFile\<rparr>)\<rparr>"

definition sample_net :: network where
  "sample_net past target query budget =
     \<lparr>an_sni_ok = (\<lambda>_. True),
      an_connect = (if sa_ip target = V4 0x08080808 then Outstanding else Ready ()),
      an_socks5_ms = 12, an_tls = (\<lambda>_. Ready ()), an_tls_ms = 30, an_tls_so_far = 0, an_peer = echo_peer,
      an_send = (\<lambda>_. Ready ()), an_recv = (\<lambda>_. Outstanding), an_read = 40, an_written = 40,
      an_elapsed_ms = 50, an_logged_at = 7\<rparr>"

definition sample_query :: bytes where
  "sample_query = replicate 12 (CHR 0x01)"

definition sample_forwarder :: forwarder where
  "sample_forwarder =
     forwarder_new
       \<lparr>dns_enabled = True, dns_servers = [V6 1, V4 0x08080808, V4 0x01010101], dns_protocol = PlainTcp,
        allow_insecure_bootstrap = False\<rparr> False"

section \<open>One attempt\<close>

lemma awaiting_case:
  "awaiting layer m p k =
     (case m of Ready x \<Rightarrow> k x | IoFailed e \<Rightarrow> (p, Some (Err (upstream_err_new layer e))) | Outstanding \<Rightarrow> (p, None))"
  by (cases m) simp_all

lemmas transport_defs =
  run_transport_def forward_udp_def forward_tcp_def forward_tls_def forward_https_def awaiting_case Let_def

lemma transport_reply_bound:
  "run_transport protocol N ip q = (p, Some (Ok r)) \<Longrightarrow> int (length r) \<le> MAX_REPLY_SIZE"
  by (auto simp: transport_defs MAX_REPLY_SIZE_def
      split: dns_protocol.splits io_reply.splits sum.splits prod.splits
      dest: exchange_bound [unfolded MAX_REPLY_SIZE_def] parse_http_bound [unfolded MAX_REPLY_SIZE_def])

lemma https_target_ok: "(\<And>n. an_sni_ok N n) \<Longrightarrow> provider_lookup ip = Some p \<Longrightarrow> starts_with (doh_url p) ''https://'' \<Longrightarrow>
    \<exists>t. https_target_for N ip = Ok t"
  by (auto simp: https_target_for_def split_https_url_def Let_def split: option.splits)

lemma table_urls: "provider_lookup ip = Some p \<Longrightarrow> starts_with (doh_url p) ''https://''"
  by (auto simp: provider_lookup_def PROVIDER_TABLE_def starts_with_def CLOUDFLARE_def GOOGLE_def QUAD9_def OPENDNS_def
      ADGUARD_def split: if_splits)

lemma https_target_total: "(\<And>n. an_sni_ok N n) \<Longrightarrow> \<exists>t. https_target_for N ip = Ok t"
  using https_target_ok [OF _ _ table_urls, of N ip]
  by (cases "provider_lookup ip") (auto simp: https_target_for_def Let_def)

lemma tls_name_total: "(\<And>n. an_sni_ok N n) \<Longrightarrow> \<exists>t. tls_server_name_for N ip = Ok t"
  by (auto simp: tls_server_name_for_def split: option.splits)

lemma transport_established:
  assumes "\<And>n. an_sni_ok N n" "run_transport protocol N ip q = (p, out)"
  shows "as_stream p =
      (if an_connect N = Ready () \<and> protocol \<noteq> PlainUdp then Some (an_read N, an_written N) else None)"
    "as_datagram p =
      (if an_connect N = Ready () \<and> protocol = PlainUdp then Some (an_read N, an_written N) else None)"
    "as_socks5_ms p \<noteq> None \<longleftrightarrow> an_connect N = Ready () \<and> protocol \<noteq> PlainUdp"
  using assms(2) https_target_total [OF assms(1), of ip] tls_name_total [OF assms(1), of ip]
  by (auto simp: transport_defs probe_default_def probe_connected_def probe_associated_def
      split: dns_protocol.splits io_reply.splits sum.splits prod.splits)

lemma cause_applied:
  "ue_udp_sent e = None \<Longrightarrow>
     cause (probe_apply N p e) =
       (if ue_layer e = TimeoutLayer
        then if as_socks5_ms p \<noteq> None \<or> as_datagram p \<noteq> None then CauseExchangeTimeout else CauseConnectTimeout
        else cause e)"
  by (auto simp: probe_apply_def cause_def Let_def split: option.splits upstream_layer.splits prod.splits)

lemma cause_timeout: "ue_layer e \<noteq> TimeoutLayer \<Longrightarrow> cause e \<noteq> CauseConnectTimeout"
  by (auto simp: cause_def split: upstream_layer.splits option.splits)

lemma cause_unreachable: "cause e = CauseUnreachable \<longleftrightarrow> ue_layer e = ConnectLayer"
  by (auto simp: cause_def split: upstream_layer.splits option.splits)

lemma apply_decorates [simp]: "ue_decorated (probe_apply N p e)"
  by (auto simp: probe_apply_def Let_def split: option.splits prod.splits)

lemma cause_stamped [simp]: "cause (e\<lparr>ue_elapsed_ms := a, ue_budget_ms := b\<rparr>) = cause e"
  by (simp add: cause_def split: upstream_layer.splits)

lemma transport_error:
  assumes "\<And>n. an_sni_ok N n" "run_transport protocol N ip q = (p, Some (Err e))"
  shows "ue_udp_sent e = None" "ue_layer e \<noteq> TimeoutLayer"
    "ue_layer e = ConnectLayer \<longleftrightarrow> (\<exists>x. an_connect N = IoFailed x)"
    "cause e = CauseCertificateRejected \<Longrightarrow>
       protocol \<in> {Tls, Https} \<and> an_connect N = Ready () \<and>
       (\<exists>n x r. an_tls N n = IoFailed x \<and> first_rustls_error x = Some r \<and> is_trust_chain_rejection r)"
    "an_connect N \<noteq> Outstanding"
  using assms(2) https_target_total [OF assms(1), of ip] tls_name_total [OF assms(1), of ip]
  by (auto simp: transport_defs upstream_err_new_def cause_def
      split: dns_protocol.splits io_reply.splits sum.splits prod.splits option.splits if_splits) blast+

lemma transport_waiting:
  assumes "\<And>n. an_sni_ok N n" "run_transport protocol N ip q = (p, None)"
  shows "an_connect N = Outstanding \<or> an_connect N = Ready ()"
  using assms(2) https_target_total [OF assms(1), of ip] tls_name_total [OF assms(1), of ip]
  by (auto simp: transport_defs split: dns_protocol.splits io_reply.splits sum.splits prod.splits)

lemma transport_answer: "run_transport protocol N ip q = (p, Some (Ok r)) \<Longrightarrow> an_connect N = Ready ()"
  by (auto simp: transport_defs split: dns_protocol.splits io_reply.splits sum.splits prod.splits)


lemma forward_one_evidence:
  assumes "N = net (fw_attempts fw) target q b" "\<forall>n. an_sni_ok N n" "forward_one net target q b fw = (r, fw')"
  shows "fw_connects fw' =
      fw_connects fw + of_bool (an_connect N = Ready () \<and> dns_protocol (fw_config fw) \<noteq> PlainUdp)"
    "fw_associates fw' =
      fw_associates fw + of_bool (an_connect N = Ready () \<and> dns_protocol (fw_config fw) = PlainUdp)"
    "fw_read fw' = fw_read fw + (if an_connect N = Ready () then an_read N else 0)"
    "fw_connect_timeouts fw' = fw_connect_timeouts fw + of_bool (an_connect N = Outstanding)"
    "\<And>e. r = Err e \<Longrightarrow>
       ue_decorated e \<and>
       (cause e = CauseConnectTimeout \<longleftrightarrow> an_connect N = Outstanding) \<and>
       (cause e = CauseUnreachable \<longleftrightarrow> (\<exists>x. an_connect N = IoFailed x)) \<and>
       (cause e = CauseCertificateRejected \<longrightarrow>
          dns_protocol (fw_config fw) \<in> {Tls, Https} \<and> an_connect N = Ready () \<and>
          (\<exists>n x c. an_tls N n = IoFailed x \<and> first_rustls_error x = Some c \<and> is_trust_chain_rejection c))"
proof -
  let ?P = "dns_protocol (fw_config fw)"
  obtain p out where t: "run_transport ?P N (sa_ip target) q = (p, out)" by fastforce
  have sni: "\<And>n. an_sni_ok N n" using assms(2) by blast
  note est = transport_established [OF sni t]
  define e where "e = (case out of Some (Err e) \<Rightarrow> e | _ \<Rightarrow> upstream_err_new TimeoutLayer io_error_new)"
  define e' where "e' = probe_apply N p (e\<lparr>ue_elapsed_ms := an_elapsed_ms N, ue_budget_ms := as_millis b\<rparr>)"
  have fw': "fw_connects fw' = fw_connects fw + of_bool (as_stream p \<noteq> None)"
    "fw_associates fw' = fw_associates fw + of_bool (as_datagram p \<noteq> None)"
    "fw_read fw' = fw_read fw + fst (probe_bytes p)"
    "r = (case out of Some (Ok reply) \<Rightarrow> Ok reply | _ \<Rightarrow> Err e')"
    "fw_connect_timeouts fw' = fw_connect_timeouts fw + of_bool (isl r \<and> cause e' = CauseConnectTimeout)"
    using assms(1,3) t unfolding forward_one_def e'_def e_def
    by (auto simp: Let_def split: prod.splits option.splits sum.splits)
  from fw'(1) est(1) show "fw_connects fw' =
      fw_connects fw + of_bool (an_connect N = Ready () \<and> ?P \<noteq> PlainUdp)" by simp
  from fw'(2) est(2) show "fw_associates fw' =
      fw_associates fw + of_bool (an_connect N = Ready () \<and> ?P = PlainUdp)" by simp
  from fw'(3) est(1,2) show "fw_read fw' = fw_read fw + (if an_connect N = Ready () then an_read N else 0)"
    by (simp add: probe_bytes_def)
  have verdict: "(cause e' = CauseConnectTimeout \<longleftrightarrow> an_connect N = Outstanding) \<and>
       (cause e' = CauseUnreachable \<longleftrightarrow> (\<exists>x. an_connect N = IoFailed x)) \<and>
       (cause e' = CauseCertificateRejected \<longrightarrow>
          ?P \<in> {Tls, Https} \<and> an_connect N = Ready () \<and>
          (\<exists>n x c. an_tls N n = IoFailed x \<and> first_rustls_error x = Some c \<and> is_trust_chain_rejection c))"
    if "isl r"
  proof (cases out)
    case None
    then have e: "e = upstream_err_new TimeoutLayer io_error_new" by (simp add: e_def)
    have "cause e' = (if an_connect N = Ready () then CauseExchangeTimeout else CauseConnectTimeout)"
      using est(2,3) by (auto simp: e'_def e cause_applied upstream_err_new_def)
    with transport_waiting [OF sni t [unfolded None]] show ?thesis by auto
  next
    case (Some o')
    with that fw'(4) obtain x where o': "o' = Err x" by (cases o') auto
    note err = transport_error [OF sni t [unfolded Some o']]
    have "e = x" by (simp add: e_def Some o')
    then have "cause e' = cause x" using err(1,2) by (simp add: e'_def cause_applied)
    moreover have "cause x = CauseUnreachable \<longleftrightarrow> (\<exists>y. an_connect N = IoFailed y)"
      using err(3) by (simp add: cause_unreachable)
    ultimately show ?thesis using err(2,4,5) cause_timeout [of x] by simp
  qed
  have ok: "an_connect N \<noteq> Outstanding" if "\<not> isl r"
    using that fw'(4) t transport_answer [of ?P N "sa_ip target" q p] by (auto split: option.splits sum.splits)
  from fw'(5) verdict ok show "fw_connect_timeouts fw' = fw_connect_timeouts fw + of_bool (an_connect N = Outstanding)"
    by (cases "isl r") auto
  show "ue_decorated x \<and>
       (cause x = CauseConnectTimeout \<longleftrightarrow> an_connect N = Outstanding) \<and>
       (cause x = CauseUnreachable \<longleftrightarrow> (\<exists>x. an_connect N = IoFailed x)) \<and>
       (cause x = CauseCertificateRejected \<longrightarrow>
          ?P \<in> {Tls, Https} \<and> an_connect N = Ready () \<and>
          (\<exists>n x c. an_tls N n = IoFailed x \<and> first_rustls_error x = Some c \<and> is_trust_chain_rejection c))"
    if "r = Err x" for x
  proof -
    have "x = e'" using that fw'(4) by (auto split: option.splits sum.splits)
    then show ?thesis using verdict that by (simp add: e'_def)
  qed
qed

text \<open>
  C25. What an attempt reports is what happened on the network. The counters of completed
  CONNECTs and UDP ASSOCIATEs rise exactly when the connector handed a stream or an association
  back, and the counter of pending connects exactly when the connect was outstanding as the
  budget fired. A failure's cause is read after the probe decorated it, is \<open>ConnectTimeout\<close>
  exactly for such a connect and \<open>Unreachable\<close> exactly for a connect that failed, and
  \<open>CertificateRejected\<close> is only reported when a TLS handshake over an established connection
  failed with a rejection of the trust chain.
\<close>

theorem attempt_evidence:
  assumes "N = net (fw_attempts fw) target q b" "\<forall>n. an_sni_ok N n" "forward_one net target q b fw = (r, fw')"
  shows "fw_connects fw' =
           fw_connects fw + of_bool (an_connect N = Ready () \<and> dns_protocol (fw_config fw) \<noteq> PlainUdp) \<and>
         fw_associates fw' =
           fw_associates fw + of_bool (an_connect N = Ready () \<and> dns_protocol (fw_config fw) = PlainUdp) \<and>
         fw_connect_timeouts fw' = fw_connect_timeouts fw + of_bool (an_connect N = Outstanding) \<and>
         (\<forall>e. r = Err e \<longrightarrow>
            ue_decorated e \<and>
            (cause e = CauseConnectTimeout \<longleftrightarrow> an_connect N = Outstanding) \<and>
            (cause e = CauseUnreachable \<longleftrightarrow> (\<exists>x. an_connect N = IoFailed x)) \<and>
            (cause e = CauseCertificateRejected \<longrightarrow>
               dns_protocol (fw_config fw) \<in> {Tls, Https} \<and> an_connect N = Ready () \<and>
               (\<exists>n x c. an_tls N n = IoFailed x \<and> first_rustls_error x = Some c \<and> is_trust_chain_rejection c)))"
  using forward_one_evidence [OF assms] by blast

theorem attempt_evidence_witness:
  "fw_connect_timeouts
     (snd (forward_one sample_net (target_for PlainTcp (V4 0x08080808)) sample_query 10 sample_forwarder)) = 1 \<and>
   fw_connects
     (snd (forward_one sample_net (target_for PlainTcp (V4 0x01010101)) sample_query 10 sample_forwarder)) = 1"
  using attempt_evidence [OF refl, where net = sample_net and fw = sample_forwarder and q = sample_query and b = 10 and
      target = "target_for PlainTcp (V4 0x08080808)", OF _ prod.collapse [symmetric]]
    attempt_evidence [OF refl, where net = sample_net and fw = sample_forwarder and q = sample_query and b = 10 and
      target = "target_for PlainTcp (V4 0x01010101)", OF _ prod.collapse [symmetric]]
  by (simp add: sample_net_def sample_forwarder_def forwarder_new_def target_for_def)

section \<open>The walk\<close>

text \<open>
  What each of a list of servers answers when it is tried after all the ones before it; an attempt
  reads nothing of the forwarder but its protocol and the attempts so far.
\<close>

definition attempt_at ::
  "network \<Rightarrow> bytes \<Rightarrow> int \<Rightarrow> forwarder \<Rightarrow> socket_addr list \<Rightarrow> ip_addr \<Rightarrow> (upstream_err, bytes) result" where
  "attempt_at net q b fw past server =
     fst (forward_one net (target_for (dns_protocol (fw_config fw)) server) q b (fw\<lparr>fw_attempts := past\<rparr>))"

fun outcomes ::
  "network \<Rightarrow> bytes \<Rightarrow> int \<Rightarrow> forwarder \<Rightarrow> socket_addr list \<Rightarrow> ip_addr list \<Rightarrow> (upstream_err, bytes) result list" where
  "outcomes net q b fw past [] = []"
| "outcomes net q b fw past (s # us) =
     attempt_at net q b fw past s # outcomes net q b fw (past @ [target_for (dns_protocol (fw_config fw)) s]) us"

definition usable_servers :: "forwarder \<Rightarrow> ip_addr list" where
  "usable_servers fw = filter (\<lambda>s. \<not> skips fw s) (dns_servers (fw_config fw))"

lemma length_outcomes [simp]: "length (outcomes net q b fw past us) = length us"
  by (induction us arbitrary: past) simp_all

lemma forward_one_frame [simp]:
  "fw_config (snd (forward_one net t q b fw)) = fw_config fw"
  "fw_ipv6_bypass (snd (forward_one net t q b fw)) = fw_ipv6_bypass fw"
  "fw_attempts (snd (forward_one net t q b fw)) = fw_attempts fw @ [t]"
  "fw_throttle (snd (forward_one net t q b fw)) = fw_throttle fw"
  "fw_log (snd (forward_one net t q b fw)) = fw_log fw"
  by (auto simp: forward_one_def Let_def split: prod.splits sum.splits)

lemma log_frame [simp]:
  "fw_config (log_upstream_failure now s e fw) = fw_config fw"
  "fw_ipv6_bypass (log_upstream_failure now s e fw) = fw_ipv6_bypass fw"
  "fw_attempts (log_upstream_failure now s e fw) = fw_attempts fw"
  "fw_config (log_ipv6_skip_once s fw) = fw_config fw"
  "fw_ipv6_bypass (log_ipv6_skip_once s fw) = fw_ipv6_bypass fw"
  "fw_attempts (log_ipv6_skip_once s fw) = fw_attempts fw"
  by (auto simp: log_upstream_failure_def log_ipv6_skip_once_def Let_def split: prod.splits throttle_decision.splits)

lemma forward_one_fst:
  assumes "N = net (fw_attempts fw) t q b" "run_transport (dns_protocol (fw_config fw)) N (sa_ip t) q = (p, out)"
  shows "fst (forward_one net t q b fw) =
     (case (case out of Some r \<Rightarrow> r | None \<Rightarrow> Err (upstream_err_new TimeoutLayer io_error_new)) of
        Ok reply \<Rightarrow> Ok reply
      | Err e \<Rightarrow> Err (probe_apply N p (e\<lparr>ue_elapsed_ms := an_elapsed_ms N, ue_budget_ms := as_millis b\<rparr>)))"
  using assms by (auto simp: forward_one_def Let_def case_prod_beta split: sum.split)

lemma attempt_at_cong: "fw_config fw' = fw_config fw \<Longrightarrow> attempt_at net q b fw' past s = attempt_at net q b fw past s"
proof -
  assume c: "fw_config fw' = fw_config fw"
  let ?t = "target_for (dns_protocol (fw_config fw)) s"
  obtain p out where "run_transport (dns_protocol (fw_config fw)) (net past ?t q b) (sa_ip ?t) q = (p, out)" by fastforce
  then show ?thesis
    using c forward_one_fst [where N = "net past ?t q b" and fw = "fw\<lparr>fw_attempts := past\<rparr>" and net = net and t = ?t and q = q and b = b]
      forward_one_fst [where N = "net past ?t q b" and fw = "fw'\<lparr>fw_attempts := past\<rparr>" and net = net and t = ?t and q = q and b = b]
    by (simp add: attempt_at_def)
qed

lemma outcomes_cong: "fw_config fw' = fw_config fw \<Longrightarrow> outcomes net q b fw' past us = outcomes net q b fw past us"
  by (induction us arbitrary: past) (simp_all add: attempt_at_cong [of fw' fw])

lemma forward_one_attempt_at:
  "fst (forward_one net (target_for (dns_protocol (fw_config fw)) s) q b fw) = attempt_at net q b fw (fw_attempts fw) s"
  by (simp add: attempt_at_def)

lemma skips_cong: "fw_ipv6_bypass fw' = fw_ipv6_bypass fw \<Longrightarrow> skips fw' = skips fw"
  by (simp add: skips_def fun_eq_iff)

definition err_of :: "(upstream_err, bytes) result \<Rightarrow> upstream_cause" where
  "err_of r = cause (projl r)"

definition walk_result ::
  "upstream_cause option \<Rightarrow> (upstream_err, bytes) result list \<Rightarrow> (forward_failure, bytes) result" where
  "walk_result worst rs =
     (case find (\<lambda>r. \<not> isl r) rs of
        Some r \<Rightarrow> Ok (projr r)
      | None \<Rightarrow> Err (case foldl fold_cause worst (map err_of rs) of Some c \<Rightarrow> Upstream c | None \<Rightarrow> NoUpstream))"

lemma walk_result_simps [simp]:
  "walk_result worst [] = Err (case worst of Some c \<Rightarrow> Upstream c | None \<Rightarrow> NoUpstream)"
  "walk_result worst (Ok reply # rs) = Ok reply"
  "walk_result worst (Err e # rs) = walk_result (fold_cause worst (cause e)) rs"
  by (simp_all add: walk_result_def err_of_def split: option.split)

lemma walk_servers_outcomes:
  "rs = outcomes net q b fw (fw_attempts fw) (filter (\<lambda>s. \<not> skips fw s) servers) \<Longrightarrow>
   walk_servers net q b servers worst fw = (res, fw') \<Longrightarrow>
     fw_attempts fw' = fw_attempts fw @
       take (Suc (length (takeWhile isl rs)))
         (map (target_for (dns_protocol (fw_config fw))) (filter (\<lambda>s. \<not> skips fw s) servers)) \<and>
     res = walk_result worst rs"
proof (induction servers arbitrary: worst fw rs)
  case Nil
  then show ?case by simp
next
  case (Cons s servers)
  let ?P = "dns_protocol (fw_config fw)"
  show ?case
  proof (cases "skips fw s")
    case True
    with Cons.prems(2) have w: "walk_servers net q b servers worst (log_ipv6_skip_once s fw) = (res, fw')" by simp
    have "filter (\<lambda>x. \<not> skips fw x) (s # servers) = filter (\<lambda>x. \<not> skips (log_ipv6_skip_once s fw) x) servers"
      "outcomes net q b fw = outcomes net q b (log_ipv6_skip_once s fw)"
      using True by (simp_all add: skips_cong [of "log_ipv6_skip_once s fw" fw] outcomes_cong [of "log_ipv6_skip_once s fw" fw] fun_eq_iff)
    then show ?thesis using Cons.IH [OF refl w] Cons.prems(1) by simp
  next
    case False
    define t where "t = target_for ?P s"
    define fw1 where "fw1 = snd (forward_one net t q b fw)"
    have f: "forward_one net t q b fw = (attempt_at net q b fw (fw_attempts fw) s, fw1)"
      by (simp add: fw1_def t_def attempt_at_def prod_eq_iff)
    have g [simp]: "fw_config fw1 = fw_config fw" "fw_ipv6_bypass fw1 = fw_ipv6_bypass fw" "fw_attempts fw1 = fw_attempts fw @ [t]"
      by (simp_all add: fw1_def)
    show ?thesis
    proof (cases "attempt_at net q b fw (fw_attempts fw) s")
      case (Inr reply)
      with Cons.prems(2) False f have "res = Ok reply" "fw' = fw1" by (auto simp: t_def Let_def)
      with Cons.prems(1) Inr False show ?thesis by (simp add: t_def)
    next
      case (Inl e)
      define fw2 where "fw2 = log_upstream_failure (an_logged_at (net (fw_attempts fw) t q b)) s e fw1"
      have h: "fw_config fw2 = fw_config fw" "fw_ipv6_bypass fw2 = fw_ipv6_bypass fw" "fw_attempts fw2 = fw_attempts fw @ [t]"
        by (simp_all add: fw2_def)
      have w: "walk_servers net q b servers (fold_cause worst (cause e)) fw2 = (res, fw')"
        using Cons.prems(2) False f Inl by (simp add: fw2_def t_def Let_def)
      have "skips fw2 = skips fw" "outcomes net q b fw2 = outcomes net q b fw"
        by (simp_all add: h skips_cong [of fw2 fw] outcomes_cong [of fw2 fw] fun_eq_iff)
      then show ?thesis using Cons.IH [OF refl w] Cons.prems(1) False Inl by (simp add: h err_of_def t_def)
    qed
  qed
qed

lemma foldl_fold_cause:
  "foldl fold_cause w cs = None \<Longrightarrow> w = None \<and> cs = []"
  "foldl fold_cause w cs = Some c \<Longrightarrow>
     c \<in> set_option w \<union> set cs \<and> (\<forall>x \<in> set_option w \<union> set cs. cause_rank x \<le> cause_rank c)"
proof (induction cs arbitrary: w)
  case (Cons x cs)
  {
    case 1
    then show ?case using Cons.IH(1) [of "fold_cause w x"] by (cases w) (auto split: if_splits)
  next
    case 2
    then show ?case using Cons.IH(2) [of "fold_cause w x"] by (cases w) (fastforce split: if_splits)+
  }
qed auto


lemma walk_result_Ok:
  "walk_result w rs = Ok reply \<Longrightarrow> \<exists>k < length rs. rs ! k = Ok reply \<and> (\<forall>i < k. isl (rs ! i))"
proof (induction rs arbitrary: w)
  case (Cons r rs)
  show ?case
  proof (cases r)
    case (Inl e)
    with Cons obtain k where "k < length rs" "rs ! k = Ok reply" "\<forall>i < k. isl (rs ! i)" by auto
    with Inl show ?thesis by (intro exI [of _ "Suc k"]) (auto simp: less_Suc_eq_0_disj)
  next
    case (Inr a)
    with Cons show ?thesis by auto
  qed
qed simp

lemma walk_result_Err:
  assumes "walk_result None rs = Err f"
  shows "list_all isl rs"
    "(rs = [] \<and> f = NoUpstream) \<or>
     (\<exists>c \<in> err_of ` set rs. f = Upstream c \<and> (\<forall>r \<in> set rs. cause_rank (err_of r) \<le> cause_rank c))"
proof -
  have none: "find (\<lambda>r. \<not> isl r) rs = None"
    and f: "f = (case foldl fold_cause None (map err_of rs) of Some c \<Rightarrow> Upstream c | None \<Rightarrow> NoUpstream)"
    using assms by (auto simp: walk_result_def split: option.splits)
  from none show "list_all isl rs" by (simp add: find_None_iff list_all_iff)
  show "(rs = [] \<and> f = NoUpstream) \<or>
     (\<exists>c \<in> err_of ` set rs. f = Upstream c \<and> (\<forall>r \<in> set rs. cause_rank (err_of r) \<le> cause_rank c))"
    using f foldl_fold_cause [of None "map err_of rs"]
    by (cases "foldl fold_cause None (map err_of rs)") auto
qed

text \<open>
  C24. A walk asks the configured servers in order, leaving out the ones it may not use (IPv6
  without an IPv6 bypass), one attempt each, and stops at the first that answers. The reply is the
  one of a server all of whose predecessors failed. Without a reply every usable server was asked and
  failed, and the failure is \<open>NoUpstream\<close> exactly when there was none to ask, else the cause
  of highest rank among theirs.
\<close>

theorem walk_asks_in_order:
  assumes "12 \<le> length q" "try_forward net q b fw = (res, fw')"
    "rs = outcomes net q b fw (fw_attempts fw) (usable_servers fw)"
  shows "fw_attempts fw' = fw_attempts fw @
           take (Suc (length (takeWhile isl rs))) (map (target_for (dns_protocol (fw_config fw))) (usable_servers fw)) \<and>
         (case res of
            Ok reply \<Rightarrow> \<exists>k < length (usable_servers fw). rs ! k = Ok reply \<and> (\<forall>i < k. isl (rs ! i))
          | Err f \<Rightarrow>
              list_all isl rs \<and>
              (usable_servers fw = [] \<and> f = NoUpstream \<or>
               (\<exists>c \<in> err_of ` set rs. f = Upstream c \<and> (\<forall>r \<in> set rs. cause_rank (err_of r) \<le> cause_rank c))))"
proof -
  have "walk_servers net q b (dns_servers (fw_config fw)) None fw = (res, fw')"
    using assms(1,2) by (simp add: try_forward_def)
  from walk_servers_outcomes [OF _ this] assms(3)
  have a: "fw_attempts fw' = fw_attempts fw @
      take (Suc (length (takeWhile isl rs))) (map (target_for (dns_protocol (fw_config fw))) (usable_servers fw))"
    and r: "res = walk_result None rs"
    by (simp_all add: usable_servers_def)
  have l: "length rs = length (usable_servers fw)" by (simp add: assms(3))
  show ?thesis
  proof (cases res)
    case (Inl f)
    with r have "walk_result None rs = Err f" by simp
    from walk_result_Err [OF this] a l show ?thesis unfolding Inl by auto
  next
    case (Inr reply)
    with r have "walk_result None rs = Ok reply" by simp
    from walk_result_Ok [OF this] a l show ?thesis unfolding Inr by auto
  qed
qed


theorem walk_asks_in_order_witness:
  "fw_attempts (snd (try_forward sample_net sample_query 10 sample_forwarder)) =
     [target_for PlainTcp (V4 0x08080808), target_for PlainTcp (V4 0x01010101)]"
proof -
  have "map isl (outcomes sample_net sample_query 10 sample_forwarder (fw_attempts sample_forwarder)
      (usable_servers sample_forwarder)) = [True, False]"
    by code_simp
  then obtain a c where "outcomes sample_net sample_query 10 sample_forwarder (fw_attempts sample_forwarder)
      (usable_servers sample_forwarder) = [a, c]" "isl a" "\<not> isl c" by auto
  then show ?thesis
    using walk_asks_in_order [of sample_query sample_net 10 sample_forwarder, OF _ prod.collapse [symmetric] refl]
    by (simp add: sample_query_def sample_forwarder_def forwarder_new_def usable_servers_def skips_def)
qed


section \<open>The reply\<close>

lemma attempt_at_bound: "attempt_at net q b fw past s = Ok r \<Longrightarrow> int (length r) \<le> MAX_REPLY_SIZE"
proof -
  let ?t = "target_for (dns_protocol (fw_config fw)) s"
  obtain p out where t: "run_transport (dns_protocol (fw_config fw)) (net past ?t q b) (sa_ip ?t) q = (p, out)" by fastforce
  assume "attempt_at net q b fw past s = Ok r"
  with t have "out = Some (Ok r)"
    using forward_one_fst [where N = "net past ?t q b" and fw = "fw\<lparr>fw_attempts := past\<rparr>" and net = net and t = ?t and q = q and b = b]
    by (auto simp: attempt_at_def split: option.splits sum.splits)
  with t show ?thesis by (auto dest: transport_reply_bound)
qed

lemma outcomes_bound: "Ok r \<in> set (outcomes net q b fw past us) \<Longrightarrow> int (length r) \<le> MAX_REPLY_SIZE"
  by (induction us arbitrary: past) (auto dest: attempt_at_bound sym)

lemma try_forward_bound:
  assumes "fst (try_forward net q b fw) = Ok r"
  shows "int (length r) \<le> MAX_REPLY_SIZE"
proof -
  have "12 \<le> length q" using assms by (auto simp: try_forward_def split: if_splits)
  with assms have "fst (walk_servers net q b (dns_servers (fw_config fw)) None fw) = Ok r" by (simp add: try_forward_def)
  then have "walk_result None (outcomes net q b fw (fw_attempts fw) (usable_servers fw)) = Ok r"
    using walk_servers_outcomes [OF refl prod.collapse [symmetric]] by (simp add: usable_servers_def)
  from walk_result_Ok [OF this] have "Ok r \<in> set (outcomes net q b fw (fw_attempts fw) (usable_servers fw))"
    by (metis nth_mem)
  then show ?thesis by (rule outcomes_bound)
qed

lemma length_servfail_header [simp]: "length (servfail_header q) = 12"
  by (auto simp: servfail_header_def)

lemma length_servfail: "synthesize_servfail q = Some r \<Longrightarrow> length r \<le> max 12 (length q)"
  by (auto simp: synthesize_servfail_def split: if_splits option.splits)

text \<open>
  No reply outgrows its bound: over each of the four transports, whatever length a peer
  announces and however much it sends, the reply handed back is at most 16 KiB, or it is the SERVFAIL
  made up from the query and no longer than the query and a header.
\<close>

theorem forward_reply_bounded:
  assumes "fst (forward net q fw) = Some r"
  shows "int (length r) \<le> max MAX_REPLY_SIZE (int (length q))"
proof -
  consider "synthesize_servfail q = Some r" | "fst (try_forward net q TUNNEL_QUERY_TIMEOUT fw) = Ok r"
    using assms by (auto simp: forward_def split: if_splits prod.splits sum.splits)
  then show ?thesis
  proof cases
    case 1
    then show ?thesis using length_servfail [of q r] by (simp add: MAX_REPLY_SIZE_def)
  next
    case 2
    then show ?thesis using try_forward_bound by fastforce
  qed
qed

theorem forward_reply_bounded_witness:
  "fst (forward sample_net sample_query sample_forwarder) = Some sample_query \<and>
   int (length sample_query) \<le> max MAX_REPLY_SIZE (int (length sample_query))"
proof -
  have "fst (forward sample_net sample_query sample_forwarder) = Some sample_query" by code_simp
  then show ?thesis using forward_reply_bounded [of sample_net sample_query sample_forwarder] by blast
qed

section \<open>SERVFAIL\<close>

text \<open>A name on the wire: its labels, each behind its length, and the root label.\<close>

fun encode_name :: "bytes list \<Rightarrow> bytes" where
  "encode_name [] = [CHR 0x00]"
| "encode_name (l # ls) = byte_char (int (length l)) # l @ encode_name ls"

definition label_ok :: "bytes \<Rightarrow> bool" where
  "label_ok l \<longleftrightarrow> l \<noteq> [] \<and> length l < 64"

lemma encode_name_nonempty [simp]: "encode_name ls \<noteq> []"
  by (cases ls) simp_all

lemma small_no_pointer: "0 \<le> n \<Longrightarrow> n < 64 \<Longrightarrow> n AND 0xC0 = (0 :: int)"
proof -
  have "list_all (\<lambda>n. n AND 0xC0 = (0 :: int)) [0..63]" by code_simp
  then show "0 \<le> n \<Longrightarrow> n < 64 \<Longrightarrow> n AND 0xC0 = (0 :: int)" by (simp add: list_all_iff)
qed

lemma question_end_from_name:
  "list_all label_ok ls \<Longrightarrow>
     question_end_from (pre @ encode_name ls @ t) (length pre) = Some (length pre + length (encode_name ls) + 4)"
proof (induction ls arbitrary: pre)
  case Nil
  then show ?case by (simp add: question_end_from.simps byte_at_def)
next
  case (Cons l ls)
  let ?pre = "pre @ byte_char (int (length l)) # l" and ?n = "int (length l)"
  have l: "0 < ?n" "?n < 64" using Cons.prems by (auto simp: label_ok_def)
  then have n: "byte_at (pre @ encode_name (l # ls) @ t) (length pre) = ?n"
    by (simp add: byte_at_def of_char_byte_char)
  have "question_end_from (pre @ encode_name (l # ls) @ t) (length pre) =
      question_end_from (?pre @ encode_name ls @ t) (length ?pre)"
    using l n small_no_pointer [of ?n] by (subst question_end_from.simps) (simp add: Let_def)
  also have "\<dots> = Some (length ?pre + length (encode_name ls) + 4)" by (rule Cons.IH) (use Cons.prems in simp)
  finally show ?case by simp
qed

lemma question_end_name: "list_all label_ok ls \<Longrightarrow> question_end (encode_name ls @ t) = Some (length (encode_name ls) + 4)"
  using question_end_from_name [of ls "[]" t] by (simp add: question_end_def)

text \<open>
  The SERVFAIL for a well-formed query answers it: for a header, a question of labels of at most
  63 bytes with its type and class, and whatever follows, the answer has the query's transaction id,
  question count, opcode and recursion bit, is a response with RCODE 2 and no records, and carries
  exactly the question.
\<close>

theorem servfail_answers_the_question:
  assumes "length h = 12" "list_all label_ok ls" "length t = 4"
  shows "\<exists>r. synthesize_servfail (h @ encode_name ls @ t @ rest) = Some (r @ encode_name ls @ t) \<and> length r = 12 \<and>
           take 2 r = take 2 h \<and> take 2 (drop 4 r) = take 2 (drop 4 h) \<and>
           byte_at r 2 = 0x80 OR (byte_at h 2 AND 0x79) \<and> byte_at r 3 = 0x82 \<and>
           drop 6 r = replicate 6 (CHR 0x00)"
proof (intro exI conjI)
  let ?q = "h @ encode_name ls @ t @ rest"
  have "0 < length (encode_name ls)" by simp
  then show "synthesize_servfail ?q = Some (servfail_header ?q @ encode_name ls @ t)"
    using assms by (simp add: synthesize_servfail_def question_end_name)
  show "length (servfail_header ?q) = 12" "take 2 (servfail_header ?q) = take 2 h"
    "take 2 (drop 4 (servfail_header ?q)) = take 2 (drop 4 h)"
    "byte_at (servfail_header ?q) 2 = 0x80 OR (byte_at h 2 AND 0x79)" "byte_at (servfail_header ?q) 3 = 0x82"
    "drop 6 (servfail_header ?q) = replicate 6 (CHR 0x00)"
    using servfail_header_shape [of ?q] assms(1) by (simp_all add: byte_at_def nth_append)
qed

theorem servfail_answers_the_question_witness:
  "\<exists>r. synthesize_servfail (replicate 12 (CHR 0x01) @ encode_name [''example'', ''com''] @ replicate 4 (CHR 0x00)) =
       Some (r @ encode_name [''example'', ''com''] @ replicate 4 (CHR 0x00))"
  using servfail_answers_the_question [of "replicate 12 (CHR 0x01)" "[''example'', ''com'']" "replicate 4 (CHR 0x00)" "[]"]
  by (auto simp: label_ok_def)


lemma truncated_query_panics:
  assumes "dns_servers (fw_config fw) = []"
  shows "fst (forward net (replicate 13 (CHR 0x00)) fw) = None"
proof -
  have "question_end [CHR 0x00] = Some 5" by (simp add: question_end_def question_end_from.simps byte_at_def)
  then show ?thesis using assms by (simp add: forward_def synthesize_servfail_def try_forward_def numeral_eq_Suc)
qed


section \<open>The log throttle\<close>

text \<open>A history of failures, each with its instant, its server and its error, as the walks report them.\<close>

definition log_failures :: "(int \<times> ip_addr \<times> upstream_err) list \<Rightarrow> forwarder \<Rightarrow> forwarder" where
  "log_failures evs fw = fold (\<lambda>(now, server, e). log_upstream_failure now server e) evs fw"

fun full_line_of :: "ip_addr \<Rightarrow> log_line \<Rightarrow> bool" where
  "full_line_of s (UpstreamFailedLine s' p e) \<longleftrightarrow> s' = s"
| "full_line_of s _ \<longleftrightarrow> False"

fun summary_of :: "ip_addr \<Rightarrow> log_line \<Rightarrow> u32 option" where
  "summary_of s (UpstreamSummaryLine s' p count window) = (if s' = s then Some count else None)"
| "summary_of s _ = None"

definition full_lines :: "ip_addr \<Rightarrow> forwarder \<Rightarrow> nat" where
  "full_lines s fw = length (filter (full_line_of s) (fw_log fw))"

definition summaries :: "ip_addr \<Rightarrow> forwarder \<Rightarrow> u32 list" where
  "summaries s fw = List.map_filter (summary_of s) (fw_log fw)"

definition pending_count :: "ip_addr \<Rightarrow> forwarder \<Rightarrow> nat" where
  "pending_count s fw = (case fw_throttle fw s of Some st \<Rightarrow> unat (ts_suppressed st) | None \<Rightarrow> 0)"

text \<open>
  The accounts of a server after \<open>n\<close> of its failures, all in the window from \<open>t0\<close> to \<open>t0 + d\<close>.
\<close>

definition accounts :: "ip_addr \<Rightarrow> int \<Rightarrow> int \<Rightarrow> nat \<Rightarrow> forwarder \<Rightarrow> bool" where
  "accounts s t0 d n fw \<longleftrightarrow>
     full_lines s fw = min 3 n \<and>
     min 3 n + sum_list (map unat (summaries s fw)) + pending_count s fw = n \<and>
     (case fw_throttle fw s of
        None \<Rightarrow> n = 0 \<and> summaries s fw = []
      | Some st \<Rightarrow>
          unat (ts_logged st) = min 3 n \<and>
          t0 \<le> ts_first_at st \<and> ts_last_summary_at st \<le> t0 + d \<and>
          int (length (summaries s fw)) * SUMMARY_INTERVAL \<le> ts_last_summary_at st - ts_first_at st)"

lemma log_other:
  "s' \<noteq> s \<Longrightarrow> fw_throttle (log_upstream_failure now s' e fw) s = fw_throttle fw s"
  "s' \<noteq> s \<Longrightarrow> full_lines s (log_upstream_failure now s' e fw) = full_lines s fw"
  "s' \<noteq> s \<Longrightarrow> summaries s (log_upstream_failure now s' e fw) = summaries s fw"
  by (auto simp: log_upstream_failure_def full_lines_def summaries_def List.map_filter_def Let_def
      split: prod.splits throttle_decision.splits)

lemma accounts_other: "s' \<noteq> s \<Longrightarrow> accounts s t0 d n (log_upstream_failure now s' e fw) = accounts s t0 d n fw"
  by (simp add: accounts_def log_other pending_count_def cong: option.case_cong)

lemma throttle_cases:
  assumes "throttle now st = (st', decision)"
  obtains "ts_logged st < LOG_FULL_LIMIT" "st' = st\<lparr>ts_logged := ts_logged st + 1\<rparr>" "decision = LogFull"
  | "\<not> ts_logged st < LOG_FULL_LIMIT" "duration_since now (ts_last_summary_at st) < SUMMARY_INTERVAL"
    "st' = st\<lparr>ts_suppressed := ts_suppressed st + 1\<rparr>" "decision = Suppress"
  | "\<not> ts_logged st < LOG_FULL_LIMIT" "SUMMARY_INTERVAL \<le> duration_since now (ts_last_summary_at st)"
    "st' = st\<lparr>ts_suppressed := 0, ts_last_summary_at := now\<rparr>"
    "decision = SuppressAndSummary (ts_suppressed st + 1) (duration_since now (ts_first_at st))"
  using assms by (auto simp: throttle_def Let_def split: if_splits)


lemma accounts_step:
  assumes a: "accounts s t0 d n fw" and w: "t0 \<le> now" "now \<le> t0 + d" and n: "Suc n < 2 ^ 32"
  shows "accounts s t0 d (Suc n) (log_upstream_failure now s e fw)"
proof -
  define st where "st = (case fw_throttle fw s of Some st \<Rightarrow> st | None \<Rightarrow> throttle_new now)"
  have st: "unat (ts_logged st) = min 3 n" "t0 \<le> ts_first_at st" "ts_last_summary_at st \<le> t0 + d"
    "int (length (summaries s fw)) * SUMMARY_INTERVAL \<le> ts_last_summary_at st - ts_first_at st"
    "pending_count s fw = unat (ts_suppressed st)"
    using a w by (auto simp: accounts_def st_def throttle_new_def pending_count_def split: option.splits)
  have sum: "full_lines s fw = min 3 n" "min 3 n + sum_list (map unat (summaries s fw)) + unat (ts_suppressed st) = n"
    using a st(5) by (simp_all add: accounts_def)
  obtain st' dec where t: "throttle now st = (st', dec)" by fastforce
  have small: "unat (ts_suppressed st + 1) = Suc (unat (ts_suppressed st))"
    using sum(2) n by (simp add: unat_word_ariths)
  have lim: "ts_logged st < LOG_FULL_LIMIT \<longleftrightarrow> n < 3"
    using st(1) by (auto simp: word_less_nat_alt LOG_FULL_LIMIT_def)
  have log: "log_upstream_failure now s e fw =
      (case dec of
         LogFull \<Rightarrow>
           fw\<lparr>fw_throttle := (fw_throttle fw)(s \<mapsto> st'),
              fw_log := fw_log fw @ [UpstreamFailedLine s (dns_protocol (fw_config fw)) e]\<rparr>
       | Suppress \<Rightarrow> fw\<lparr>fw_throttle := (fw_throttle fw)(s \<mapsto> st')\<rparr>
       | SuppressAndSummary count window \<Rightarrow>
           fw\<lparr>fw_throttle := (fw_throttle fw)(s \<mapsto> st'),
              fw_log := fw_log fw @ [UpstreamSummaryLine s (dns_protocol (fw_config fw)) count (window div 1000000000)]\<rparr>)"
    using t by (simp add: log_upstream_failure_def st_def Let_def)
  from t show ?thesis
  proof (cases rule: throttle_cases)
    case 1
    then have "unat (ts_logged st + 1) = Suc n" using lim st(1) by (simp add: unat_word_ariths)
    with 1 lim st sum show ?thesis
      by (simp add: log Let_def accounts_def full_lines_def summaries_def List.map_filter_def pending_count_def)
  next
    case 2
    with lim st sum small show ?thesis
      by (simp add: log Let_def accounts_def full_lines_def summaries_def List.map_filter_def pending_count_def)
  next
    case 3
    have "ts_last_summary_at st + SUMMARY_INTERVAL \<le> now" using 3(2) by (simp add: duration_since_def SUMMARY_INTERVAL_def)
    with 3 lim st sum small w show ?thesis
      by (simp add: log Let_def accounts_def full_lines_def summaries_def List.map_filter_def pending_count_def distrib_right)
  qed
qed


lemma accounts_log_failures:
  assumes "accounts s t0 d n fw" "list_all (\<lambda>(now, _). t0 \<le> now \<and> now \<le> t0 + d) evs"
    "n + length (filter (\<lambda>(_, server, _). server = s) evs) < 2 ^ 32"
  shows "accounts s t0 d (n + length (filter (\<lambda>(_, server, _). server = s) evs)) (log_failures evs fw)"
  using assms
proof (induction evs arbitrary: n fw)
  case (Cons ev evs)
  obtain now s' e where ev: "ev = (now, s', e)" by (cases ev)
  let ?fw = "log_upstream_failure now s' e fw" and ?n = "if s' = s then Suc n else n"
  have "accounts s t0 d ?n ?fw"
    using Cons.prems accounts_step [of s t0 d n fw now e]
    by (auto simp: ev accounts_other split: if_splits)
  from Cons.IH [OF this] Cons.prems show ?case by (simp add: ev log_failures_def split: if_splits)
qed (simp add: log_failures_def)

text \<open>
  The log throttle keeps its accounts, over any interleaving of the servers' failures. Of the
  failures of a server, the first three are logged in full, and every other one is either in the
  count of one of its summary lines or still pending; no failure is counted twice or lost. Failures
  within a window of \<open>d\<close> make at most one summary for every minute of it.
\<close>

theorem throttle_accounts:
  assumes "fw_throttle fw = Map.empty" "fw_log fw = []"
    "list_all (\<lambda>(now, _). t0 \<le> now \<and> now \<le> t0 + d) evs"
    "n = length (filter (\<lambda>(_, server, _). server = s) evs)" "n < 2 ^ 32" "0 \<le> d"
    "fw' = log_failures evs fw"
  shows "full_lines s fw' = min 3 n \<and>
         full_lines s fw' + sum_list (map unat (summaries s fw')) + pending_count s fw' = n \<and>
         int (length (summaries s fw')) * SUMMARY_INTERVAL \<le> d"
proof -
  have "accounts s t0 d 0 fw"
    using assms(1,2) by (simp add: accounts_def full_lines_def summaries_def pending_count_def List.map_filter_def)
  from accounts_log_failures [OF this assms(3)] assms(4,5,7) have "accounts s t0 d n fw'" by simp
  then show ?thesis using assms(6) by (auto simp: accounts_def split: option.splits)
qed

theorem throttle_accounts_witness:
  "full_lines (V4 7) (log_failures (map (\<lambda>i. (i * 20000000000, V4 7, upstream_err_new IoLayer io_error_new)) [0, 1, 2, 3, 4, 5])
      sample_forwarder) = 3"
  using throttle_accounts [OF _ _ _ refl _ _ refl, of sample_forwarder 0 100000000000
      "map (\<lambda>i. (i * 20000000000, V4 7, upstream_err_new IoLayer io_error_new)) [0, 1, 2, 3, 4, 5]" "V4 7"]
  by (simp add: sample_forwarder_def forwarder_new_def)


section \<open>Round trips\<close>

text \<open>
  C28. What a resolver sends is what comes out. Over a stream, a peer that reads the framed query and
  sends a framed reply is answered with that reply, whatever follows it. Over HTTPS, a response with
  status 200 whose lines are not empty and whose headers give the body's length (and no content type
  other than a DNS message) yields exactly the body, be there blank lines in it or bytes after it.
\<close>

theorem resolver_reply_round_trip:
  assumes "int (length reply) \<le> MAX_REPLY_SIZE"
    "list_all header_line (status # hs)" "from_utf8 (join_with CRLF (status # hs)) \<noteq> None"
    "status_code status = Some ''200''"
    "fold header_step hs (None, None) = (Some (int (length reply)), ct)"
    "\<forall>c. ct = Some c \<longrightarrow> eq_ignore_ascii_case c ''application/dns-message''"
    "int (length query) \<le> 65535"
    "peer_write peer (framed query) = Ready ()" "peer_flush peer (framed query) = Ready ()"
    "peer_sends peer (framed query) = \<lparr>in_bytes = framed reply @ rest, in_end = fin\<rparr>"
  shows "exchange_tcp_framed peer query = Ready reply \<and>
         parse_http_dns_response (join_with CRLF (status # hs) @ CRLF @ CRLF @ reply @ rest) = Ok reply"
proof
  have "read_framed \<lparr>in_bytes = framed reply @ rest, in_end = fin\<rparr> = Ready reply"
    using assms(1) by (subst read_framed_framed) (simp_all add: MAX_REPLY_SIZE_def)
  then show "exchange_tcp_framed peer query = Ready reply"
    using assms(7-10) by (simp add: exchange_tcp_framed_def Let_def)
next
  let ?head = "join_with CRLF (status # hs)"
  have utf8: "from_utf8 ?head = Some ?head" using assms(3) by (auto simp: from_utf8_def split: if_splits)
  have drop: "drop (length ?head + 4) (?head @ CRLF @ CRLF @ reply @ rest) = reply @ rest" by (simp add: CRLF_def)
  have body: "body_of (Some (int (length reply))) (reply @ rest) = Ok reply"
    using assms(1) by (simp add: body_of_Ok)
  have "split_crlf [] ?head = status # hs" using assms(2) by (rule split_crlf_join)
  then show "parse_http_dns_response (?head @ CRLF @ CRLF @ reply @ rest) = Ok reply"
    unfolding parse_http_dns_response_def find_head_end [OF assms(2)]
    using utf8 drop body assms(4-6) by (simp add: Let_def del: append.assoc drop_append split: option.split)
qed

theorem resolver_reply_round_trip_witness:
  "exchange_tcp_framed
     \<lparr>peer_write = (\<lambda>_. Ready ()), peer_flush = (\<lambda>_. Ready ()),
      peer_sends = (\<lambda>_. \<lparr>in_bytes = framed (CRLF @ CRLF) @ ''x'', in_end = Stalled\<rparr>)\<rparr> ''q'' = Ready (CRLF @ CRLF) \<and>
   parse_http_dns_response
     (join_with CRLF [''HTTP/1.1 200 OK'', ''content-length: 4'', ''Content-Type: Application/DNS-message''] @
      CRLF @ CRLF @ (CRLF @ CRLF) @ ''x'') = Ok (CRLF @ CRLF)"
proof -
  have h: "fold header_step [''content-length: 4'', ''Content-Type: Application/DNS-message''] (None, None) =
      (Some (int (length (CRLF @ CRLF))), Some ''Application/DNS-message'')"
    by code_simp
  show ?thesis
    by (rule resolver_reply_round_trip [OF _ _ _ _ h])
      (code_simp, code_simp, code_simp, code_simp, simp_all, code_simp)
qed

end
