(* ===== verification/Dns_Boot_Safety.thy ===== *)
theory Dns_Boot_Safety
  imports Dns_Bootstrap Dns_Safety
begin

text \<open>
  What the bootstrap and the self-test gate guarantee: a secure bootstrap never asks the operating
  system's resolver and takes its answer from a configured resolver, a failure is the strongest
  finding, and the gate's report rests on what happened on the network.
\<close>

section \<open>An instance for the witnesses\<close>

text \<open>A codec of two replies, and a network on which every resolver sends the one with an IPv4 address.\<close>

definition sample_hickory :: hickory where
  "sample_hickory =
     \<lparr>hk_query = (\<lambda>name tx rtype. Some (replicate 12 (CHR 0x00) @ name)),
      hk_parse = (\<lambda>reply. if reply = ''v4'' then Some ([None, Some (V4 5)], False) else None)\<rparr>"

definition sample_resolver :: peer where
  "sample_resolver =
     \<lparr>peer_write = (\<lambda>_. Ready ()), peer_flush = (\<lambda>_. Ready ()),
      peer_sends = (\<lambda>_. \<lparr>in_bytes = join_with CRLF [''HTTP/1.1 200 OK'', ''Content-Length: 2''] @ CRLF @ CRLF @ ''v4'',
                         in_end = EndOfFile\<rparr>)\<rparr>"

definition sample_direct :: "boot_call list \<Rightarrow> network" where
  "sample_direct calls past target query budget =
     (sample_net past target query budget)\<lparr>an_peer := sample_resolver\<rparr>"

definition sample_dns :: dns_config where
  "sample_dns =
     \<lparr>dns_enabled = True, dns_servers = [V4 0x08080808, V4 0x01010101], dns_protocol = Https,
      allow_insecure_bootstrap = False\<rparr>"

section \<open>One leg\<close>

text \<open>Which address a resolver's reply to one query gives.\<close>

definition replied_with :: "hickory \<Rightarrow> querier \<Rightarrow> boot_call list \<Rightarrow> ip_addr \<Rightarrow> bytes \<Rightarrow> ip_addr \<Rightarrow> bool" where
  "replied_with H Q calls server wire ip \<longleftrightarrow>
     (\<exists>reply parsed. Q calls server wire = Ok reply \<and> parse_addrs H reply = Some parsed \<and> ip \<in> set (dr_addrs parsed))"

lemma find_SomeD: "find P xs = Some x \<Longrightarrow> x \<in> set xs \<and> P x"
  by (induction xs) (auto split: if_splits)

lemma run_leg_calls [simp]: "snd (run_leg H Q server wire want calls) = calls @ [DohQuery server wire]"
  by (simp add: run_leg_def)

lemma run_leg_address:
  "fst (run_leg H Q server wire want calls) = LegAddress ip \<Longrightarrow> replied_with H Q calls server wire ip \<and> want ip"
  by (auto simp: run_leg_def replied_with_def split: sum.splits option.splits dest: find_SomeD)

lemma run_leg_answered:
  "fst (run_leg H Q server wire want calls) = LegAnswered m \<Longrightarrow> \<exists>reply. Q calls server wire = Ok reply"
  by (auto simp: run_leg_def split: sum.splits option.splits)

section \<open>The loop\<close>

text \<open>
  What the loop keeps: every call is a query of a listed server, a fallback and a reachable server come
  from such a call.
\<close>

definition from_server :: "hickory \<Rightarrow> querier \<Rightarrow> ip_addr list \<Rightarrow> bootstrapped \<Rightarrow> bool" where
  "from_server H Q servers b \<longleftrightarrow>
     (\<exists>server \<in> set servers. bt_via b = Answered server \<and>
        (\<exists>calls wire. replied_with H Q calls server wire (bt_server_ip b)))"

definition loop_ok :: "hickory \<Rightarrow> querier \<Rightarrow> ip_addr list \<Rightarrow> resolve_state \<Rightarrow> bool" where
  "loop_ok H Q servers v \<longleftrightarrow>
     (\<forall>c \<in> set (rv_calls v). \<exists>server \<in> set servers. \<exists>wire. c = DohQuery server wire) \<and>
     (\<forall>b. rv_v6_fallback v = Some b \<longrightarrow> from_server H Q servers b \<and> \<not> is_ipv4 (bt_server_ip b)) \<and>
     (\<forall>r. rv_reachable v = Some r \<longrightarrow> r \<in> set servers \<and> (\<exists>calls wire reply. Q calls r wire = Ok reply))"

lemma loop_ok_note [simp]:
  "loop_ok H Q servers (note_failure e v) = loop_ok H Q servers v"
  by (simp add: loop_ok_def note_failure_def)

lemma loop_ok_reachable:
  "loop_ok H Q servers v \<Longrightarrow> server \<in> set servers \<Longrightarrow> Q calls server wire = Ok reply \<Longrightarrow>
     loop_ok H Q servers (note_reachable server v)"
  by (auto simp: loop_ok_def note_reachable_def)

lemma loop_ok_calls:
  "loop_ok H Q servers v \<Longrightarrow> server \<in> set servers \<Longrightarrow>
     loop_ok H Q servers (v\<lparr>rv_calls := rv_calls v @ [DohQuery server wire]\<rparr>)"
  by (auto simp: loop_ok_def)

lemma ask_a_ok:
  assumes "loop_ok H Q servers v" "server \<in> set servers" "ask_a H Q wire server v = (found, answered, v')"
  shows "loop_ok H Q servers v'"
    "\<And>b. found = Some b \<Longrightarrow> from_server H Q servers b \<and> is_ipv4 (bt_server_ip b)"
proof -
  obtain leg where leg: "run_leg H Q server wire is_ipv4 (rv_calls v) = (leg, rv_calls v @ [DohQuery server wire])"
    by (metis prod.collapse run_leg_calls)
  note l = loop_ok_calls [OF assms(1,2), of wire]
  show "loop_ok H Q servers v'"
  proof (cases leg)
    case (LegAnswered m)
    with leg obtain reply where "Q (rv_calls v) server wire = Ok reply" using run_leg_answered by (metis fst_conv)
    with leg LegAnswered assms(3) l loop_ok_reachable [OF l assms(2)] show ?thesis by (auto simp: ask_a_def Let_def split: if_splits)
  qed (use leg assms(3) l in \<open>auto simp: ask_a_def\<close>)
  fix b assume "found = Some b"
  with leg assms(3) obtain ip where "leg = LegAddress ip" "b = \<lparr>bt_server_ip = ip, bt_via = Answered server\<rparr>"
    by (auto simp: ask_a_def Let_def split: leg_outcome.splits)
  with leg assms(2) run_leg_address [of H Q server wire is_ipv4 "rv_calls v" ip]
  show "from_server H Q servers b \<and> is_ipv4 (bt_server_ip b)" by (auto simp: from_server_def)
qed

lemma ask_aaaa_ok:
  assumes "loop_ok H Q servers v" "server \<in> set servers"
  shows "loop_ok H Q servers (ask_aaaa H Q wire server answered v)"
proof (cases "rv_v6_fallback v")
  case None
  let ?want = "\<lambda>ip. \<not> is_ipv4 ip"
  obtain leg where leg: "run_leg H Q server wire ?want (rv_calls v) = (leg, rv_calls v @ [DohQuery server wire])"
    by (metis prod.collapse run_leg_calls)
  note l = loop_ok_calls [OF assms, of wire]
  show ?thesis
  proof (cases leg)
    case (LegAddress ip)
    with leg run_leg_address [of H Q server wire ?want "rv_calls v" ip]
    have "replied_with H Q (rv_calls v) server wire ip" "\<not> is_ipv4 ip" by auto
    with leg LegAddress None l assms(2) show ?thesis by (auto simp: ask_aaaa_def loop_ok_def from_server_def)
  next
    case (LegAnswered m)
    with leg obtain reply where "Q (rv_calls v) server wire = Ok reply" using run_leg_answered by (metis fst_conv)
    with leg LegAnswered None l loop_ok_reachable [OF l assms(2)] show ?thesis by (auto simp: ask_aaaa_def Let_def)
  next
    case (LegFailed e)
    with leg None l show ?thesis by (auto simp: ask_aaaa_def Let_def)
  qed
qed (simp add: ask_aaaa_def assms)

lemma ask_servers_ok:
  assumes "loop_ok H Q servers v" "set rest \<subseteq> set servers" "ask_servers H Q a aaaa rest v = (found, v')"
  shows "loop_ok H Q servers v' \<and> (\<forall>b. found = Some b \<longrightarrow> from_server H Q servers b \<and> is_ipv4 (bt_server_ip b))"
  using assms
proof (induction rest arbitrary: v)
  case (Cons server rest)
  obtain f answered v1 where a: "ask_a H Q a server v = (f, answered, v1)" by (metis prod_cases3)
  have s: "server \<in> set servers" using Cons.prems(2) by simp
  note ok = ask_a_ok [OF Cons.prems(1) s a]
  show ?case
  proof (cases f)
    case None
    with Cons.prems(3) a have "ask_servers H Q a aaaa rest (ask_aaaa H Q aaaa server answered v1) = (found, v')" by simp
    from Cons.IH [OF ask_aaaa_ok [OF ok(1) s] _ this] Cons.prems(2) show ?thesis by simp
  next
    case (Some b)
    with Cons.prems(3) a ok show ?thesis by simp
  qed
qed simp

section \<open>The production querier\<close>

text \<open>
  A reply vouched for: the direct connection to the resolver was made, its certificate verified for
  the name expected of it, and the HTTPS exchange gave a reply with the address.
\<close>

definition vouched :: "hickory \<Rightarrow> (boot_call list \<Rightarrow> network) \<Rightarrow> ip_addr \<Rightarrow> ip_addr \<Rightarrow> bool" where
  "vouched H direct server ip \<longleftrightarrow>
     (\<exists>calls wire N name host path p reply parsed.
        N = direct calls [] (target_for Https server) wire DIRECT_UPSTREAM_TIMEOUT \<and>
        https_target_for N server = Ok (name, host, path) \<and> an_connect N = Ready () \<and> an_tls N name = Ready () \<and>
        forward_https N server wire probe_default = (p, Some (Ok reply)) \<and>
        parse_addrs H reply = Some parsed \<and> ip \<in> set (dr_addrs parsed))"

lemma single_round_trip_forward_one:
  assumes "12 \<le> length wire"
  shows "single_round_trip net (forwarder_new (single_resolver_cfg server) True) wire =
      (case fst (forward_one net (target_for Https server) wire DIRECT_UPSTREAM_TIMEOUT
                   (forwarder_new (single_resolver_cfg server) True)) of
         Ok reply \<Rightarrow> Ok reply
       | Err e \<Rightarrow> Err (cause e))"
  using assms
  by (auto simp: single_round_trip_def try_forward_def forwarder_new_def single_resolver_cfg_def skips_def Let_def
      split: prod.splits sum.splits)

lemma querier_Ok_long: "forwarder_querier direct calls server wire = Ok reply \<Longrightarrow> 12 \<le> length wire"
  by (rule ccontr) (simp add: forwarder_querier_def single_round_trip_def try_forward_def)

lemma forward_one_Ok:
  "fst (forward_one net t q b fw) = Ok reply \<Longrightarrow>
     \<exists>p. run_transport (dns_protocol (fw_config fw)) (net (fw_attempts fw) t q b) (sa_ip t) q = (p, Some (Ok reply))"
  using forward_one_fst [OF refl, of fw net t q b]
  by (cases "run_transport (dns_protocol (fw_config fw)) (net (fw_attempts fw) t q b) (sa_ip t) q")
    (auto split: option.splits sum.splits)

lemma forward_https_verified:
  "forward_https N ip q p = (p', Some (Ok reply)) \<Longrightarrow>
     \<exists>name host path. https_target_for N ip = Ok (name, host, path) \<and> an_connect N = Ready () \<and> an_tls N name = Ready ()"
  by (auto simp: forward_https_def awaiting_case Let_def split: sum.splits prod.splits io_reply.splits)

lemma replied_with_vouched:
  assumes "replied_with H (forwarder_querier direct) calls server wire ip"
  shows "vouched H direct server ip"
proof -
  obtain reply parsed where q: "forwarder_querier direct calls server wire = Ok reply"
    and r: "parse_addrs H reply = Some parsed" "ip \<in> set (dr_addrs parsed)"
    using assms by (auto simp: replied_with_def)
  let ?N = "direct calls [] (target_for Https server) wire DIRECT_UPSTREAM_TIMEOUT"
  have "fst (forward_one (direct calls) (target_for Https server) wire DIRECT_UPSTREAM_TIMEOUT
      (forwarder_new (single_resolver_cfg server) True)) = Ok reply"
    using q single_round_trip_forward_one [OF querier_Ok_long [OF q]]
    by (auto simp: forwarder_querier_def split: sum.splits)
  from forward_one_Ok [OF this] obtain p where "forward_https ?N server wire probe_default = (p, Some (Ok reply))"
    by (auto simp: forwarder_new_def single_resolver_cfg_def target_for_def run_transport_def)
  with forward_https_verified [OF this] r show ?thesis unfolding vouched_def by blast
qed

text \<open>
  C23. A secure bootstrap fails closed. With \<open>allow_insecure_bootstrap\<close> off, the operating system's
  resolver is never asked and only configured resolvers are; an address it answers with is the literal
  the user typed, or came in the reply of a configured resolver, named as the pin, to which a direct
  connection was made and whose certificate verified.
\<close>

theorem secure_bootstrap_fails_closed:
  assumes "resolve_via_doh H direct os host dns = (res, calls)" "\<not> allow_insecure_bootstrap dns"
  shows "(\<forall>c \<in> set calls. \<exists>server \<in> set (dns_servers dns). \<exists>wire. c = DohQuery server wire) \<and>
         (\<forall>b. res = Ok b \<longrightarrow>
            ip_addr_from_str host = Some (bt_server_ip b) \<and> bt_via b = NoQueryNeeded \<or>
            (\<exists>server \<in> set (dns_servers dns). bt_via b = Answered server \<and> vouched H direct server (bt_server_ip b)))"
proof -
  let ?Q = "forwarder_querier direct"
  have init: "loop_ok H ?Q (dns_servers dns) \<lparr>rv_v6_fallback = None, rv_reachable = None, rv_worst = None, rv_calls = []\<rparr>"
    by (simp add: loop_ok_def)
  have served: "from_server H ?Q (dns_servers dns) b \<Longrightarrow>
      \<exists>server \<in> set (dns_servers dns). bt_via b = Answered server \<and> vouched H direct server (bt_server_ip b)" for b
    by (auto simp: from_server_def intro: replied_with_vouched)
  show ?thesis using assms
    by (auto simp: resolve_via_doh_def resolve_via_doh_with_def Let_def
        split: option.splits sum.splits prod.splits if_splits
        dest!: ask_servers_ok [OF init subset_refl] intro!: served simp: loop_ok_def)
qed


theorem secure_bootstrap_fails_closed_witness:
  "fst (resolve_via_doh sample_hickory sample_direct (\<lambda>_. None) ''a.example'' sample_dns) =
     Ok \<lparr>bt_server_ip = V4 5, bt_via = Answered (V4 0x01010101)\<rparr> \<and>
   vouched sample_hickory sample_direct (V4 0x01010101) (V4 5)"
proof -
  have "fst (resolve_via_doh sample_hickory sample_direct (\<lambda>_. None) ''a.example'' sample_dns) =
      Ok \<lparr>bt_server_ip = V4 5, bt_via = Answered (V4 0x01010101)\<rparr>"
    by code_simp
  then show ?thesis
    using secure_bootstrap_fails_closed [OF prod.collapse [symmetric], where H = sample_hickory and
        direct = sample_direct and os = "\<lambda>_. None" and host = "''a.example''" and dns = sample_dns]
    by (auto simp: sample_dns_def)
qed


section \<open>An interception is not hidden\<close>

text \<open>Whether one of the calls made was answered with a rejected certificate; a call's past is what was asked before it.\<close>

definition rejected_in :: "querier \<Rightarrow> boot_call list \<Rightarrow> bool" where
  "rejected_in Q calls \<longleftrightarrow>
     (\<exists>i < length calls. \<exists>server wire. calls ! i = DohQuery server wire \<and>
        Q (take i calls) server wire = Err CauseCertificateRejected)"

lemma rejected_in_append:
  "rejected_in Q (calls @ [DohQuery server wire]) \<longleftrightarrow>
     rejected_in Q calls \<or> Q calls server wire = Err CauseCertificateRejected"
  by (auto simp: rejected_in_def less_Suc_eq nth_append)

definition worst_ok :: "querier \<Rightarrow> resolve_state \<Rightarrow> bool" where
  "worst_ok Q v \<longleftrightarrow>
     rv_worst v \<noteq> Some InvalidName \<and> (rejected_in Q (rv_calls v) \<longrightarrow> rv_worst v = Some BootCertificateRejected)"

lemma boot_rank_le: "e \<noteq> InvalidName \<Longrightarrow> boot_rank e \<le> 6"
  by (cases e) simp_all

lemma worst_ok_failure: "worst_ok Q v \<Longrightarrow> e \<noteq> InvalidName \<Longrightarrow> worst_ok Q (note_failure e v)"
  using boot_rank_le [of e] by (cases "rv_worst v") (auto simp: worst_ok_def note_failure_def)

lemma worst_ok_reachable [simp]: "worst_ok Q (note_reachable server v) = worst_ok Q v"
  by (simp add: worst_ok_def note_reachable_def)

lemma classify_not_invalid [simp]: "classify_cause c \<noteq> InvalidName"
  by (cases c) simp_all

lemma run_leg_failed:
  "fst (run_leg H Q server wire want calls) = LegFailed e \<Longrightarrow> e \<noteq> InvalidName"
  by (auto simp: run_leg_def split: sum.splits option.splits)

lemma run_leg_rejected:
  "Q calls server wire = Err CauseCertificateRejected \<Longrightarrow>
     fst (run_leg H Q server wire want calls) = LegFailed BootCertificateRejected"
  by (simp add: run_leg_def)

lemma worst_ok_leg:
  assumes "worst_ok Q v" "run_leg H Q server wire want (rv_calls v) = (leg, calls)"
  shows "\<And>e. leg = LegFailed e \<Longrightarrow> worst_ok Q (note_failure e (v\<lparr>rv_calls := calls\<rparr>))"
    "(\<And>e. leg \<noteq> LegFailed e) \<Longrightarrow> worst_ok Q (v\<lparr>rv_calls := calls\<rparr>)"
proof -
  have c: "calls = rv_calls v @ [DohQuery server wire]" "leg = fst (run_leg H Q server wire want (rv_calls v))"
    using assms(2) run_leg_calls [of H Q server wire want "rv_calls v"] by (simp_all del: run_leg_calls)
  show "worst_ok Q (v\<lparr>rv_calls := calls\<rparr>)" if "\<And>e. leg \<noteq> LegFailed e"
    using that assms(1) c run_leg_rejected [of Q "rv_calls v" server wire H want]
    by (auto simp: worst_ok_def rejected_in_append)
  fix e assume l: "leg = LegFailed e"
  then have e: "e \<noteq> InvalidName" using c(2) run_leg_failed by metis
  show "worst_ok Q (note_failure e (v\<lparr>rv_calls := calls\<rparr>))"
  proof (cases "Q (rv_calls v) server wire = Err CauseCertificateRejected")
    case True
    then have "e = BootCertificateRejected" using l c(2) run_leg_rejected [of Q "rv_calls v" server wire H want] by simp
    then show ?thesis using assms(1) boot_rank_le [of "the (rv_worst v)"]
      by (cases "rv_worst v"; cases "the (rv_worst v)") (auto simp: worst_ok_def note_failure_def)
  next
    case False
    then have "worst_ok Q (v\<lparr>rv_calls := calls\<rparr>)" using assms(1) c(1) by (auto simp: worst_ok_def rejected_in_append)
    then show ?thesis using e by (rule worst_ok_failure)
  qed
qed

lemma worst_ok_fallback [simp]: "worst_ok Q (v\<lparr>rv_v6_fallback := b\<rparr>) = worst_ok Q v"
  by (simp add: worst_ok_def)

lemma ask_a_worst:
  assumes "worst_ok Q v" "ask_a H Q wire server v = (found, answered, v')"
  shows "worst_ok Q v'"
proof -
  obtain leg calls where leg: "run_leg H Q server wire is_ipv4 (rv_calls v) = (leg, calls)" by fastforce
  note w = worst_ok_leg [OF assms(1) leg]
  show ?thesis
  proof (cases leg)
    case (LegAnswered m)
    then have "worst_ok Q (note_reachable server (v\<lparr>rv_calls := calls\<rparr>))" using w(2) by simp
    with LegAnswered leg assms(2) worst_ok_failure [OF this, of NoAnswer] show ?thesis
      by (auto simp: ask_a_def Let_def split: if_splits)
  qed (use w leg assms(2) in \<open>auto simp: ask_a_def Let_def\<close>)
qed

lemma ask_aaaa_worst:
  assumes "worst_ok Q v"
  shows "worst_ok Q (ask_aaaa H Q wire server answered v)"
proof -
  obtain leg calls where leg: "run_leg H Q server wire (\<lambda>ip. \<not> is_ipv4 ip) (rv_calls v) = (leg, calls)" by fastforce
  note w = worst_ok_leg [OF assms leg]
  show ?thesis
  proof (cases leg)
    case (LegAnswered m)
    then have "worst_ok Q (note_reachable server (v\<lparr>rv_calls := calls\<rparr>))" using w(2) by simp
    with LegAnswered leg assms worst_ok_failure [OF this, of NoAnswer] show ?thesis by (auto simp: ask_aaaa_def Let_def)
  qed (use w leg assms in \<open>auto simp: ask_aaaa_def Let_def\<close>)
qed

lemma ask_servers_worst: "worst_ok Q v \<Longrightarrow> worst_ok Q (snd (ask_servers H Q a aaaa servers v))"
proof (induction servers arbitrary: v)
  case (Cons server rest)
  obtain f answered v1 where a: "ask_a H Q a server v = (f, answered, v1)" by (metis prod_cases3)
  have "worst_ok Q v1" using Cons.prems a by (rule ask_a_worst)
  with a Cons.IH ask_aaaa_worst show ?case by (cases f) simp_all
qed simp

text \<open>
  C27. An interception is not hidden by a milder finding. When a bootstrap fails and any resolver it
  asked, in either leg, was refused for its certificate, the error it reports is the rejected
  certificate, whatever the other resolvers said and whether or not the plaintext fallback was tried.
\<close>

theorem interception_is_reported:
  assumes "resolve_via_doh_with H Q os host dns = (Err f, calls)" "rejected_in Q calls"
  shows "f = BootCertificateRejected"
proof -
  let ?init = "\<lparr>rv_v6_fallback = None, rv_reachable = None, rv_worst = None, rv_calls = []\<rparr>"
  have w: "rv_worst v = Some BootCertificateRejected"
    if "ask_servers H Q a aaaa (dns_servers dns) ?init = (found, v)" "rejected_in Q (rv_calls v)" for a aaaa found v
    using ask_servers_worst [of Q ?init H a aaaa "dns_servers dns"] that by (simp add: worst_ok_def rejected_in_def)
  have os: "rejected_in Q (cs @ [OsLookup h]) = rejected_in Q cs" for cs h
    by (auto simp: rejected_in_def less_Suc_eq nth_append)
  have none: "\<not> rejected_in Q []" by (simp add: rejected_in_def)
  show ?thesis using assms none
    by (auto simp: resolve_via_doh_with_def insecure_fallback_def Let_def os
        split: option.splits sum.splits prod.splits if_splits list.splits dest!: w)
qed

theorem interception_is_reported_witness:
  "fst (resolve_via_doh_with sample_hickory
          (\<lambda>calls server wire. Err (if server = V4 0x08080808 then CauseCertificateRejected else CauseTlsFailed))
          (\<lambda>_. None) ''a.example'' sample_dns) = Err BootCertificateRejected"
proof -
  let ?Q = "\<lambda>calls server wire. Err (if server = V4 0x08080808 then CauseCertificateRejected else CauseTlsFailed)"
  let ?R = "resolve_via_doh_with sample_hickory ?Q (\<lambda>_. None) ''a.example'' sample_dns"
  have "isl (fst ?R) \<and> snd ?R \<noteq> [] \<and> hd (snd ?R) = DohQuery (V4 0x08080808) (replicate 12 (CHR 0x00) @ ''a.example.'')"
    by code_simp
  then obtain f c where r: "?R = (Err f, c)" "c \<noteq> []" "hd c = DohQuery (V4 0x08080808) (replicate 12 (CHR 0x00) @ ''a.example.'')"
    by (cases ?R) (auto simp: isl_def)
  then have "rejected_in ?Q c" by (auto simp: rejected_in_def hd_conv_nth intro!: exI [of _ 0])
  from interception_is_reported [OF r(1) this] r(1) show ?thesis by simp
qed


section \<open>The gate's report\<close>

text \<open>What the network answered to a run of attempts, one after the other.\<close>

fun met :: "network \<Rightarrow> bytes \<Rightarrow> int \<Rightarrow> socket_addr list \<Rightarrow> socket_addr list \<Rightarrow> attempt_net list" where
  "met net q b past [] = []"
| "met net q b past (t # ts) = net past t q b # met net q b (past @ [t]) ts"

definition moved_by :: "dns_protocol \<Rightarrow> attempt_net list \<Rightarrow> forwarder \<Rightarrow> forwarder \<Rightarrow> bool" where
  "moved_by P Ns fw fw' \<longleftrightarrow>
     fw_connects fw' = fw_connects fw + of_nat (length (filter (\<lambda>N. an_connect N = Ready () \<and> P \<noteq> PlainUdp) Ns)) \<and>
     fw_associates fw' = fw_associates fw + of_nat (length (filter (\<lambda>N. an_connect N = Ready () \<and> P = PlainUdp) Ns)) \<and>
     fw_connect_timeouts fw' = fw_connect_timeouts fw + of_nat (length (filter (\<lambda>N. an_connect N = Outstanding) Ns)) \<and>
     fw_read fw' = fw_read fw + sum_list (map (\<lambda>N. if an_connect N = Ready () then an_read N else 0) Ns)"

lemma log_counters [simp]:
  "activity (log_upstream_failure now s e fw) = activity fw"
  "activity (log_ipv6_skip_once s fw) = activity fw"
  by (auto simp: activity_def log_upstream_failure_def log_ipv6_skip_once_def Let_def
      split: prod.splits throttle_decision.splits)

lemma moved_by_activity:
  "activity fw1 = activity fw2 \<Longrightarrow> moved_by P Ns fw1 fw' = moved_by P Ns fw2 fw'"
  by (simp add: moved_by_def activity_def)

lemma walk_moved:
  assumes sni: "\<And>past t n. an_sni_ok (net past t q b) n" and "walk_servers net q b servers worst fw = (res, fw')"
  shows "\<exists>ts. fw_attempts fw' = fw_attempts fw @ ts \<and> length ts \<le> length servers \<and>
           moved_by (dns_protocol (fw_config fw)) (met net q b (fw_attempts fw) ts) fw fw'"
  using assms(2)
proof (induction servers arbitrary: worst fw)
  case Nil
  then show ?case by (simp add: moved_by_def)
next
  case (Cons s servers)
  let ?P = "dns_protocol (fw_config fw)"
  show ?case
  proof (cases "skips fw s")
    case True
    with Cons.prems Cons.IH [of worst "log_ipv6_skip_once s fw"] show ?thesis
      by (auto simp: moved_by_activity [of "log_ipv6_skip_once s fw" fw] intro: le_SucI)
  next
    case False
    let ?t = "target_for ?P s"
    obtain r fw1 where f: "forward_one net ?t q b fw = (r, fw1)" by fastforce
    have at: "fw_attempts fw1 = fw_attempts fw @ [?t]" "fw_config fw1 = fw_config fw"
      using forward_one_frame [of net ?t q b fw] f by simp_all
    note ev = forward_one_evidence(1-4) [OF refl allI f, OF sni]
    have one: "moved_by ?P Ns fw1 fw' \<Longrightarrow> moved_by ?P (net (fw_attempts fw) ?t q b # Ns) fw fw'" for Ns fw'
      using ev by (cases "an_connect (net (fw_attempts fw) ?t q b)"; cases "?P = PlainUdp") (simp_all add: moved_by_def)
    show ?thesis
    proof (cases r)
      case (Inr reply)
      with Cons.prems f False have "fw' = fw1" by simp
      moreover have "moved_by ?P [] fw1 fw1" by (simp add: moved_by_def)
      ultimately show ?thesis using at one by (intro exI [of _ "[?t]"]) simp
    next
      case (Inl e)
      let ?fw = "log_upstream_failure (an_logged_at (net (fw_attempts fw) ?t q b)) s e fw1"
      have "walk_servers net q b servers (fold_cause worst (cause e)) ?fw = (res, fw')"
        using Cons.prems False f Inl by (simp add: Let_def)
      from Cons.IH [OF this] obtain ts where "fw_attempts fw' = fw_attempts fw @ ?t # ts" "length ts \<le> length servers"
        "moved_by ?P (met net q b (fw_attempts fw @ [?t]) ts) fw1 fw'"
        using at by (auto simp: moved_by_activity [of ?fw fw1])
      then show ?thesis using one by (intro exI [of _ "?t # ts"]) simp
    qed
  qed
qed


lemma sample_self_test_query_long [simp]: "\<not> length sample_self_test_query < 12" "12 \<le> length sample_self_test_query"
  by (simp_all add: sample_self_test_query_def)

text \<open>The gate's clean failures come from a walk that asked and got no reply.\<close>

lemma gate_transport_failure:
  assumes "run_forwarder_self_test net False elapsed servers fwd = Some (GateFailed k ms reason)"
    "reason \<in> {NoConnection, TunnelSetupPending, TunnelSilent}"
  obtains c fwd' where "try_forward net sample_self_test_query TUNNEL_QUERY_TIMEOUT fwd = (Err (Upstream c), fwd')"
    "reason = classify_failure \<lparr>ob_answered = False, ob_dialled = True, ob_moved = since (activity fwd') (activity fwd)\<rparr>
       (describe_upstream_failure c)"
  using assms by (auto simp: run_forwarder_self_test_def Let_def classify_failure_def
      split: if_splits prod.splits sum.splits forward_failure.splits)

lemma walk_upstream_attempts:
  assumes "walk_servers net q b servers None fw = (Err (Upstream c), fw')"
  shows "fw_attempts fw' \<noteq> fw_attempts fw"
  using walk_servers_outcomes [OF refl assms] by (cases "filter (\<lambda>s. \<not> skips fw s) servers") auto

lemma of_nat_pos64: "m < 2 ^ 64 \<Longrightarrow> (0 < (of_nat m :: u64)) = (0 < m)"
  by (simp add: word_less_nat_alt unat_of_nat)

lemma sum_words_zero:
  "sum_list (map (\<lambda>x. unat (f x)) xs) < 2 ^ 64 \<Longrightarrow> sum_list (map f xs) = (0 :: u64) \<Longrightarrow> x \<in> set xs \<Longrightarrow> f x = 0"
proof -
  assume b: "sum_list (map (\<lambda>x. unat (f x)) xs) < 2 ^ 64" and z: "sum_list (map f xs) = (0 :: u64)" and x: "x \<in> set xs"
  have "sum_list (map f xs) = of_nat (sum_list (map (\<lambda>x. unat (f x)) xs))" by (induction xs) simp_all
  moreover have "unat (of_nat (sum_list (map (\<lambda>x. unat (f x)) xs)) :: u64) = sum_list (map (\<lambda>x. unat (f x)) xs)"
    using b by (simp add: unat_of_nat)
  ultimately have "sum_list (map (\<lambda>x. unat (f x)) xs) = 0" using z by simp
  with x show "f x = 0" by (auto simp: unat_eq_zero)
qed

lemma reply_sum_le:
  "sum_list (map (\<lambda>N. unat (if an_connect N = Ready () then an_read N else 0)) Ns) \<le> sum_list (map (\<lambda>N. unat (an_read N)) Ns)"
  by (induction Ns) auto

text \<open>
  C26. What the start-time gate reports is what it saw. \<open>NoConnection\<close> is only reported when
  something was dialled and every connect failed outright; \<open>TunnelSetupPending\<close> when no connect
  completed and one was still outstanding; \<open>TunnelSilent\<close> when a stream was opened through the tunnel
  and not a byte came back over any connection.
\<close>

theorem gate_report_grounded:
  assumes "run_forwarder_self_test net False elapsed servers (forwarder_new cfg bypass) = Some (GateFailed k ms reason)"
    "\<forall>past t n. an_sni_ok (net past t sample_self_test_query TUNNEL_QUERY_TIMEOUT) n"
    "length (dns_servers cfg) < 2 ^ 64"
    "Ns = met net sample_self_test_query TUNNEL_QUERY_TIMEOUT []
            (fw_attempts (snd (try_forward net sample_self_test_query TUNNEL_QUERY_TIMEOUT (forwarder_new cfg bypass))))"
    "sum_list (map (\<lambda>N. unat (an_read N)) Ns) < 2 ^ 64"
  shows "(reason = NoConnection \<longrightarrow> Ns \<noteq> [] \<and> (\<forall>N \<in> set Ns. \<exists>x. an_connect N = IoFailed x)) \<and>
         (reason = TunnelSetupPending \<longrightarrow>
            (\<forall>N \<in> set Ns. an_connect N \<noteq> Ready ()) \<and> (\<exists>N \<in> set Ns. an_connect N = Outstanding)) \<and>
         (reason = TunnelSilent \<longrightarrow>
            dns_protocol cfg \<noteq> PlainUdp \<and> (\<exists>N \<in> set Ns. an_connect N = Ready ()) \<and>
            (\<forall>N \<in> set Ns. an_connect N = Ready () \<longrightarrow> an_read N = 0))"
proof (cases "reason \<in> {NoConnection, TunnelSetupPending, TunnelSilent}")
  case True
  let ?fwd = "forwarder_new cfg bypass" and ?q = sample_self_test_query and ?b = TUNNEL_QUERY_TIMEOUT
  obtain c fwd' where t: "try_forward net ?q ?b ?fwd = (Err (Upstream c), fwd')"
    and r: "reason = classify_failure \<lparr>ob_answered = False, ob_dialled = True, ob_moved = since (activity fwd') (activity ?fwd)\<rparr>
       (describe_upstream_failure c)"
    using gate_transport_failure [OF assms(1) True] by metis
  have w: "walk_servers net ?q ?b (dns_servers cfg) None ?fwd = (Err (Upstream c), fwd')"
    using t by (simp add: try_forward_def forwarder_new_def)
  obtain ts where ts: "fw_attempts fwd' = ts" "length ts \<le> length (dns_servers cfg)"
    "moved_by (dns_protocol cfg) (met net ?q ?b [] ts) ?fwd fwd'"
    using walk_moved [OF _ w] assms(2) by (auto simp: forwarder_new_def)
  have Ns: "Ns = met net ?q ?b [] ts" using assms(4) t ts(1) by simp
  have len: "length (met net ?q ?b past us) = length us" for past us by (induction us arbitrary: past) simp_all
  have f: "length (filter Q Ns) < 2 ^ 64" for Q
    using length_filter_le [of Q Ns] ts(2) assms(3) by (simp add: Ns len)
  define A where "A = since (activity fwd') (activity ?fwd)"
  have m: "ua_connects A > 0 \<longleftrightarrow> (\<exists>N \<in> set Ns. an_connect N = Ready ()) \<and> dns_protocol cfg \<noteq> PlainUdp"
    "ua_associates A > 0 \<longleftrightarrow> (\<exists>N \<in> set Ns. an_connect N = Ready ()) \<and> dns_protocol cfg = PlainUdp"
    "ua_connect_timeouts A > 0 \<longleftrightarrow> (\<exists>N \<in> set Ns. an_connect N = Outstanding)"
    "ua_read A = sum_list (map (\<lambda>N. if an_connect N = Ready () then an_read N else 0) Ns)"
    using ts(3) f
    by (auto simp: A_def since_def activity_def saturating_sub_def moved_by_def forwarder_new_def Ns [symmetric] of_nat_pos64
        filter_empty_conv)
  have zero: "ua_read A = 0 \<Longrightarrow> N \<in> set Ns \<Longrightarrow> an_connect N = Ready () \<Longrightarrow> an_read N = 0" for N
    using sum_words_zero [of "\<lambda>N. if an_connect N = Ready () then an_read N else 0" Ns N] m(4)
      reply_sum_le [of Ns] assms(5) by (simp add: le_less_trans)
  have "ts \<noteq> []" using walk_upstream_attempts [OF w] ts(1) by (simp add: forwarder_new_def)
  then have "Ns \<noteq> []" by (cases ts) (simp_all add: Ns)
  moreover have "\<exists>x. an_connect N = IoFailed x" if "an_connect N \<noteq> Ready ()" "an_connect N \<noteq> Outstanding" for N
    using that by (cases "an_connect N") auto
  ultimately show ?thesis
    using r m zero by (auto simp: classify_failure_def A_def [symmetric] word_gt_0 split: if_splits)
qed auto


theorem gate_report_grounded_witness:
  "run_forwarder_self_test sample_net False 5 [V4 0x08080808]
     (forwarder_new (single_resolver_cfg (V4 0x08080808)) True) = Some (GateFailed 1 5 TunnelSetupPending) \<and>
   list_all (\<lambda>N. an_connect N \<noteq> Ready ())
     (met sample_net sample_self_test_query TUNNEL_QUERY_TIMEOUT []
        (fw_attempts (snd (try_forward sample_net sample_self_test_query TUNNEL_QUERY_TIMEOUT
           (forwarder_new (single_resolver_cfg (V4 0x08080808)) True)))))"
proof -
  let ?fw = "forwarder_new (single_resolver_cfg (V4 0x08080808)) True"
  let ?Ns = "met sample_net sample_self_test_query TUNNEL_QUERY_TIMEOUT []
        (fw_attempts (snd (try_forward sample_net sample_self_test_query TUNNEL_QUERY_TIMEOUT ?fw)))"
  have r: "run_forwarder_self_test sample_net False 5 [V4 0x08080808] ?fw = Some (GateFailed 1 5 TunnelSetupPending)"
    by code_simp
  have s: "sum_list (map (\<lambda>N. unat (an_read N)) ?Ns) = 40" by code_simp
  show ?thesis
    using gate_report_grounded [OF r _ _ refl] r s
    by (auto simp: sample_net_def single_resolver_cfg_def list_all_iff)
qed

end
