(* ===== verification/Ipc.thy ===== *)
theory Ipc
  imports Proxy_Safety
begin

text \<open>
  The bridge's IPC server (crates/bridge/src/ipc.rs): the handlers of its requests and how they
  interleave, with the header parsing of crates/common/src/config.rs and the wire form of a start
  error (crates/bridge/src/proxy/config.rs).

  Every request is a task. A task's constructor is the point its handler has reached, and one step
  runs the handler up to its next point where another task can be seen: an acquired or a released
  mutex, an access of the shared counter or flag, a locked section of one state file, a call of the
  proxy manager. \<open>ip_proxy_lock\<close> and \<open>ip_intent_persist\<close> are the holders of the two mutexes that
  are held over several steps (the proxy manager's and the one that orders the records of a start
  against those of an unblock); the slot mutex is taken and released within one step.

  The manager's state directory and the server's are the same directory, \<open>pm_dir\<close>. A call of the
  manager is one step: what an unblock does to the intent file while a start runs is
  \<open>e_meanwhile\<close>, and a token cancelled while it runs is one that was cancelled before the step.
  The token of a start is named by its task.

  A handler runs to its end: a request whose connection the HTTP library drops is not modelled.
  Redaction is the parameter \<open>ie_redact\<close>. The update request is modelled in \<open>Update_Apply\<close>; the
  server test and the fields of a status that decide nothing (uptime, traffic) are left out.
\<close>

section \<open>Request headers\<close>

type_synonym attempt_id = string

datatype header_value = HeaderText string | HeaderGarbled

type_synonym header_map = "(string \<times> header_value) list"

definition ATTEMPT_ID_HEADER :: string where
  "ATTEMPT_ID_HEADER = ''x-hole-attempt-id''"

definition ON_STARTUP_HEADER :: string where
  "ON_STARTUP_HEADER = ''x-hole-on-startup''"

fun to_str :: "header_value \<Rightarrow> string option" where
  "to_str (HeaderText v) = Some v"
| "to_str HeaderGarbled = None"

definition attempt_id_from :: "header_map \<Rightarrow> attempt_id" where
  "attempt_id_from headers =
     (case Option.bind (map_of headers ATTEMPT_ID_HEADER) to_str of Some v \<Rightarrow> v | None \<Rightarrow> [])"

fun as_header_value :: "startup_behavior \<Rightarrow> string" where
  "as_header_value DoNotConnect = ''do_not_connect''"
| "as_header_value RestoreLastState = ''restore_last_state''"
| "as_header_value AlwaysConnect = ''always_connect''"

definition from_header_value :: "string option \<Rightarrow> startup_behavior option" where
  "from_header_value value =
     (case value of
        None \<Rightarrow> None
      | Some v \<Rightarrow> Some (if v = ''do_not_connect'' then DoNotConnect
                     else if v = ''restore_last_state'' then RestoreLastState
                     else if v = ''always_connect'' then AlwaysConnect
                     else RestoreLastState))"

definition on_startup_from :: "header_map \<Rightarrow> startup_behavior option" where
  "on_startup_from headers = from_header_value (Option.bind (map_of headers ON_STARTUP_HEADER) to_str)"

section \<open>The start-cancellation handoff\<close>

text \<open>Tokens are numbers; a token is cancelled when its number is among the cancelled ones.\<close>

record start_cancel_state =
  in_flight :: "(attempt_id \<times> nat) option"
  pre_armed :: "attempt_id option"

definition start_cancel_default :: start_cancel_state where
  "start_cancel_default = \<lparr>in_flight = None, pre_armed = None\<rparr>"

datatype start_error = StartCancelled | StartAlreadyRunning | StartNetworkBlocked | StartFailedWith string

datatype start_handler_error = ConcurrentStart | StartHandlerFailed start_error

text \<open>The locked section of \<^verbatim>\<open>handle_start\<close>: consume, reject, supersede, register.\<close>

definition register_start :: "attempt_id \<Rightarrow> nat \<Rightarrow> start_cancel_state \<Rightarrow>
    start_cancel_state \<times> start_handler_error option" where
  "register_start attempt token cs =
     (if attempt \<noteq> [] \<and> pre_armed cs = Some attempt
      then (cs\<lparr>pre_armed := None\<rparr>, Some (StartHandlerFailed StartCancelled))
      else if in_flight cs \<noteq> None then (cs, Some ConcurrentStart)
      else (cs\<lparr>pre_armed := None, in_flight := Some (attempt, token)\<rparr>, None))"

text \<open>\<^verbatim>\<open>handle_cancel\<close>: the new slots and the token it cancels, if any.\<close>

definition handle_cancel :: "attempt_id \<Rightarrow> start_cancel_state \<Rightarrow> start_cancel_state \<times> nat option" where
  "handle_cancel attempt cs =
     (case in_flight cs of
        Some (cur, tok) \<Rightarrow>
          if attempt \<noteq> [] \<and> cur = attempt then (cs, Some tok)
          else if attempt \<noteq> [] then (cs\<lparr>pre_armed := Some attempt\<rparr>, None)
          else (cs, None)
      | None \<Rightarrow> if attempt \<noteq> [] then (cs\<lparr>pre_armed := Some attempt\<rparr>, None) else (cs, None))"

text \<open>Clearing the slot; \<open>None\<close> is the failed \<^verbatim>\<open>debug_assert\<close>.\<close>

definition clear_in_flight :: "attempt_id \<Rightarrow> start_cancel_state \<Rightarrow> start_cancel_state option" where
  "clear_in_flight attempt cs =
     (case in_flight cs of
        Some (cur, _) \<Rightarrow> if cur = attempt then Some (cs\<lparr>in_flight := None\<rparr>) else None
      | None \<Rightarrow> None)"

section \<open>Environment and responses\<close>

text \<open>
  What a step may meet: the manager's environment, the serializers of the startup preference and
  which accesses of the state directory fail, for each of the records the server writes itself.
\<close>

record ipc_env =
  ie_pm :: pm_env
  ie_pref_codec :: "proxy_config startup_preference codec"
  ie_fs_target :: fs_env
  ie_fs_intent :: fs_env
  ie_fs_pref :: fs_env
  ie_redact :: "string \<Rightarrow> string"
  ie_default_route :: bool

record status_response =
  st_running :: bool
  st_error :: bool
  st_udp_proxy_available :: bool
  st_ipv6_bypass_available :: bool
  st_lockdown_enabled :: bool
  st_cover_presence :: cover_presence
  st_blocked_until_connected :: bool

datatype response =
    Ack
  | StatusReply status_response
  | MetricsReply bool
  | DiagnosticsReply bool bool
  | StartConflict
  | StartFailure start_error
  | ServerFailure string
  | Panicked

fun response_code :: "response \<Rightarrow> nat" where
  "response_code Ack = 200"
| "response_code (StatusReply _) = 200"
| "response_code (MetricsReply _) = 200"
| "response_code (DiagnosticsReply _ _) = 200"
| "response_code StartConflict = 409"
| "response_code (StartFailure _) = 500"
| "response_code (ServerFailure _) = 500"
| "response_code Panicked = 500"

definition start_error_of :: "ipc_env \<Rightarrow> proxy_error \<Rightarrow> start_error" where
  "start_error_of E e =
     (case e of
        Cancelled \<Rightarrow> StartCancelled
      | AlreadyRunning \<Rightarrow> StartAlreadyRunning
      | NetworkBlocked \<Rightarrow> StartNetworkBlocked
      | _ \<Rightarrow> StartFailedWith (e_display (ie_pm E) e))"

fun redact_outgoing :: "ipc_env \<Rightarrow> start_error \<Rightarrow> start_error" where
  "redact_outgoing E (StartFailedWith message) = StartFailedWith (ie_redact E message)"
| "redact_outgoing E StartCancelled = StartCancelled"
| "redact_outgoing E StartAlreadyRunning = StartAlreadyRunning"
| "redact_outgoing E StartNetworkBlocked = StartNetworkBlocked"

fun start_refused :: "start_handler_error \<Rightarrow> response" where
  "start_refused ConcurrentStart = StartConflict"
| "start_refused (StartHandlerFailed e) = StartFailure e"

definition start_response :: "ipc_env \<Rightarrow> proxy_error option \<Rightarrow> response" where
  "start_response E r =
     (case r of None \<Rightarrow> Ack | Some e \<Rightarrow> start_refused (StartHandlerFailed (redact_outgoing E (start_error_of E e))))"

definition reload_response :: "ipc_env \<Rightarrow> proxy_error option \<Rightarrow> response" where
  "reload_response E r =
     (case r of
        None \<Rightarrow> Ack
      | Some e \<Rightarrow> ServerFailure (case redact_outgoing E (start_error_of E e) of
                                  StartFailedWith message \<Rightarrow> message
                                | _ \<Rightarrow> e_display (ie_pm E) e))"

definition NOT_UNBLOCKED :: string where
  "NOT_UNBLOCKED = ''the network could not be fully unblocked''"

definition unblock_error_message :: "ipc_env \<Rightarrow> proxy_error \<Rightarrow> string" where
  "unblock_error_message E e =
     (if e = LockdownIntentNotPersisted then e_display (ie_pm E) e else NOT_UNBLOCKED)"

section \<open>The records of a start\<close>

text \<open>
  One locked section each: the target, then the preference. \<open>declined\<close> is that an unblock committed
  since the start's snapshot of the counter.
\<close>

fun update_ok :: "'r update_result \<Rightarrow> bool" where
  "update_ok (UOk _ _) = True"
| "update_ok (UErr _) = False"
| "update_ok UPanic = False"

definition write_start_target :: "ipc_env \<Rightarrow> proxy_config \<Rightarrow> world \<Rightarrow> world \<times> bool" where
  "write_start_target E config w =
     (case apply_target (e_target_codec (ie_pm E)) (ie_fs_target E) (\<lambda>_. Connected config) w of
        (w', r) \<Rightarrow> (w', update_ok r))"

definition write_preference :: "ipc_env \<Rightarrow> (proxy_config startup_preference \<Rightarrow> proxy_config startup_preference) \<Rightarrow>
    world \<Rightarrow> world \<times> bool" where
  "write_preference E f w =
     (case apply_startup_preference (ie_pref_codec E) (ie_fs_pref E) f w of (w', r) \<Rightarrow> (w', update_ok r))"

definition start_preference :: "proxy_config \<Rightarrow> startup_behavior option \<Rightarrow> bool \<Rightarrow>
    proxy_config startup_preference \<Rightarrow> proxy_config startup_preference" where
  "start_preference config on_startup' declined pref =
     (let pref1 = (case on_startup' of Some b \<Rightarrow> pref\<lparr>on_startup := b\<rparr> | None \<Rightarrow> pref)
      in if declined then pref1 else pref1\<lparr>candidate := Some config\<rparr>)"

definition write_start_records :: "ipc_env \<Rightarrow> proxy_config \<Rightarrow> startup_behavior option \<Rightarrow> bool \<Rightarrow> world \<Rightarrow>
    world \<times> bool" where
  "write_start_records E config on_startup' declined w =
     (case (if declined then (w, True) else write_start_target E config w) of
        (w1, False) \<Rightarrow> (w1, False)
      | (w1, True) \<Rightarrow> write_preference E (start_preference config on_startup' declined) w1)"

text \<open>\<^verbatim>\<open>persist_after_start\<close>, run without another task in between.\<close>

definition persist_after_start :: "ipc_env \<Rightarrow> proxy_config \<Rightarrow> startup_behavior option \<Rightarrow> bool \<Rightarrow>
    64 word \<Rightarrow> 64 word \<Rightarrow> world \<Rightarrow> world \<times> bool" where
  "persist_after_start E config on_startup' succeeded unblock_snapshot generation w =
     (if succeeded then write_start_records E config on_startup' (generation \<noteq> unblock_snapshot) w
      else case on_startup' of
             Some b \<Rightarrow> write_preference E (\<lambda>pref. pref\<lparr>on_startup := b\<rparr>) w
           | None \<Rightarrow> (w, True))"

section \<open>The records of an unblock\<close>

definition write_unblock_target :: "ipc_env \<Rightarrow> world \<Rightarrow> world \<times> bool" where
  "write_unblock_target E w =
     (case apply_target (e_target_codec (ie_pm E)) (ie_fs_target E) (\<lambda>_. Off) w of (w', r) \<Rightarrow> (w', update_ok r))"

definition write_unblock_intent :: "ipc_env \<Rightarrow> world \<Rightarrow> world \<times> bool" where
  "write_unblock_intent E w =
     (case set_enabled (e_lockdown_codec (ie_pm E)) (ie_fs_intent E) False w of (w', r) \<Rightarrow> (w', update_ok r))"

definition write_unblock_candidate :: "ipc_env \<Rightarrow> world \<Rightarrow> world \<times> bool" where
  "write_unblock_candidate E w = write_preference E (\<lambda>pref. pref\<lparr>candidate := None\<rparr>) w"

section \<open>Server state and tasks\<close>

text \<open>A start or a reload after its request was read; a reload carries no attempt.\<close>

record job =
  jb_config :: proxy_config
  jb_on_startup :: "startup_behavior option"
  jb_attempt :: "attempt_id option"

datatype manager_call = CallStop | CallLockdown bool | CallStatus | CallMetrics | CallDiagnostics

datatype task =
    StartArrived proxy_config header_map
  | ReloadArrived proxy_config
  | StartRegistered job
  | AwaitProxy job "64 word"
  | CallManager job "64 word"
  | AwaitPersist job "64 word" "proxy_error option"
  | PersistDecide job "64 word" "proxy_error option"
  | WriteTarget job bool
  | WritePreference job bool
  | PushPreference job startup_behavior "proxy_error option"
  | UnlockPersist job "proxy_error option"
  | UnlockProxy job "proxy_error option"
  | ClearSlot job "proxy_error option"
  | UnblockArrived
  | UnblockRelease
  | UnblockAwait
  | UnblockTarget
  | UnblockBump
  | UnblockIntent
  | UnblockCandidate
  | UnblockUnlock response
  | CancelArrived header_map
  | AwaitCall manager_call
  | DoCall manager_call
  | EndCall response
  | EndStatus status_response
  | ProbeStatus status_response
  | Done response

text \<open>\<open>ip_unblocks\<close> counts the unblocks that committed: the counter of the code is its value modulo \<open>2 ^ 64\<close>.\<close>

record ipc_state =
  ip_pm :: pm
  ip_proxy_lock :: "nat option"
  ip_generation :: "64 word"
  ip_unblocks :: nat
  ip_intent_persist :: "nat option"
  ip_start_cancel :: start_cancel_state
  ip_cancelled :: "nat list"
  ip_tasks :: "nat \<Rightarrow> task option"

definition bind_with_dirs :: "pm \<Rightarrow> ipc_state" where
  "bind_with_dirs proxy =
     \<lparr>ip_pm = proxy, ip_proxy_lock = None, ip_generation = 0, ip_unblocks = 0, ip_intent_persist = None,
      ip_start_cancel = start_cancel_default, ip_cancelled = [], ip_tasks = Map.empty\<rparr>"

definition goto :: "nat \<Rightarrow> task \<Rightarrow> ipc_state \<Rightarrow> ipc_state" where
  "goto i t s = s\<lparr>ip_tasks := (ip_tasks s)(i \<mapsto> t)\<rparr>"

definition set_dir :: "world \<Rightarrow> ipc_state \<Rightarrow> ipc_state" where
  "set_dir w s = s\<lparr>ip_pm := (ip_pm s)\<lparr>pm_dir := w\<rparr>\<rparr>"

abbreviation ip_dir :: "ipc_state \<Rightarrow> world" where
  "ip_dir s \<equiv> pm_dir (ip_pm s)"

section \<open>The handlers that hold the proxy lock for one call\<close>

text \<open>\<^verbatim>\<open>handle_status\<close> and \<^verbatim>\<open>handle_metrics\<close> tear a dead session down first.\<close>

definition settle_health :: "ipc_env \<Rightarrow> pm \<Rightarrow> pm" where
  "settle_health E s =
     (case check_health (ie_pm E) s of
        (s1, Some event) \<Rightarrow> fst (stop_with (ie_pm E) event s1)
      | (s1, None) \<Rightarrow> s1)"

definition status_snapshot :: "ipc_env \<Rightarrow> pm \<Rightarrow> status_response" where
  "status_snapshot E s =
     \<lparr>st_running = (pm_state s = Running), st_error = pm_death_reason s, st_udp_proxy_available = pm_udp s,
      st_ipv6_bypass_available = pm_ipv6 s, st_lockdown_enabled = lockdown_enabled (ie_pm E) s,
      st_cover_presence = AbsentCover, st_blocked_until_connected = blocked_until_connected s\<rparr>"

definition handle_lockdown :: "ipc_env \<Rightarrow> bool \<Rightarrow> pm \<Rightarrow> pm \<times> response" where
  "handle_lockdown E enabled s =
     (if \<not> enabled
      then (case turn_lockdown_off (ie_pm E) s of
              (s1, None) \<Rightarrow> (s1, Ack)
            | (s1, Some e) \<Rightarrow> (s1, ServerFailure (unblock_error_message E e)))
      else (case set_lockdown_intent (ie_pm E) True s of
              (s1, None) \<Rightarrow> (s1, Ack)
            | (s1, Some e) \<Rightarrow> (s1, ServerFailure (e_display (ie_pm E) e))))"

definition handle_stop :: "ipc_env \<Rightarrow> pm \<Rightarrow> pm \<times> response" where
  "handle_stop E s =
     (case stop_with (ie_pm E) UserStopped s of
        (s1, None) \<Rightarrow> (s1, Ack)
      | (s1, Some e) \<Rightarrow> (s1, ServerFailure (e_display (ie_pm E) e)))"

fun manager_task :: "ipc_env \<Rightarrow> manager_call \<Rightarrow> pm \<Rightarrow> pm \<times> task" where
  "manager_task E CallStop s = map_prod id EndCall (handle_stop E s)"
| "manager_task E (CallLockdown enabled) s = map_prod id EndCall (handle_lockdown E enabled s)"
| "manager_task E CallStatus s = (let s1 = settle_health E s in (s1, EndStatus (status_snapshot E s1)))"
| "manager_task E CallMetrics s = (let s1 = settle_health E s in (s1, EndCall (MetricsReply (pm_state s1 = Running))))"
| "manager_task E CallDiagnostics s = (s, EndCall (DiagnosticsReply (pm_last_error s = None) (ie_default_route E)))"

section \<open>One step of a task\<close>

fun step_task :: "ipc_env \<Rightarrow> nat \<Rightarrow> task \<Rightarrow> ipc_state \<Rightarrow> ipc_state option" where
  "step_task E i (StartArrived config headers) s =
     (let attempt = attempt_id_from headers
      in case register_start attempt i (ip_start_cancel s) of
           (cs, Some e) \<Rightarrow> Some (goto i (Done (start_refused e)) (s\<lparr>ip_start_cancel := cs\<rparr>))
         | (cs, None) \<Rightarrow>
             Some (goto i (StartRegistered \<lparr>jb_config = config, jb_on_startup = on_startup_from headers,
                                            jb_attempt = Some attempt\<rparr>) (s\<lparr>ip_start_cancel := cs\<rparr>)))"
| "step_task E i (ReloadArrived config) s =
     Some (goto i (AwaitProxy \<lparr>jb_config = config, jb_on_startup = None, jb_attempt = None\<rparr> (ip_generation s)) s)"
| "step_task E i (StartRegistered j) s = Some (goto i (AwaitProxy j (ip_generation s)) s)"
| "step_task E i (AwaitProxy j snapshot) s =
     (if ip_proxy_lock s = None then Some (goto i (CallManager j snapshot) (s\<lparr>ip_proxy_lock := Some i\<rparr>)) else None)"
| "step_task E i (CallManager j snapshot) s =
     (case (if jb_attempt j = None then reload (ie_pm E) (jb_config j) (ip_pm s)
            else start_cancellable (ie_pm E) (jb_config j) False (ip_pm s)) of
        (pm, result) \<Rightarrow> Some (goto i (AwaitPersist j snapshot result) (s\<lparr>ip_pm := pm\<rparr>)))"
| "step_task E i (AwaitPersist j snapshot result) s =
     (if ip_intent_persist s = None
      then Some (goto i (PersistDecide j snapshot result) (s\<lparr>ip_intent_persist := Some i\<rparr>)) else None)"
| "step_task E i (PersistDecide j snapshot result) s =
     Some (goto i (case result of
         None \<Rightarrow> WriteTarget j (ip_generation s \<noteq> snapshot)
       | Some _ \<Rightarrow> (case jb_on_startup j of Some b \<Rightarrow> PushPreference j b result | None \<Rightarrow> UnlockPersist j result)) s)"
| "step_task E i (WriteTarget j declined) s =
     (if declined then Some (goto i (WritePreference j declined) s)
      else case write_start_target E (jb_config j) (ip_dir s) of
             (w, True) \<Rightarrow> Some (goto i (WritePreference j declined) (set_dir w s))
           | (w, False) \<Rightarrow> Some (goto i (UnlockPersist j None) (set_dir w s)))"
| "step_task E i (WritePreference j declined) s =
     (case write_preference E (start_preference (jb_config j) (jb_on_startup j) declined) (ip_dir s) of
        (w, _) \<Rightarrow> Some (goto i (UnlockPersist j None) (set_dir w s)))"
| "step_task E i (PushPreference j b result) s =
     (case write_preference E (\<lambda>pref. pref\<lparr>on_startup := b\<rparr>) (ip_dir s) of
        (w, _) \<Rightarrow> Some (goto i (UnlockPersist j result) (set_dir w s)))"
| "step_task E i (UnlockPersist j result) s =
     Some (goto i (UnlockProxy j result) (s\<lparr>ip_intent_persist := None\<rparr>))"
| "step_task E i (UnlockProxy j result) s =
     Some (goto i (if jb_attempt j = None then Done (reload_response E result) else ClearSlot j result)
       (s\<lparr>ip_proxy_lock := None\<rparr>))"
| "step_task E i (ClearSlot j result) s =
     (case clear_in_flight (case jb_attempt j of Some a \<Rightarrow> a | None \<Rightarrow> []) (ip_start_cancel s) of
        Some cs \<Rightarrow> Some (goto i (Done (start_response E result)) (s\<lparr>ip_start_cancel := cs\<rparr>))
      | None \<Rightarrow> Some (goto i (Done Panicked) s))"
| "step_task E i UnblockArrived s =
     Some (goto i UnblockRelease (s\<lparr>ip_pm := (ip_pm s)\<lparr>pm_invalidated := True\<rparr>\<rparr>))"
| "step_task E i UnblockRelease s =
     (case release_all_covers (ie_pm E) (ip_pm s) of
        (pm, Some e) \<Rightarrow> Some (goto i (Done (ServerFailure NOT_UNBLOCKED)) (s\<lparr>ip_pm := pm\<rparr>))
      | (pm, None) \<Rightarrow> Some (goto i UnblockAwait (s\<lparr>ip_pm := pm\<rparr>)))"
| "step_task E i UnblockAwait s =
     (if ip_intent_persist s = None then Some (goto i UnblockTarget (s\<lparr>ip_intent_persist := Some i\<rparr>)) else None)"
| "step_task E i UnblockTarget s =
     (case write_unblock_target E (ip_dir s) of
        (w, True) \<Rightarrow> Some (goto i UnblockBump (set_dir w s))
      | (w, False) \<Rightarrow> Some (goto i (UnblockUnlock (ServerFailure NOT_UNBLOCKED)) (set_dir w s)))"
| "step_task E i UnblockBump s =
     Some (goto i UnblockIntent (s\<lparr>ip_generation := ip_generation s + 1, ip_unblocks := Suc (ip_unblocks s)\<rparr>))"
| "step_task E i UnblockIntent s =
     (case write_unblock_intent E (ip_dir s) of
        (w, True) \<Rightarrow> Some (goto i UnblockCandidate (set_dir w s))
      | (w, False) \<Rightarrow> Some (goto i (UnblockUnlock (ServerFailure NOT_UNBLOCKED)) (set_dir w s)))"
| "step_task E i UnblockCandidate s =
     (case write_unblock_candidate E (ip_dir s) of
        (w, saved) \<Rightarrow> Some (goto i (UnblockUnlock (if saved then Ack else ServerFailure NOT_UNBLOCKED)) (set_dir w s)))"
| "step_task E i (UnblockUnlock r) s = Some (goto i (Done r) (s\<lparr>ip_intent_persist := None\<rparr>))"
| "step_task E i (CancelArrived headers) s =
     (case handle_cancel (attempt_id_from headers) (ip_start_cancel s) of
        (cs, tok) \<Rightarrow> Some (goto i (Done Ack) (s\<lparr>ip_start_cancel := cs,
                             ip_cancelled := (case tok of Some k \<Rightarrow> k # ip_cancelled s | None \<Rightarrow> ip_cancelled s)\<rparr>)))"
| "step_task E i (AwaitCall call) s =
     (if ip_proxy_lock s = None then Some (goto i (DoCall call) (s\<lparr>ip_proxy_lock := Some i\<rparr>)) else None)"
| "step_task E i (DoCall call) s =
     (case manager_task E call (ip_pm s) of (pm, t) \<Rightarrow> Some (goto i t (s\<lparr>ip_pm := pm\<rparr>)))"
| "step_task E i (EndCall r) s = Some (goto i (Done r) (s\<lparr>ip_proxy_lock := None\<rparr>))"
| "step_task E i (EndStatus st) s = Some (goto i (ProbeStatus st) (s\<lparr>ip_proxy_lock := None\<rparr>))"
| "step_task E i (ProbeStatus st) s =
     Some (goto i (Done (StatusReply (st\<lparr>st_cover_presence := e_presence (ie_pm E) (pm_trace (ip_pm s))\<rparr>))) s)"
| "step_task E i (Done r) s = None"

section \<open>Runs of the server\<close>

fun is_arrival :: "task \<Rightarrow> bool" where
  "is_arrival (StartArrived _ _) = True"
| "is_arrival (ReloadArrived _) = True"
| "is_arrival UnblockArrived = True"
| "is_arrival (CancelArrived _) = True"
| "is_arrival (AwaitCall _) = True"
| "is_arrival _ = False"

text \<open>A start takes its snapshot of the counter after registering, a reload first.\<close>

fun takes_snapshot :: "task \<Rightarrow> bool" where
  "takes_snapshot (StartRegistered _) = True"
| "takes_snapshot (ReloadArrived _) = True"
| "takes_snapshot _ = False"

record ipc_codecs =
  ic_target :: "proxy_config target_file codec"
  ic_pref :: "proxy_config startup_preference codec"
  ic_lockdown :: "lockdown_state codec"

text \<open>
  What a step's environment is bound to: the build's serializers; other writers touch neither the
  target nor the preference during a start (those writes are steps of their own); only a cancelled
  token reads as cancelled.
\<close>

definition env_ok :: "ipc_codecs \<Rightarrow> ipc_state \<Rightarrow> nat \<Rightarrow> ipc_env \<Rightarrow> bool" where
  "env_ok C s i E \<longleftrightarrow>
     e_target_codec (ie_pm E) = ic_target C \<and> ie_pref_codec E = ic_pref C \<and>
     e_lockdown_codec (ie_pm E) = ic_lockdown C \<and>
     (\<forall>w. file_at (e_meanwhile (ie_pm E) w) TARGET_FILE_NAME = file_at w TARGET_FILE_NAME \<and>
          file_at (e_meanwhile (ie_pm E) w) STARTUP_PREFERENCE_FILE_NAME = file_at w STARTUP_PREFERENCE_FILE_NAME) \<and>
     (\<forall>tr. e_cancelled (ie_pm E) tr \<longrightarrow> i \<in> set (ip_cancelled s))"

inductive ipc_trans :: "ipc_codecs \<Rightarrow> bool \<Rightarrow> ipc_state \<Rightarrow> ipc_state \<Rightarrow> bool" for C where
  arrive: "ip_tasks s i = None \<Longrightarrow> is_arrival t \<Longrightarrow> ipc_trans C False s (goto i t s)"
| move: "ip_tasks s i = Some t \<Longrightarrow> env_ok C s i E \<Longrightarrow> step_task E i t s = Some s' \<Longrightarrow>
    ipc_trans C (takes_snapshot t) s s'"

inductive ipc_reachable :: "ipc_codecs \<Rightarrow> ipc_state \<Rightarrow> bool" for C where
  bound: "ipc_reachable C (bind_with_dirs proxy)"
| stepped: "ipc_reachable C s \<Longrightarrow> ipc_trans C b s s' \<Longrightarrow> ipc_reachable C s'"

text \<open>One task run by itself, a step per environment.\<close>

fun run_task :: "ipc_env list \<Rightarrow> nat \<Rightarrow> ipc_state \<Rightarrow> ipc_state" where
  "run_task [] i s = s"
| "run_task (E # Es) i s =
     (case ip_tasks s i of
        None \<Rightarrow> s
      | Some t \<Rightarrow> (case step_task E i t s of Some s' \<Rightarrow> run_task Es i s' | None \<Rightarrow> s))"

end
