(* ===== verification/Ipc_Safety.thy ===== *)
theory Ipc_Safety
  imports Ipc
begin

text \<open>
  What the IPC server of \<open>Ipc\<close> guarantees over every interleaving of its requests: who holds the
  mutexes and the start slot, that every request is answered, that a cancel reaches its own attempt
  only, and that an unblock which committed is not undone by a start that was already under way.
\<close>

section \<open>The three records of the state directory\<close>

lemma backup_prefix: "take (length file) (backup_name file n) = file"
  by (simp add: backup_name_def)

lemma record_names [simp]:
  "TARGET_FILE_NAME \<noteq> STARTUP_PREFERENCE_FILE_NAME" "TARGET_FILE_NAME \<noteq> LOCKDOWN_FILE_NAME"
  "STARTUP_PREFERENCE_FILE_NAME \<noteq> TARGET_FILE_NAME" "STARTUP_PREFERENCE_FILE_NAME \<noteq> LOCKDOWN_FILE_NAME"
  "TARGET_FILE_NAME \<notin> range (backup_name STARTUP_PREFERENCE_FILE_NAME)"
  "TARGET_FILE_NAME \<notin> range (backup_name LOCKDOWN_FILE_NAME)"
  "STARTUP_PREFERENCE_FILE_NAME \<notin> range (backup_name TARGET_FILE_NAME)"
  "STARTUP_PREFERENCE_FILE_NAME \<notin> range (backup_name LOCKDOWN_FILE_NAME)"
  by (auto simp: TARGET_FILE_NAME_def STARTUP_PREFERENCE_FILE_NAME_def LOCKDOWN_FILE_NAME_def backup_name_def
      split: if_splits)

text \<open>The target and the preference are the same in both directories.\<close>

definition same_records :: "world \<Rightarrow> world \<Rightarrow> bool" where
  "same_records w w' \<longleftrightarrow>
     file_at w' TARGET_FILE_NAME = file_at w TARGET_FILE_NAME \<and>
     file_at w' STARTUP_PREFERENCE_FILE_NAME = file_at w STARTUP_PREFERENCE_FILE_NAME"

lemma same_records_refl [simp, intro]: "same_records w w"
  by (simp add: same_records_def)

lemma same_records_trans [trans]: "same_records u v \<Longrightarrow> same_records v w \<Longrightarrow> same_records u w"
  by (simp add: same_records_def)

definition dir_target :: "ipc_codecs \<Rightarrow> world \<Rightarrow> proxy_config target option" where
  "dir_target C w = load_target (ic_target C) no_faults w"

definition dir_pref :: "ipc_codecs \<Rightarrow> world \<Rightarrow> proxy_config startup_preference option" where
  "dir_pref C w = load_startup_preference (ic_pref C) no_faults w"

definition dir_candidate :: "ipc_codecs \<Rightarrow> world \<Rightarrow> proxy_config option" where
  "dir_candidate C w = (case dir_pref C w of Some p \<Rightarrow> candidate p | None \<Rightarrow> None)"

lemma load_preference_clean:
  "load_startup_preference C no_faults w = map_option preference_of (clean_read (startup_schema C) w)"
  by (simp add: load_startup_preference_def clean_read_def option.map_comp comp_def)

lemma target_reads_file: "file_at w' TARGET_FILE_NAME = file_at w TARGET_FILE_NAME \<Longrightarrow> dir_target C w' = dir_target C w"
  by (simp add: dir_target_def load_target_clean clean_read_node target_schema_def)

lemma pref_reads_file:
  "file_at w' STARTUP_PREFERENCE_FILE_NAME = file_at w STARTUP_PREFERENCE_FILE_NAME \<Longrightarrow> dir_pref C w' = dir_pref C w"
  by (simp add: dir_pref_def load_preference_clean clean_read_node startup_schema_def)

lemma same_records_reads: "same_records w w' \<Longrightarrow> dir_target C w' = dir_target C w \<and> dir_pref C w' = dir_pref C w"
  using target_reads_file pref_reads_file by (metis same_records_def)

subsection \<open>What a write of one record leaves of the others\<close>

lemma state_record_elsewhere:
  assumes "vf_update (record_file r n C) E d w = (w', res)" "m \<noteq> n" "m \<notin> range (backup_name n)"
  shows "file_at w' m = file_at w m"
  by (rule vf_update_elsewhere [OF assms(1)]) (simp_all add: assms)

lemma apply_target_pref:
  assumes "apply_target C E f w = (w', r)"
  shows "file_at w' STARTUP_PREFERENCE_FILE_NAME = file_at w STARTUP_PREFERENCE_FILE_NAME"
  by (rule state_record_elsewhere [OF assms [unfolded apply_target_def target_schema_def]]) simp_all

lemma apply_preference_target:
  assumes "apply_startup_preference C E f w = (w', r)"
  shows "file_at w' TARGET_FILE_NAME = file_at w TARGET_FILE_NAME"
  by (rule state_record_elsewhere [OF assms [unfolded apply_startup_preference_def startup_schema_def]]) simp_all

lemma set_enabled_records: "set_enabled C E b w = (w', r) \<Longrightarrow> same_records w w'"
  unfolding same_records_def set_enabled_def lockdown_file_def
  by (intro conjI; erule state_record_elsewhere; simp)

lemma set_intent_records: "set_lockdown_intent E b s = (s', r) \<Longrightarrow> same_records (pm_dir s) (pm_dir s')"
  by (auto simp: set_lockdown_intent_def split: if_splits prod.splits update_result.splits dest: set_enabled_records)

lemma promote_records: "same_records (pm_dir s) (pm_dir (promote_adopted_claim E s))"
  unfolding promote_adopted_claim_def
  by (auto split: option.splits intent.splits intro: set_intent_records [of E True s, OF prod.collapse [symmetric]])

lemma preference_effect:
  assumes "codec_roundtrips C" "apply_startup_preference C E f w = (w', r)"
  shows "(case r of
      UOk _ _ \<Rightarrow> \<exists>p. load_startup_preference C no_faults w' = Some (f p) \<and>
        (load_startup_preference C no_faults w = Some p \<or> p = preference_default)
    | UErr e \<Rightarrow> load_startup_preference C no_faults w' = load_startup_preference C no_faults w
    | UPanic \<Rightarrow> False)"
proof (cases r)
  case (UOk x u)
  note eq = assms(2) [unfolded apply_startup_preference_def UOk]
  from vf.result [OF eq] obtain ob where ob: "seen_by_update (startup_schema C) E w = Some ob" by auto
  from vf_update_stored [OF eq ob] obtain s where
    "reads_back_as (startup_schema C) (f (preference_of (obs_loaded ob))) s"
    and cr: "clean_read (startup_schema C) w' = Some (Current s (VERSION (startup_schema C)))" by auto
  with codec_reads_back [OF assms(1)] have "s = f (preference_of (obs_loaded ob))"
    by (auto simp: startup_schema_def)
  moreover have "load_startup_preference C no_faults w = Some (preference_of (obs_loaded ob)) \<or>
      preference_of (obs_loaded ob) = preference_default"
    using seen_current [OF ob] by (cases "obs_loaded ob") (auto simp: load_preference_clean)
  ultimately show ?thesis using cr UOk by (auto simp: load_preference_clean)
next
  case (UErr e)
  with vf.failed [OF assms(2) [unfolded apply_startup_preference_def UErr]] show ?thesis
    by (simp add: load_preference_clean)
next
  case UPanic
  have "snd (apply_startup_preference C E f w) \<noteq> UPanic"
    unfolding apply_startup_preference_def startup_schema_def by (rule update_no_panic) simp
  with UPanic assms(2) show ?thesis by simp
qed

subsection \<open>What the manager leaves of the records\<close>

text \<open>Other writers touch neither record while a start runs.\<close>

definition meanwhile_ok :: "pm_env \<Rightarrow> bool" where
  "meanwhile_ok E \<longleftrightarrow> (\<forall>w. same_records w (e_meanwhile E w))"

abbreviation kept :: "pm \<Rightarrow> pm \<Rightarrow> bool" where
  "kept s s' \<equiv> same_records (pm_dir s) (pm_dir s')"

lemma dir_act [simp]: "pm_dir (act a s) = pm_dir s"
  by (simp add: act_def)

lemma dir_unwind [simp]: "pm_dir (unwind h s) = pm_dir s"
  by (simp add: unwind_def act_if_def)

lemma dir_take_pending [simp]: "pm_dir (take_pending s) = pm_dir s"
  by (simp add: take_pending_def split: option.splits)

lemma dir_start_entry [simp]: "pm_dir (start_entry cfg s) = pm_dir s"
  by (simp add: start_entry_def Let_def split: option.splits)

lemma dir_hold [simp]: "pm_dir (hold_pending b s) = pm_dir s" "pm_dir (commit_session r s) = pm_dir s"
  by (simp_all add: hold_pending_def commit_session_def)

lemma dir_engage_cover: "pm_dir (engage_cover E cfg ip pin permit fb s) = pm_dir s"
  unfolding engage_cover_def install_failclosed_cover_def Let_def
  by (auto split: option.splits prod.splits)

lemma dir_cover_for_start [simp]: "pm_dir (cover_for_start E cfg c l ip pin s) = pm_dir s"
  unfolding cover_for_start_def Let_def by (simp add: dir_engage_cover)

lemma dir_start_plugins: "start_plugins E cfg ip ech s = (s', r) \<Longrightarrow> pm_dir s' = pm_dir s"
proof (cases "se_plugin (pc_server cfg)")
  case (Some n)
  assume eq: "start_plugins E cfg ip ech s = (s', r)"
  obtain s1 r1 where c: "start_plugin_chain E cfg n ech s = (s1, r1)" by force
  from start_plugin_chain_cases [OF c] eq Some c show ?thesis
    unfolding start_plugins_def Let_def abort_def
    by (auto split: if_splits option.splits)
qed (auto simp: start_plugins_def Let_def abort_def split: if_splits option.splits)

lemma dir_start_proxy_task: "start_proxy_task E cfg h s = (s', r) \<Longrightarrow> pm_dir s' = pm_dir s"
  unfolding start_proxy_task_def Let_def abort_def by (auto split: if_splits option.splits)

lemma dir_start_forwarder: "start_forwarder E cfg tp ex h s = (s', r) \<Longrightarrow> pm_dir s' = pm_dir s"
  unfolding start_forwarder_def Let_def abort_def
  by (auto split: if_splits sum.splits bool.splits self_test.splits)

lemma dir_start_routes: "start_routes E h s = (s', r) \<Longrightarrow> pm_dir s' = pm_dir s"
  unfolding start_routes_def Let_def abort_def
  by (auto split: if_splits option.splits dispatcher_start.splits)

lemma dir_start_dns: "start_dns E f h s = (s', r) \<Longrightarrow> pm_dir s' = pm_dir s"
  unfolding start_dns_def Let_def abort_def by (auto split: if_splits option.splits dns_error.splits)

lemma kept_start_lockdown:
  assumes "meanwhile_ok E" "start_lockdown E ex h s = (s', r)"
  shows "kept s s'"
proof -
  let ?s1 = "act (InstallLockdown True) (s\<lparr>pm_dir := e_meanwhile E (pm_dir s)\<rparr>)"
  have m: "same_records (pm_dir s) (e_meanwhile E (pm_dir s))" using assms(1) by (simp add: meanwhile_ok_def)
  moreover have "same_records (pm_dir s) (pm_dir (promote_adopted_claim E ?s1))"
    using same_records_trans [OF m, of "pm_dir (promote_adopted_claim E ?s1)"] promote_records [of ?s1 E] by simp
  ultimately show ?thesis using assms(2)
    by (auto simp: start_lockdown_def Let_def abort_def split: if_splits option.splits)
qed

lemma kept_bind:
  assumes "pm_bind m f = (s', r)" "\<And>t x. m = (t, x) \<Longrightarrow> kept s t" "\<And>a t. f a t = (s', r) \<Longrightarrow> kept t s'"
  shows "kept s s'"
  using assms(1)
proof (cases rule: pm_bind_cases)
  case (went_on t a)
  from assms(2) [OF went_on(1)] assms(3) [OF went_on(2)] show ?thesis by (rule same_records_trans)
qed (use assms in blast)

lemma kept_dir: "pm_dir s' = pm_dir s \<Longrightarrow> kept s s'"
  by simp

lemmas kept_phases = dir_start_plugins [THEN kept_dir] dir_start_proxy_task [THEN kept_dir]
  dir_start_forwarder [THEN kept_dir] dir_start_routes [THEN kept_dir] dir_start_dns [THEN kept_dir]

lemma kept_start_full:
  assumes "meanwhile_ok E"
  shows "start_full E cfg ip tp ex h udp s = (s', r) \<Longrightarrow> kept s s'"
  unfolding start_full_def abort_def
  by (auto split: sum.splits elim!: kept_bind kept_phases intro: kept_start_lockdown [OF assms])

lemma kept_start_inner:
  assumes "meanwhile_ok E"
  shows "start_inner E cfg ip ech tp ex s = (s', r) \<Longrightarrow> kept s s'"
  unfolding start_inner_def start_socks_only_def
  by (auto elim!: kept_bind kept_phases split: if_splits intro: kept_start_full [OF assms])

lemma kept_start_cancellable:
  assumes "meanwhile_ok E" "start_cancellable E cfg c s = (s', r)"
  shows "kept s s'"
proof (cases "posture_session (pm_posture s)")
  case None
  show ?thesis
  proof (cases "start_resolve E cfg (start_entry cfg s)")
    case (Inr y)
    obtain ip pin where y: "y = (ip, pin)" by force
    let ?s1 = "start_entry cfg s" and ?l = "standing_cover_expected E (start_entry cfg s)"
    let ?s2 = "cover_for_start E cfg c ?l ip pin ?s1"
    obtain s3 z where st: "start_inner E cfg ip (ech_candidate cfg pin) (posture_pending (pm_posture ?s2) \<noteq> None)
        ?l ?s2 = (s3, z)" by force
    from kept_start_inner [OF assms(1) st] have "kept s s3" by simp
    with assms(2) None Inr y st show ?thesis
      by (cases z) (auto simp: start_cancellable_def Let_def split: if_splits)
  qed (use assms None in \<open>auto simp: start_cancellable_def Let_def split: if_splits\<close>)
qed (use assms in \<open>auto simp: start_cancellable_def\<close>)

text \<open>A session event never moves a target that is off, whatever its read meets.\<close>

lemma apply_event_off:
  assumes "codec_roundtrips C" "apply_target C E (\<lambda>t. target_after t ev) w = (w', r)"
    "load_target C no_faults w = Some Off"
  shows "load_target C no_faults w' = Some Off"
proof (cases r)
  case (UOk t u)
  with apply_target_effect [OF assms(1,2)] obtain ob where
    ob: "seen_by_update (target_schema C) E w = Some ob" "t = target_after (target_of (obs_loaded ob)) ev"
    and w': "if t = UnreadableTarget then w' = w else load_target C no_faults w' = Some t" by auto
  have "target_of (obs_loaded ob) = Off \<or> target_of (obs_loaded ob) = UnreadableTarget"
    using seen_current [OF ob(1)] assms(3) by (cases "obs_loaded ob") (auto simp: load_target_clean)
  with ob(2) have "t = Off \<or> t = UnreadableTarget" by (cases ev) auto
  with w' assms(3) show ?thesis by auto
next
  case (UErr e)
  with apply_target_effect [OF assms(1,2)] assms(3) show ?thesis by simp
next
  case UPanic
  with apply_target_effect [OF assms(1,2)] show ?thesis by simp
qed

lemma persist_event_dir:
  assumes "persist_session_event E ev s = (s', t)"
  obtains "pm_dir s' = pm_dir s"
  | r where "apply_target (e_target_codec E) (e_fs E (pm_trace s)) (\<lambda>t. target_after t ev) (pm_dir s) = (pm_dir s', r)"
  using assms by (auto simp: persist_session_event_def Let_def split: if_splits prod.splits update_result.splits)

text \<open>\<open>off_kept C w w'\<close>: a target that was off still is, and the preference is the same file.\<close>

definition off_kept :: "ipc_codecs \<Rightarrow> world \<Rightarrow> world \<Rightarrow> bool" where
  "off_kept C w w' \<longleftrightarrow>
     (dir_target C w = Some Off \<longrightarrow> dir_target C w' = Some Off) \<and> dir_pref C w' = dir_pref C w"

lemma off_kept_refl [simp, intro]: "off_kept C w w"
  by (simp add: off_kept_def)

lemma off_kept_trans: "off_kept C u v \<Longrightarrow> off_kept C v w \<Longrightarrow> off_kept C u w"
  by (simp add: off_kept_def)

lemma off_kept_same: "same_records w w' \<Longrightarrow> off_kept C w w'"
  using same_records_reads [of w w' C] by (simp add: off_kept_def)

lemma off_kept_stop:
  assumes "codec_roundtrips (ic_target C)" "e_target_codec E = ic_target C" "stop_with E ev s = (s', r)"
  shows "off_kept C (pm_dir s) (pm_dir s')"
proof -
  let ?s0 = "if pm_has_state_dir s then act (EnterPhase PersistTarget) s else s"
  obtain s1 t where p: "persist_session_event E ev ?s0 = (s1, t)" by force
  have d: "pm_dir s' = pm_dir s1" using stop_dir [OF assms(3)] p by simp
  from p show ?thesis
  proof (cases rule: persist_event_dir)
    case 1
    with d show ?thesis by simp
  next
    case (2 x)
    from apply_event_off [OF assms(1) 2 [unfolded assms(2)]] apply_target_pref [OF 2] d show ?thesis
      by (auto simp: off_kept_def dir_target_def intro: pref_reads_file)
  qed
qed

lemma off_kept_reload:
  assumes "codec_roundtrips (ic_target C)" "e_target_codec E = ic_target C" "meanwhile_ok E" "reload E cfg s = (s', r)"
  shows "off_kept C (pm_dir s) (pm_dir s')"
proof -
  have st: "off_kept C (pm_dir u) (pm_dir u')" if "start E cfg u = (u', x)" for u u' x
    using kept_start_cancellable [OF _ that [unfolded start_def]] assms(3)
    by (auto simp: meanwhile_ok_def intro: off_kept_same)
  have sw: "pm_dir (session_swap_rules us s) = pm_dir s" for us
    by (simp add: session_swap_rules_def split: posture.splits)
  show ?thesis
  proof (cases "pm_active_config s")
    case None
    with assms(4) st show ?thesis by (simp add: reload_def)
  next
    case (Some a)
    obtain s1 x where stop: "stop_with E Blipped s = (s1, x)" by force
    from off_kept_stop [OF assms(1,2) stop] off_kept_trans st assms(4) Some stop sw show ?thesis
      by (cases x) (auto simp: reload_def split: if_splits)
  qed
qed

lemma kept_turn_off: "turn_lockdown_off E s = (s', r) \<Longrightarrow> kept s s'"
proof -
  assume "turn_lockdown_off E s = (s', r)"
  moreover obtain s1 x where r: "release_all_covers E (take_pending s) = (s1, x)" by force
  moreover from r have "pm_dir s1 = pm_dir s" by (auto simp: release_all_covers_def Let_def)
  moreover obtain s2 y where i: "set_lockdown_intent E False (set_standing_cover_adopted False s1) = (s2, y)" by force
  moreover from set_intent_records [OF i] have "kept s1 s2" by (simp add: set_standing_cover_adopted_def)
  ultimately show ?thesis
    by (cases x; cases y) (auto simp: turn_lockdown_off_def)
qed

lemma off_kept_manager:
  assumes "codec_roundtrips (ic_target C)" "e_target_codec (ie_pm E) = ic_target C" "manager_task E call s = (s', t)"
  shows "off_kept C (pm_dir s) (pm_dir s')"
proof -
  have stop: "off_kept C (pm_dir u) (pm_dir (fst (stop_with (ie_pm E) ev u)))" for ev u
    using off_kept_stop [OF assms(1,2)] by (metis prod.collapse)
  have health: "pm_dir (fst (check_health (ie_pm E) u)) = pm_dir u" for u
    by (simp add: check_health_def split: option.splits)
  have settle: "off_kept C (pm_dir u) (pm_dir (settle_health E u))" for u
    using health [of u] stop by (auto simp: settle_health_def split: prod.splits option.splits) (metis fst_conv)+
  show ?thesis
  proof (cases call)
    case CallStop
    with assms(3) stop [of s UserStopped] show ?thesis
      by (auto simp: handle_stop_def split: prod.splits option.splits)
  next
    case (CallLockdown b)
    with assms(3) kept_turn_off [of "ie_pm E" s] set_intent_records [of "ie_pm E" True s] show ?thesis
      by (auto simp: handle_lockdown_def off_kept_same split: prod.splits option.splits if_splits)
  qed (use assms(3) settle in \<open>auto simp: Let_def\<close>)
qed

section \<open>Where a task stands\<close>

fun holds_proxy :: "task \<Rightarrow> bool" where
  "holds_proxy (CallManager _ _) = True"
| "holds_proxy (AwaitPersist _ _ _) = True"
| "holds_proxy (PersistDecide _ _ _) = True"
| "holds_proxy (WriteTarget _ _) = True"
| "holds_proxy (WritePreference _ _) = True"
| "holds_proxy (PushPreference _ _ _) = True"
| "holds_proxy (UnlockPersist _ _) = True"
| "holds_proxy (UnlockProxy _ _) = True"
| "holds_proxy (DoCall _) = True"
| "holds_proxy (EndCall _) = True"
| "holds_proxy (EndStatus _) = True"
| "holds_proxy _ = False"

fun holds_persist :: "task \<Rightarrow> bool" where
  "holds_persist (PersistDecide _ _ _) = True"
| "holds_persist (WriteTarget _ _) = True"
| "holds_persist (WritePreference _ _) = True"
| "holds_persist (PushPreference _ _ _) = True"
| "holds_persist (UnlockPersist _ _) = True"
| "holds_persist UnblockTarget = True"
| "holds_persist UnblockBump = True"
| "holds_persist UnblockIntent = True"
| "holds_persist UnblockCandidate = True"
| "holds_persist (UnblockUnlock _) = True"
| "holds_persist _ = False"

text \<open>The attempt of a start between its registration and the clearing of the slot.\<close>

fun slot_of :: "task \<Rightarrow> attempt_id option" where
  "slot_of (StartRegistered j) = jb_attempt j"
| "slot_of (AwaitProxy j _) = jb_attempt j"
| "slot_of (CallManager j _) = jb_attempt j"
| "slot_of (AwaitPersist j _ _) = jb_attempt j"
| "slot_of (PersistDecide j _ _) = jb_attempt j"
| "slot_of (WriteTarget j _) = jb_attempt j"
| "slot_of (WritePreference j _) = jb_attempt j"
| "slot_of (PushPreference j _ _) = jb_attempt j"
| "slot_of (UnlockPersist j _) = jb_attempt j"
| "slot_of (UnlockProxy j _) = jb_attempt j"
| "slot_of (ClearSlot j _) = jb_attempt j"
| "slot_of _ = None"

fun snapshot_of :: "task \<Rightarrow> 64 word option" where
  "snapshot_of (AwaitProxy _ g) = Some g"
| "snapshot_of (CallManager _ g) = Some g"
| "snapshot_of (AwaitPersist _ g _) = Some g"
| "snapshot_of (PersistDecide _ g _) = Some g"
| "snapshot_of _ = None"

fun clears_slot :: "task \<Rightarrow> bool" where
  "clears_slot (ClearSlot _ _) = True"
| "clears_slot _ = False"

fun reply_of :: "task \<Rightarrow> response option" where
  "reply_of (EndCall r) = Some r"
| "reply_of (UnblockUnlock r) = Some r"
| "reply_of (Done r) = Some r"
| "reply_of _ = None"

text \<open>A start's task at the clearing of its slot names an attempt, and no reply is a panic.\<close>

definition sound_task :: "task \<Rightarrow> bool" where
  "sound_task t \<longleftrightarrow> (clears_slot t \<longrightarrow> slot_of t \<noteq> None) \<and> reply_of t \<noteq> Some Panicked"

fun is_done :: "task \<Rightarrow> bool" where
  "is_done (Done _) = True"
| "is_done _ = False"

text \<open>The steps still to come, at most.\<close>

fun remaining :: "task \<Rightarrow> nat" where
  "remaining (Done _) = 0"
| "remaining (ClearSlot _ _) = 1"
| "remaining (UnlockProxy _ _) = 2"
| "remaining (UnlockPersist _ _) = 3"
| "remaining (WritePreference _ _) = 4"
| "remaining (PushPreference _ _ _) = 4"
| "remaining (WriteTarget _ _) = 5"
| "remaining (PersistDecide _ _ _) = 6"
| "remaining (AwaitPersist _ _ _) = 7"
| "remaining (CallManager _ _) = 8"
| "remaining (AwaitProxy _ _) = 9"
| "remaining (StartRegistered _) = 10"
| "remaining (ReloadArrived _) = 10"
| "remaining (StartArrived _ _) = 11"
| "remaining (UnblockUnlock _) = 1"
| "remaining UnblockCandidate = 2"
| "remaining UnblockIntent = 3"
| "remaining UnblockBump = 4"
| "remaining UnblockTarget = 5"
| "remaining UnblockAwait = 6"
| "remaining UnblockRelease = 7"
| "remaining UnblockArrived = 8"
| "remaining (CancelArrived _) = 1"
| "remaining (ProbeStatus _) = 1"
| "remaining (EndStatus _) = 2"
| "remaining (EndCall _) = 1"
| "remaining (DoCall _) = 3"
| "remaining (AwaitCall _) = 4"

section \<open>One step, seen by the other tasks\<close>

lemma manager_task_end:
  assumes "manager_task E call s = (s', t)"
  shows "(\<exists>r. t = EndCall r \<and> r \<noteq> Panicked) \<or> (\<exists>st. t = EndStatus st)"
proof (cases call)
  case (CallLockdown b)
  with assms show ?thesis by (auto simp: handle_lockdown_def split: prod.splits option.splits if_splits)
qed (use assms in \<open>auto simp: handle_stop_def Let_def split: prod.splits option.splits\<close>)

lemma goto_sel [simp]:
  "ip_tasks (goto i t s) = (ip_tasks s)(i \<mapsto> t)" "ip_pm (goto i t s) = ip_pm s"
  "ip_proxy_lock (goto i t s) = ip_proxy_lock s" "ip_generation (goto i t s) = ip_generation s"
  "ip_unblocks (goto i t s) = ip_unblocks s" "ip_intent_persist (goto i t s) = ip_intent_persist s"
  "ip_start_cancel (goto i t s) = ip_start_cancel s" "ip_cancelled (goto i t s) = ip_cancelled s"
  by (simp_all add: goto_def)

lemma set_dir_sel [simp]:
  "ip_tasks (set_dir w s) = ip_tasks s" "ip_pm (set_dir w s) = (ip_pm s)\<lparr>pm_dir := w\<rparr>"
  "ip_proxy_lock (set_dir w s) = ip_proxy_lock s" "ip_generation (set_dir w s) = ip_generation s"
  "ip_unblocks (set_dir w s) = ip_unblocks s" "ip_intent_persist (set_dir w s) = ip_intent_persist s"
  "ip_start_cancel (set_dir w s) = ip_start_cancel s" "ip_cancelled (set_dir w s) = ip_cancelled s"
  by (simp_all add: set_dir_def)

lemmas step_splits = prod.splits option.splits if_splits bool.splits

text \<open>
  A step moves its own task only, forward; the two mutexes change hands with the points of the
  handler that say so.
\<close>

lemma step_moves:
  assumes "step_task E i t s = Some s'"
  shows "\<exists>t'. ip_tasks s' = (ip_tasks s)(i \<mapsto> t') \<and> remaining t' < remaining t"
  using assms manager_task_end
  by (cases t) (fastforce simp: Let_def split: step_splits)+

lemma step_proxy_lock:
  assumes "step_task E i t s = Some s'" "ip_tasks s' i = Some t'"
  shows "(if holds_proxy t \<longleftrightarrow> holds_proxy t' then ip_proxy_lock s' = ip_proxy_lock s
    else if holds_proxy t then ip_proxy_lock s' = None
    else ip_proxy_lock s = None \<and> ip_proxy_lock s' = Some i)"
  using assms manager_task_end
  by (cases t) (fastforce simp: Let_def split: step_splits)+

lemma step_persist_lock:
  assumes "step_task E i t s = Some s'" "ip_tasks s' i = Some t'"
  shows "(if holds_persist t \<longleftrightarrow> holds_persist t' then ip_intent_persist s' = ip_intent_persist s
    else if holds_persist t then ip_intent_persist s' = None
    else ip_intent_persist s = None \<and> ip_intent_persist s' = Some i)"
  using assms manager_task_end
  by (cases t) (fastforce simp: Let_def split: step_splits)+

lemma responses_not_panicked [simp]:
  "start_refused e \<noteq> Panicked" "start_response E r \<noteq> Panicked" "reload_response E r \<noteq> Panicked"
  by (cases e) (auto simp: start_response_def reload_response_def split: option.splits)

lemma step_slot:
  assumes "step_task E i t s = Some s'" "ip_tasks s' i = Some t'" "sound_task t"
    "\<And>a. slot_of t = Some a \<Longrightarrow> in_flight (ip_start_cancel s) = Some (a, i)"
  shows "sound_task t' \<and>
    (case (slot_of t, slot_of t') of
       (None, Some a) \<Rightarrow> in_flight (ip_start_cancel s) = None \<and> in_flight (ip_start_cancel s') = Some (a, i)
     | (Some a, None) \<Rightarrow> in_flight (ip_start_cancel s') = None
     | _ \<Rightarrow> slot_of t' = slot_of t \<and> in_flight (ip_start_cancel s') = in_flight (ip_start_cancel s))"
proof (cases t)
  case (StartArrived c h)
  with assms show ?thesis
    by (cases "in_flight (ip_start_cancel s)")
       (auto simp: Let_def register_start_def sound_task_def split: step_splits)
next
  case (ClearSlot j r)
  with assms show ?thesis
    by (auto simp: clear_in_flight_def sound_task_def split: step_splits)
next
  case (CancelArrived h)
  with assms show ?thesis
    by (auto simp: handle_cancel_def sound_task_def split: step_splits)
next
  case (DoCall c)
  obtain p u where m: "manager_task E c (ip_pm s) = (p, u)" by force
  from manager_task_end [OF m] m DoCall assms show ?thesis
    by (auto simp: sound_task_def)
next
  case (UnlockProxy j r)
  with assms show ?thesis by (cases "jb_attempt j") (auto simp: sound_task_def)
qed (use assms in \<open>auto simp: sound_task_def split: step_splits\<close>)

lemma step_generation:
  assumes "step_task E i t s = Some s'"
  shows "(if t = UnblockBump then ip_generation s' = ip_generation s + 1 \<and> ip_unblocks s' = Suc (ip_unblocks s)
    else ip_generation s' = ip_generation s \<and> ip_unblocks s' = ip_unblocks s)"
  using assms by (cases t) (auto simp: Let_def split: step_splits)

lemma step_snapshot:
  assumes "step_task E i t s = Some s'" "ip_tasks s' i = Some t'" "snapshot_of t' = Some g"
  shows "snapshot_of t = Some g \<or> takes_snapshot t \<and> g = ip_generation s"
  using assms manager_task_end by (cases t) (fastforce simp: Let_def split: step_splits)+

section \<open>The invariant\<close>

text \<open>
  A lock or a slot is held by exactly the tasks whose handlers stand where they hold it.
\<close>

definition held_by :: "(task \<Rightarrow> bool) \<Rightarrow> nat option \<Rightarrow> (nat \<Rightarrow> task option) \<Rightarrow> bool" where
  "held_by P holder tasks \<longleftrightarrow> (\<forall>i. holder = Some i \<longleftrightarrow> (\<exists>t. tasks i = Some t \<and> P t))"

definition slot_held :: "(attempt_id \<times> nat) option \<Rightarrow> (nat \<Rightarrow> task option) \<Rightarrow> bool" where
  "slot_held slot tasks \<longleftrightarrow> (\<forall>i a. slot = Some (a, i) \<longleftrightarrow> (\<exists>t. tasks i = Some t \<and> slot_of t = Some a))"

definition ipc_inv :: "ipc_codecs \<Rightarrow> ipc_state \<Rightarrow> bool" where
  "ipc_inv C s \<longleftrightarrow>
     held_by holds_proxy (ip_proxy_lock s) (ip_tasks s) \<and>
     held_by holds_persist (ip_intent_persist s) (ip_tasks s) \<and>
     slot_held (in_flight (ip_start_cancel s)) (ip_tasks s) \<and>
     (\<forall>i t. ip_tasks s i = Some t \<longrightarrow> sound_task t) \<and>
     finite (dom (ip_tasks s)) \<and>
     ip_generation s = of_nat (ip_unblocks s) \<and>
     (\<forall>i t g. ip_tasks s i = Some t \<longrightarrow> snapshot_of t = Some g \<longrightarrow> (\<exists>n \<le> ip_unblocks s. g = of_nat n))"

lemma inv_bound: "ipc_inv C (bind_with_dirs proxy)"
  by (simp add: ipc_inv_def bind_with_dirs_def held_by_def slot_held_def start_cancel_default_def)

lemma held_by_upd:
  assumes "held_by P l ts" "ts i = Some t"
    "if P t \<longleftrightarrow> P t' then l' = l else if P t then l' = None else l = None \<and> l' = Some i"
  shows "held_by P l' (ts(i \<mapsto> t'))"
proof (cases "P t \<longleftrightarrow> P t'")
  case True
  with assms show ?thesis by (auto simp: held_by_def)
next
  case False
  show ?thesis
  proof (cases "P t")
    case True
    with assms(1,2) have "l = Some i" by (auto simp: held_by_def)
    with assms(1) have "j \<noteq> i \<Longrightarrow> ts j = Some u \<Longrightarrow> \<not> P u" for j u by (auto simp: held_by_def)
    with True False assms(3) show ?thesis by (auto simp: held_by_def)
  qed (use False assms in \<open>auto simp: held_by_def\<close>)
qed

lemma arrival_idle:
  assumes "is_arrival t"
  shows "\<not> holds_proxy t" "\<not> holds_persist t" "slot_of t = None" "snapshot_of t = None" "sound_task t" "\<not> is_done t"
  using assms by (cases t; simp add: sound_task_def)+

text \<open>
  What makes a field of the server a mutex: it changes hands exactly where the points of the
  handlers say so, it is free when it is taken, and a new request does not hold it. Then its holder
  is the one task that stands where it holds it.
\<close>

locale task_mutex =
  fixes holds :: "task \<Rightarrow> bool" and holder :: "ipc_state \<Rightarrow> nat option"
  assumes handed_over: "step_task E i t s = Some s' \<Longrightarrow> ip_tasks s' i = Some t' \<Longrightarrow>
      if holds t \<longleftrightarrow> holds t' then holder s' = holder s
      else if holds t then holder s' = None else holder s = None \<and> holder s' = Some i"
    and request_free: "is_arrival t \<Longrightarrow> \<not> holds t"
    and request_keeps: "holder (goto i t s) = holder s"
begin

lemma exclusive:
  "held_by holds (holder s) (ip_tasks s) \<Longrightarrow> ip_tasks s i = Some t \<Longrightarrow> holds t \<Longrightarrow>
    ip_tasks s k = Some u \<Longrightarrow> holds u \<Longrightarrow> k = i"
  unfolding held_by_def by (metis option.inject)

lemma move:
  assumes "held_by holds (holder s) (ip_tasks s)" "ip_tasks s i = Some t" "step_task E i t s = Some s'"
  shows "held_by holds (holder s') (ip_tasks s')"
proof -
  from step_moves [OF assms(3)] obtain t' where ts: "ip_tasks s' = (ip_tasks s)(i \<mapsto> t')" by blast
  with handed_over [OF assms(3), of t'] show ?thesis
    unfolding ts by (intro held_by_upd [of _ _ "ip_tasks s" i t]) (auto simp: assms)
qed

lemma arrive:
  "held_by holds (holder s) (ip_tasks s) \<Longrightarrow> ip_tasks s i = None \<Longrightarrow> is_arrival t \<Longrightarrow>
    held_by holds (holder (goto i t s)) (ip_tasks (goto i t s))"
  using request_free [of t] by (auto simp: held_by_def request_keeps)

lemma held_task:
  "held_by holds (holder s) (ip_tasks s) \<Longrightarrow> holder s = Some i \<Longrightarrow> \<exists>t. ip_tasks s i = Some t \<and> holds t"
  unfolding held_by_def by blast

end

interpretation proxy_mutex: task_mutex holds_proxy ip_proxy_lock
  by unfold_locales (rule step_proxy_lock, auto dest: arrival_idle)

interpretation persist_mutex: task_mutex holds_persist ip_intent_persist
  by unfold_locales (rule step_persist_lock, auto dest: arrival_idle)

lemma slot_held_upd:
  assumes "slot_held l ts" "ts i = Some t"
    "case (slot_of t, slot_of t') of
       (None, Some a) \<Rightarrow> l = None \<and> l' = Some (a, i)
     | (Some a, None) \<Rightarrow> l' = None
     | _ \<Rightarrow> slot_of t' = slot_of t \<and> l' = l"
  shows "slot_held l' (ts(i \<mapsto> t'))"
proof (cases "slot_of t = slot_of t'")
  case True
  with assms(3) have "l' = l" by (auto split: option.splits)
  with assms(1,2) True show ?thesis by (auto simp: slot_held_def)
next
  case False
  show ?thesis
  proof (cases "slot_of t")
    case None
    with False assms(3) obtain a where "slot_of t' = Some a" "l = None" "l' = Some (a, i)"
      by (auto split: option.splits)
    with assms(1) show ?thesis by (auto simp: slot_held_def)
  next
    case (Some a)
    with False assms(3) have l': "l' = None" "slot_of t' = None" by (auto split: option.splits)
    from Some assms(1,2) have "l = Some (a, i)" by (auto simp: slot_held_def)
    with assms(1) have "j \<noteq> i \<Longrightarrow> ts j = Some u \<Longrightarrow> slot_of u \<noteq> Some b" for j u b
      unfolding slot_held_def by (metis option.inject prod.inject)
    with l' show ?thesis by (auto simp: slot_held_def)
  qed
qed

lemma inv_move:
  assumes inv: "ipc_inv C s" and t: "ip_tasks s i = Some t" and step: "step_task E i t s = Some s'"
  shows "ipc_inv C s'"
proof -
  from step_moves [OF step] obtain t' where ts: "ip_tasks s' = (ip_tasks s)(i \<mapsto> t')" by blast
  then have t': "ip_tasks s' i = Some t'" by simp
  have slot: "sound_task t' \<and>
    (case (slot_of t, slot_of t') of
       (None, Some a) \<Rightarrow> in_flight (ip_start_cancel s) = None \<and> in_flight (ip_start_cancel s') = Some (a, i)
     | (Some a, None) \<Rightarrow> in_flight (ip_start_cancel s') = None
     | _ \<Rightarrow> slot_of t' = slot_of t \<and> in_flight (ip_start_cancel s') = in_flight (ip_start_cancel s))"
    using inv t by (intro step_slot [OF step t']) (auto simp: ipc_inv_def slot_held_def)
  have "held_by holds_proxy (ip_proxy_lock s') (ip_tasks s')"
    using inv proxy_mutex.move [OF _ t step] by (simp add: ipc_inv_def)
  moreover have "held_by holds_persist (ip_intent_persist s') (ip_tasks s')"
    using inv persist_mutex.move [OF _ t step] by (simp add: ipc_inv_def)
  moreover have "slot_held (in_flight (ip_start_cancel s')) (ip_tasks s')"
    unfolding ts using inv slot by (intro slot_held_upd [of _ "ip_tasks s" i t]) (auto simp: t ipc_inv_def)
  moreover have "\<exists>n \<le> ip_unblocks s'. g = of_nat n"
    if "ip_tasks s' k = Some u" "snapshot_of u = Some g" for k u g
  proof -
    have "\<exists>n \<le> ip_unblocks s. g = of_nat n"
    proof (cases "k = i")
      case True
      with that ts have "snapshot_of t' = Some g" by simp
      from step_snapshot [OF step t' this] inv t show ?thesis by (auto simp: ipc_inv_def)
    next
      case False
      with that ts inv show ?thesis by (auto simp: ipc_inv_def)
    qed
    moreover have "ip_unblocks s \<le> ip_unblocks s'" using step_generation [OF step] by (auto split: if_splits)
    ultimately show ?thesis using le_trans by blast
  qed
  moreover have "ip_generation s' = of_nat (ip_unblocks s')"
    using step_generation [OF step] inv by (auto simp: ipc_inv_def split: if_splits)
  ultimately show ?thesis using inv ts slot by (auto simp: ipc_inv_def)
qed

lemma inv_arrive: "ipc_inv C s \<Longrightarrow> ip_tasks s i = None \<Longrightarrow> is_arrival t \<Longrightarrow> ipc_inv C (goto i t s)"
  using arrival_idle [of t] proxy_mutex.arrive [of s i t] persist_mutex.arrive [of s i t]
  by (auto simp: ipc_inv_def slot_held_def)

lemma inv_trans: "ipc_trans C b s s' \<Longrightarrow> ipc_inv C s \<Longrightarrow> ipc_inv C s'"
  by (induction rule: ipc_trans.induct) (auto intro: inv_arrive inv_move)

lemma inv_ipc_reachable: "ipc_reachable C s \<Longrightarrow> ipc_inv C s"
  by (induction rule: ipc_reachable.induct) (auto intro: inv_bound inv_trans)

section \<open>Every request is answered\<close>

text \<open>\<open>n\<close> steps of the tasks the server has, with no new request.\<close>

inductive ipc_moves :: "ipc_codecs \<Rightarrow> nat \<Rightarrow> ipc_state \<Rightarrow> ipc_state \<Rightarrow> bool" for C where
  no_move: "ipc_moves C 0 s s"
| one_more: "ip_tasks s i = Some t \<Longrightarrow> env_ok C s i E \<Longrightarrow> step_task E i t s = Some s' \<Longrightarrow>
    ipc_moves C n s' s'' \<Longrightarrow> ipc_moves C (Suc n) s s''"

definition work :: "ipc_state \<Rightarrow> nat" where
  "work s = (\<Sum>i\<in>dom (ip_tasks s). case ip_tasks s i of Some t \<Rightarrow> remaining t | None \<Rightarrow> 0)"

lemma work_move:
  assumes "finite (dom (ip_tasks s))" "ip_tasks s i = Some t" "step_task E i t s = Some s'"
  shows "work s' < work s"
proof -
  from step_moves [OF assms(3)] obtain t' where ts: "ip_tasks s' = (ip_tasks s)(i \<mapsto> t')" "remaining t' < remaining t"
    by blast
  let ?D = "dom (ip_tasks s)"
  let ?r = "\<lambda>u k. case ip_tasks u k of Some t \<Rightarrow> remaining t | None \<Rightarrow> 0"
  have "i \<in> ?D" using assms(2) by auto
  then have "work u = ?r u i + (\<Sum>k\<in>?D - {i}. ?r u k)" if "dom (ip_tasks u) = ?D" for u
    unfolding work_def that using assms(1) by (rule sum.remove [rotated])
  moreover have "dom (ip_tasks s') = ?D" using ts assms(2) by auto
  moreover have "(\<Sum>k\<in>?D - {i}. ?r s' k) = (\<Sum>k\<in>?D - {i}. ?r s k)"
    using ts by (intro sum.cong) auto
  ultimately show ?thesis using ts assms(2) by simp
qed

lemma moves_bounded: "ipc_moves C n s s' \<Longrightarrow> ipc_inv C s \<Longrightarrow> n + work s' \<le> work s"
proof (induction rule: ipc_moves.induct)
  case (one_more s i t E s' n s'')
  from work_move [OF _ one_more.hyps(1,3)] one_more.prems have "work s' < work s" by (simp add: ipc_inv_def)
  with one_more inv_move [OF one_more.prems one_more.hyps(1,3)] show ?case by simp
qed simp

text \<open>Where a task waits: for the proxy lock, for the persist lock, or not at all.\<close>

lemma step_enabled:
  assumes "\<not> is_done t" "\<not> holds_proxy t \<Longrightarrow> \<not> holds_persist t \<Longrightarrow> ip_proxy_lock s = None"
    "\<not> holds_persist t \<Longrightarrow> ip_intent_persist s = None"
  shows "step_task E i t s \<noteq> None"
  using assms by (cases t) (auto simp: Let_def split: step_splits)

lemma never_stuck:
  assumes inv: "ipc_inv C s" and t: "ip_tasks s i = Some t" "\<not> is_done t"
  shows "\<exists>k u. ip_tasks s k = Some u \<and> (\<forall>E. step_task E k u s \<noteq> None)"
proof (cases "ip_intent_persist s")
  case (Some k)
  with inv persist_mutex.held_task [of s k] obtain u where "ip_tasks s k = Some u" "holds_persist u"
    by (auto simp: ipc_inv_def)
  then show ?thesis using step_enabled [of u s] by (metis holds_persist.simps is_done.elims(2))
next
  case persist: None
  show ?thesis
  proof (cases "ip_proxy_lock s")
    case (Some k)
    with inv proxy_mutex.held_task [of s k] obtain u where "ip_tasks s k = Some u" "holds_proxy u"
      by (auto simp: ipc_inv_def)
    then show ?thesis using persist step_enabled [of u s] by (metis holds_proxy.simps is_done.elims(2))
  next
    case None
    with persist t step_enabled [of t s] show ?thesis by blast
  qed
qed

section \<open>What a step does to the records\<close>

fun writes_connected :: "task \<Rightarrow> bool" where
  "writes_connected (WriteTarget _ declined) = (\<not> declined)"
| "writes_connected _ = False"

fun writes_candidate :: "task \<Rightarrow> bool" where
  "writes_candidate (WritePreference _ declined) = (\<not> declined)"
| "writes_candidate _ = False"

definition codecs_ok :: "ipc_codecs \<Rightarrow> bool" where
  "codecs_ok C \<longleftrightarrow> codec_roundtrips (ic_target C) \<and> codec_roundtrips (ic_pref C) \<and> codec_roundtrips (ic_lockdown C)"

lemma env_meanwhile: "env_ok C s i E \<Longrightarrow> meanwhile_ok (ie_pm E)"
  by (simp add: env_ok_def meanwhile_ok_def same_records_def)

lemma write_preference_effect:
  assumes "codec_roundtrips (ic_pref C)" "ie_pref_codec E = ic_pref C" "write_preference E f w = (w', saved)"
  shows "dir_target C w' = dir_target C w \<and>
    (if saved then \<exists>p. dir_pref C w' = Some (f p) \<and> (dir_pref C w = Some p \<or> p = preference_default)
     else dir_pref C w' = dir_pref C w)"
proof -
  obtain r where a: "apply_startup_preference (ic_pref C) (ie_fs_pref E) f w = (w', r)" and saved: "saved = update_ok r"
    using assms(2,3) by (auto simp: write_preference_def split: prod.splits)
  from preference_effect [OF assms(1) a] target_reads_file [OF apply_preference_target [OF a]] saved show ?thesis
    by (cases r) (auto simp: dir_pref_def)
qed

lemma write_target_effect:
  assumes "codec_roundtrips (ic_target C)" "apply_target (ic_target C) F (\<lambda>_. x) w = (w', r)" "x \<noteq> UnreadableTarget"
  shows "dir_pref C w' = dir_pref C w \<and> dir_target C w' = (if update_ok r then Some x else dir_target C w)"
  using apply_target_effect [OF assms(1,2)] assms(3) pref_reads_file [OF apply_target_pref [OF assms(2)]]
  by (cases r) (auto simp: dir_target_def)

lemma candidate_pref:
  "dir_pref C w = Some p \<Longrightarrow> dir_candidate C w = candidate p" "dir_pref C w' = dir_pref C w \<Longrightarrow> dir_candidate C w' = dir_candidate C w"
  by (simp_all add: dir_candidate_def)

lemma default_candidate [simp]: "candidate preference_default = None"
  by (simp add: preference_default_def)

lemma preference_keeps_none:
  assumes "codec_roundtrips (ic_pref C)" "ie_pref_codec E = ic_pref C" "write_preference E f w = (w', saved)"
    "\<And>p. candidate p = None \<Longrightarrow> candidate (f p) = None" "dir_candidate C w = None"
  shows "dir_candidate C w' = None"
  using write_preference_effect [OF assms(1-3)] assms(4,5)
  by (auto simp: dir_candidate_def split: if_splits option.splits)

lemma declined_keeps_none: "candidate p = None \<Longrightarrow> candidate (start_preference cfg b True p) = None"
  by (simp add: start_preference_def split: option.splits)

text \<open>Every other step keeps a target that is off, and a candidate that is cleared.\<close>

definition clear_kept :: "ipc_codecs \<Rightarrow> bool \<Rightarrow> bool \<Rightarrow> world \<Rightarrow> world \<Rightarrow> bool" where
  "clear_kept C connects proposes w w' \<longleftrightarrow>
     (\<not> connects \<longrightarrow> dir_target C w = Some Off \<longrightarrow> dir_target C w' = Some Off) \<and>
     (\<not> proposes \<longrightarrow> dir_candidate C w = None \<longrightarrow> dir_candidate C w' = None)"

lemma clear_kept_off: "off_kept C w w' \<Longrightarrow> clear_kept C b c w w'"
  using candidate_pref(2) [of C w' w] by (auto simp: clear_kept_def off_kept_def)

lemma clear_kept_same [simp]: "clear_kept C b c w w"
  by (simp add: clear_kept_def)

lemma clear_kept_preference:
  assumes "codec_roundtrips (ic_pref C)" "ie_pref_codec E = ic_pref C" "write_preference E f w = (w', saved)"
    "\<not> c \<Longrightarrow> (\<And>p. candidate p = None \<Longrightarrow> candidate (f p) = None)"
  shows "clear_kept C b c w w'"
  using write_preference_effect [OF assms(1-3)] preference_keeps_none [OF assms(1-3)] assms(4)
  by (auto simp: clear_kept_def)

lemma clear_kept_target:
  assumes "codec_roundtrips (ic_target C)" "apply_target (ic_target C) F (\<lambda>_. x) w = (w', r)" "x \<noteq> UnreadableTarget"
    "x = Off \<or> b"
  shows "clear_kept C b c w w'"
  using write_target_effect [OF assms(1-3)] assms(4) candidate_pref(2) [of C w' w] by (auto simp: clear_kept_def)

lemma write_intent_records: "write_unblock_intent E w = (w', b) \<Longrightarrow> same_records w w'"
  by (auto simp: write_unblock_intent_def split: prod.splits dest: set_enabled_records)

lemma step_records:
  assumes codecs: "codecs_ok C" and env: "env_ok C s i E" and step: "step_task E i t s = Some s'"
  shows "clear_kept C (writes_connected t) (writes_candidate t) (ip_dir s) (ip_dir s')"
proof -
  have c: "codec_roundtrips (ic_target C)" "codec_roundtrips (ic_pref C)" using codecs by (simp_all add: codecs_ok_def)
  have e: "e_target_codec (ie_pm E) = ic_target C" "ie_pref_codec E = ic_pref C" using env by (simp_all add: env_ok_def)
  show ?thesis
  proof (cases t)
    case (CallManager j g)
    then obtain p r where call: "(if jb_attempt j = None then reload (ie_pm E) (jb_config j) (ip_pm s)
        else start_cancellable (ie_pm E) (jb_config j) False (ip_pm s)) = (p, r)" and s': "ip_pm s' = p"
      using step by (auto split: prod.splits)
    from call have "off_kept C (ip_dir s) (pm_dir p)"
      using off_kept_reload [OF c(1) e(1) env_meanwhile [OF env]] kept_start_cancellable [OF env_meanwhile [OF env]]
      by (auto intro: off_kept_same split: if_splits)
    with s' show ?thesis by (simp add: clear_kept_off)
  next
    case (WriteTarget j d)
    with step show ?thesis
      by (cases d) (auto simp: write_start_target_def e split: step_splits intro: clear_kept_target [OF c(1)])
  next
    case (WritePreference j d)
    with step show ?thesis
      by (auto simp: declined_keeps_none split: step_splits intro!: clear_kept_preference [OF c(2) e(2)])
  next
    case (PushPreference j b r)
    with step show ?thesis by (auto split: step_splits intro!: clear_kept_preference [OF c(2) e(2)])
  next
    case UnblockRelease
    with step show ?thesis by (auto simp: release_all_covers_def Let_def split: step_splits)
  next
    case UnblockTarget
    with step show ?thesis
      by (auto simp: write_unblock_target_def e split: step_splits intro!: clear_kept_target [OF c(1)])
  next
    case UnblockIntent
    with step show ?thesis
      by (auto split: step_splits intro!: clear_kept_off off_kept_same dest: write_intent_records)
  next
    case UnblockCandidate
    with step show ?thesis
      by (auto simp: write_unblock_candidate_def split: step_splits intro!: clear_kept_preference [OF c(2) e(2)])
  next
    case (DoCall call)
    with step off_kept_manager [OF c(1) e(1)] show ?thesis by (auto split: step_splits intro: clear_kept_off)
  qed (use step in \<open>auto simp: Let_def split: step_splits\<close>)
qed

lemma step_unblock:
  assumes codecs: "codecs_ok C" and env: "env_ok C s i E" and step: "step_task E i t s = Some s'"
    and t': "ip_tasks s' i = Some t'"
  shows "t' = UnblockBump \<Longrightarrow> dir_target C (ip_dir s') = Some Off"
    and "t' = UnblockUnlock Ack \<Longrightarrow> dir_candidate C (ip_dir s') = None"
proof -
  have c: "codec_roundtrips (ic_target C)" "codec_roundtrips (ic_pref C)" using codecs by (simp_all add: codecs_ok_def)
  have e: "e_target_codec (ie_pm E) = ic_target C" "ie_pref_codec E = ic_pref C" using env by (simp_all add: env_ok_def)
  show "dir_target C (ip_dir s') = Some Off" if "t' = UnblockBump"
  proof -
    from that step t' have t: "t = UnblockTarget"
      using manager_task_end by (cases t) (fastforce simp: Let_def split: step_splits)+
    obtain w b where w: "write_unblock_target E (ip_dir s) = (w, b)" by force
    with step t t' that have b: b "ip_dir s' = w" by (auto split: bool.splits)
    with w obtain r where "apply_target (ic_target C) (ie_fs_target E) (\<lambda>_. Off) (ip_dir s) = (w, r)" "update_ok r"
      by (auto simp: write_unblock_target_def e split: prod.splits)
    from write_target_effect [OF c(1) this(1)] this(2) b show ?thesis by simp
  qed
  show "dir_candidate C (ip_dir s') = None" if "t' = UnblockUnlock Ack"
  proof -
    from that step t' have t: "t = UnblockCandidate"
      using manager_task_end by (cases t) (fastforce simp: Let_def split: step_splits)+
    obtain w b where w: "write_unblock_candidate E (ip_dir s) = (w, b)" by force
    with step t t' that have b: b "ip_dir s' = w" by (auto split: if_splits)
    from write_preference_effect [OF c(2) e(2) w [unfolded write_unblock_candidate_def]] b show ?thesis
      by (auto simp: dir_candidate_def)
  qed
qed

section \<open>An unblock and the starts under way\<close>

lemma writers_hold_persist:
  "writes_connected t \<Longrightarrow> holds_persist t" "writes_candidate t \<Longrightarrow> holds_persist t"
  by (cases t; simp)+

text \<open>Between its record and its announcement an unblock's target stays off.\<close>

definition bump_off :: "ipc_codecs \<Rightarrow> ipc_state \<Rightarrow> bool" where
  "bump_off C s \<longleftrightarrow> (\<forall>u. ip_tasks s u = Some UnblockBump \<longrightarrow> dir_target C (ip_dir s) = Some Off)"

lemma bump_off_move:
  assumes "codecs_ok C" "ipc_inv C s" "bump_off C s" "ip_tasks s i = Some t" "env_ok C s i E" "step_task E i t s = Some s'"
  shows "bump_off C s'"
  unfolding bump_off_def
proof (intro allI impI)
  fix u assume u: "ip_tasks s' u = Some UnblockBump"
  from step_moves [OF assms(6)] obtain t' where ts: "ip_tasks s' = (ip_tasks s)(i \<mapsto> t')" by blast
  show "dir_target C (ip_dir s') = Some Off"
  proof (cases "u = i")
    case True
    with u ts step_unblock(1) [OF assms(1,5,6)] show ?thesis by simp
  next
    case False
    with u ts have ub: "ip_tasks s u = Some UnblockBump" by simp
    have "\<not> writes_connected t"
      using persist_mutex.exclusive [OF _ ub _ assms(4)] False assms(2) writers_hold_persist(1)
      by (metis holds_persist.simps(7) ipc_inv_def)
    with step_records [OF assms(1,5,6)] ub assms(3) show ?thesis by (auto simp: bump_off_def clear_kept_def)
  qed
qed

lemma bump_off_reachable:
  assumes "codecs_ok C" "ipc_reachable C s"
  shows "bump_off C s"
  using assms(2)
proof (induction rule: ipc_reachable.induct)
  case (bound p)
  show ?case by (simp add: bump_off_def bind_with_dirs_def)
next
  case (stepped s b s')
  from stepped.hyps(2) show ?case
  proof (cases rule: ipc_trans.cases)
    case (arrive i t)
    with stepped.IH show ?thesis by (auto simp: bump_off_def)
  next
    case (move i t E)
    with bump_off_move [OF assms(1) inv_ipc_reachable [OF stepped.hyps(1)] stepped.IH] show ?thesis by blast
  qed
qed

text \<open>
  After the announcement, with no new snapshot taken: every snapshot is older than the counter, no
  start is about to write, and the unblock is past its announcement.
\<close>

definition past_bump :: "task \<Rightarrow> bool" where
  "past_bump t \<longleftrightarrow> t = UnblockIntent \<or> t = UnblockCandidate \<or> (\<exists>r. t = UnblockUnlock r \<or> t = Done r)"

definition committed :: "ipc_codecs \<Rightarrow> nat \<Rightarrow> nat \<Rightarrow> ipc_state \<Rightarrow> bool" where
  "committed C K u s \<longleftrightarrow>
     ipc_inv C s \<and> dir_target C (ip_dir s) = Some Off \<and> K < ip_unblocks s \<and>
     (\<forall>k t g. ip_tasks s k = Some t \<longrightarrow> snapshot_of t = Some g \<longrightarrow> (\<exists>n \<le> K. g = of_nat n)) \<and>
     (\<forall>k t. ip_tasks s k = Some t \<longrightarrow> \<not> writes_connected t \<and> \<not> writes_candidate t) \<and>
     (\<exists>t. ip_tasks s u = Some t \<and> past_bump t) \<and>
     (ip_tasks s u = Some (UnblockUnlock Ack) \<or> ip_tasks s u = Some (Done Ack) \<longrightarrow> dir_candidate C (ip_dir s) = None)"

lemma unblocks_mono: "ipc_trans C b s s' \<Longrightarrow> ip_unblocks s \<le> ip_unblocks s'"
  by (induction rule: ipc_trans.induct) (auto dest: step_generation split: if_splits)

lemma stale_snapshot:
  assumes "n \<le> K" "K < m" "m < 2 ^ 64"
  shows "(of_nat m :: 64 word) \<noteq> of_nat n"
proof
  assume "(of_nat m :: 64 word) = of_nat n"
  then have "unat (of_nat m :: 64 word) = unat (of_nat n :: 64 word)" by simp
  with assms show False by (simp add: unat_of_nat)
qed

lemma no_new_writer:
  assumes "step_task E i t s = Some s'" "ip_tasks s' i = Some t'" "\<not> writes_connected t" "\<not> writes_candidate t"
    "\<And>g. snapshot_of t = Some g \<Longrightarrow> ip_generation s \<noteq> g"
  shows "\<not> writes_connected t' \<and> \<not> writes_candidate t'"
  using assms manager_task_end by (cases t) (fastforce simp: Let_def split: step_splits)+

lemma past_bump_step:
  assumes "step_task E i t s = Some s'" "ip_tasks s' i = Some t'" "past_bump t"
  shows "past_bump t' \<and> (t' = Done Ack \<longrightarrow> t = UnblockUnlock Ack)"
  using assms by (auto simp: past_bump_def split: step_splits)

lemma committed_arrive:
  assumes "committed C K u s" "ip_tasks s i = None" "is_arrival t"
  shows "committed C K u (goto i t s)"
proof -
  have "\<not> writes_connected t" "\<not> writes_candidate t" using assms(3) by (cases t; simp)+
  moreover have "i \<noteq> u" using assms(1,2) by (auto simp: committed_def)
  ultimately show ?thesis
    using assms arrival_idle [OF assms(3)] inv_arrive [OF _ assms(2,3), of C] by (auto simp: committed_def)
qed

lemma committed_move:
  assumes codecs: "codecs_ok C" and com: "committed C K u s" and bound: "ip_unblocks s < 2 ^ 64"
    and t: "ip_tasks s i = Some t" and env: "env_ok C s i E" and step: "step_task E i t s = Some s'"
    and quiet: "\<not> takes_snapshot t"
  shows "committed C K u s'"
proof -
  from step_moves [OF step] obtain t' where ts: "ip_tasks s' = (ip_tasks s)(i \<mapsto> t')" by blast
  then have t': "ip_tasks s' i = Some t'" by simp
  have inv: "ipc_inv C s" using com by (simp add: committed_def)
  have nw: "\<not> writes_connected t" "\<not> writes_candidate t" using com t by (auto simp: committed_def)
  have gen: "ip_generation s \<noteq> g" if "snapshot_of t = Some g" for g
  proof -
    from com t that obtain n where "n \<le> K" "g = of_nat n" unfolding committed_def by blast
    with com bound inv stale_snapshot [of n K "ip_unblocks s"] show ?thesis
      by (simp add: committed_def ipc_inv_def)
  qed
  from step_records [OF codecs env step] nw have keep: "clear_kept C False False (ip_dir s) (ip_dir s')" by simp
  have u: "(\<exists>v. ip_tasks s' u = Some v \<and> past_bump v) \<and>
      (ip_tasks s' u = Some (UnblockUnlock Ack) \<or> ip_tasks s' u = Some (Done Ack) \<longrightarrow> dir_candidate C (ip_dir s') = None)"
  proof (cases "u = i")
    case True
    with com t have "past_bump t" by (auto simp: committed_def)
    from past_bump_step [OF step t' this] show ?thesis
      using True t' t com keep step_unblock(2) [OF codecs env step t'] by (auto simp: committed_def clear_kept_def)
  next
    case False
    with com keep ts show ?thesis by (auto simp: committed_def clear_kept_def)
  qed
  have "\<not> writes_connected v \<and> \<not> writes_candidate v" if "ip_tasks s' k = Some v" for k v
  proof (cases "k = i")
    case True
    with that ts have v: "v = t'" by simp
    show ?thesis unfolding v by (rule no_new_writer [OF step t' nw gen])
  next
    case False
    with that ts com show ?thesis by (auto simp: committed_def)
  qed
  moreover have "\<exists>n \<le> K. g = of_nat n" if "ip_tasks s' k = Some v" "snapshot_of v = Some g" for k v g
  proof (cases "k = i")
    case True
    with that ts step_snapshot [OF step t'] quiet have "snapshot_of t = Some g" by auto
    with com t show ?thesis unfolding committed_def by blast
  next
    case False
    with that ts have "ip_tasks s k = Some v" by simp
    with that com show ?thesis unfolding committed_def by blast
  qed
  ultimately show ?thesis
    using com inv_move [OF inv t step] keep u step_generation [OF step]
    by (auto simp: committed_def clear_kept_def split: if_splits)
qed

lemma commit_committed:
  assumes codecs: "codecs_ok C" and reach: "ipc_reachable C s" and u: "ip_tasks s u = Some UnblockBump"
    and step: "step_task E u UnblockBump s = Some s'"
  shows "committed C (ip_unblocks s) u s'"
proof -
  have inv: "ipc_inv C s" by (rule inv_ipc_reachable [OF reach])
  have s': "s' = goto u UnblockIntent (s\<lparr>ip_generation := ip_generation s + 1, ip_unblocks := Suc (ip_unblocks s)\<rparr>)"
    using step by simp
  have "\<not> writes_connected v \<and> \<not> writes_candidate v" if "ip_tasks s k = Some v" "k \<noteq> u" for k v
    using persist_mutex.exclusive [OF _ u _ that(1)] that(2) inv writers_hold_persist [of v]
    by (metis holds_persist.simps(7) ipc_inv_def)
  moreover have "dir_target C (ip_dir s) = Some Off"
    using bump_off_reachable [OF codecs reach] u unfolding bump_off_def by blast
  moreover have "\<exists>n \<le> ip_unblocks s. g = of_nat n" if "ip_tasks s k = Some v" "snapshot_of v = Some g" for k v g
    using inv that unfolding ipc_inv_def by blast
  ultimately show ?thesis
    using inv_move [OF inv u step] by (auto simp: committed_def s' past_bump_def)
qed

lemma committed_run:
  assumes "codecs_ok C" "(ipc_trans C False)\<^sup>*\<^sup>* s s'" "committed C K u s" "ip_unblocks s' < 2 ^ 64"
  shows "committed C K u s'"
  using assms(2,4)
proof (induction rule: rtranclp_induct)
  case (step t t')
  from step.hyps(2) step.prems have bound: "ip_unblocks t < 2 ^ 64" using unblocks_mono le_less_trans by blast
  with step have com: "committed C K u t" by simp
  from step.hyps(2) show ?case
  proof (cases rule: ipc_trans.cases)
    case (arrive i x)
    with committed_arrive [OF com] show ?thesis by simp
  next
    case (move i x E)
    with committed_move [OF assms(1) com bound] show ?thesis by simp
  qed
qed (simp add: assms(3))

section \<open>The handlers alone\<close>

definition env_codecs :: "ipc_codecs \<Rightarrow> ipc_env \<Rightarrow> bool" where
  "env_codecs C E \<longleftrightarrow> e_target_codec (ie_pm E) = ic_target C \<and> ie_pref_codec E = ic_pref C \<and>
     e_lockdown_codec (ie_pm E) = ic_lockdown C"

definition dir_intent :: "ipc_codecs \<Rightarrow> world \<Rightarrow> intent option" where
  "dir_intent C w = load_intent (ic_lockdown C) no_faults w"

lemma record_names_intent [simp]:
  "LOCKDOWN_FILE_NAME \<noteq> STARTUP_PREFERENCE_FILE_NAME" "LOCKDOWN_FILE_NAME \<notin> range (backup_name STARTUP_PREFERENCE_FILE_NAME)"
  by (auto simp: STARTUP_PREFERENCE_FILE_NAME_def LOCKDOWN_FILE_NAME_def backup_name_def split: if_splits)

lemma preference_intent:
  assumes "write_preference E f w = (w', saved)"
  shows "dir_intent C w' = dir_intent C w"
proof -
  from assms obtain r where "apply_startup_preference (ie_pref_codec E) (ie_fs_pref E) f w = (w', r)"
    by (auto simp: write_preference_def split: prod.splits)
  then have "file_at w' LOCKDOWN_FILE_NAME = file_at w LOCKDOWN_FILE_NAME"
    unfolding apply_startup_preference_def startup_schema_def by (rule state_record_elsewhere) simp_all
  then show ?thesis by (simp add: dir_intent_def load_intent_clean clean_read_node lockdown_file_def)
qed

text \<open>The three records of an unblock, each write with what it may meet.\<close>

lemma unblock_records:
  assumes "codecs_ok C" "env_codecs C E1" "env_codecs C E2" "env_codecs C E3"
    "write_unblock_target E1 w = (w1, True)" "write_unblock_intent E2 w1 = (w2, True)"
    "write_unblock_candidate E3 w2 = (w3, True)"
  shows "dir_target C w3 = Some Off \<and> dir_intent C w3 = Some IntentOff \<and> dir_candidate C w3 = None"
proof -
  have c: "codec_roundtrips (ic_target C)" "codec_roundtrips (ic_pref C)" "codec_roundtrips (ic_lockdown C)"
    using assms(1) by (simp_all add: codecs_ok_def)
  from assms(5) obtain r where "apply_target (ic_target C) (ie_fs_target E1) (\<lambda>_. Off) w = (w1, r)" "update_ok r"
    using assms(2) by (auto simp: write_unblock_target_def env_codecs_def split: prod.splits)
  with write_target_effect [OF c(1) this(1)] have "dir_target C w1 = Some Off" by simp
  then have t2: "dir_target C w2 = Some Off"
    using same_records_reads [OF write_intent_records [OF assms(6)], of C] by simp
  from assms(6) obtain q where q: "set_enabled (ic_lockdown C) (ie_fs_intent E2) False w1 = (w2, q)" "update_ok q"
    using assms(3) by (auto simp: write_unblock_intent_def env_codecs_def split: prod.splits)
  with set_enabled_effect [OF c(3) q(1)] have i2: "dir_intent C w2 = Some IntentOff"
    by (cases q) (auto simp: dir_intent_def)
  note w = assms(7) [unfolded write_unblock_candidate_def]
  have "ie_pref_codec E3 = ic_pref C" using assms(4) by (simp add: env_codecs_def)
  from write_preference_effect [OF c(2) this w] preference_intent [OF w, of C] t2 i2 show ?thesis
    by (auto simp: dir_candidate_def)
qed

section \<open>A sample server\<close>

definition sample_pref :: "proxy_config startup_preference codec" where
  "sample_pref =
     \<lparr>cd_json = sample_json,
      cd_from_slice = (\<lambda>bs. case bs of
          [_, b, c] \<Rightarrow>
            (let on = (if b = CHR ''d'' then DoNotConnect else if b = CHR ''a'' then AlwaysConnect else RestoreLastState)
             in if c = CHR ''-'' then Ok \<lparr>on_startup = on, candidate = None\<rparr>
                else Ok \<lparr>on_startup = on, candidate = Some sample_config\<rparr>)
        | _ \<Rightarrow> Err (framing ''data'')),
      cd_to_vec = (\<lambda>v p.
          (let b = (case on_startup p of DoNotConnect \<Rightarrow> CHR ''d'' | AlwaysConnect \<Rightarrow> CHR ''a'' | RestoreLastState \<Rightarrow> CHR ''r'')
           in case candidate p of
                None \<Rightarrow> Ok [CHR ''1'', b, CHR ''-'']
              | Some c \<Rightarrow> if c = sample_config then Ok [CHR ''1'', b, CHR ''c''] else Err (framing ''data'')))\<rparr>"

lemma sample_pref_roundtrips [simp]: "codec_roundtrips sample_pref"
  unfolding codec_roundtrips_def sample_pref_def
  by (auto simp: Let_def split: startup_behavior.splits option.splits if_splits intro!: startup_preference.equality)

definition sample_codecs :: ipc_codecs where
  "sample_codecs = \<lparr>ic_target = sample_codec, ic_pref = sample_pref, ic_lockdown = sample_lockdown\<rparr>"

lemma sample_codecs_ok [simp]: "codecs_ok sample_codecs"
  by (simp add: codecs_ok_def sample_codecs_def)

definition sample_ipc_env :: ipc_env where
  "sample_ipc_env =
     \<lparr>ie_pm = sample_env, ie_pref_codec = sample_pref, ie_fs_target = no_faults, ie_fs_intent = no_faults,
      ie_fs_pref = no_faults, ie_redact = id, ie_default_route = True\<rparr>"

lemma sample_ipc_env_ok [simp]: "env_ok sample_codecs s i sample_ipc_env"
  by (simp add: env_ok_def sample_codecs_def sample_ipc_env_def sample_env_def)

text \<open>The tasks named in the list step in that order; with \<open>quiet_only\<close> none may take a snapshot.\<close>

fun run_ids :: "bool \<Rightarrow> ipc_env \<Rightarrow> nat list \<Rightarrow> ipc_state \<Rightarrow> ipc_state option" where
  "run_ids quiet_only E [] s = Some s"
| "run_ids quiet_only E (i # is) s =
     (case ip_tasks s i of
        Some t \<Rightarrow> if quiet_only \<and> takes_snapshot t then None
                  else (case step_task E i t s of Some s' \<Rightarrow> run_ids quiet_only E is s' | None \<Rightarrow> None)
      | None \<Rightarrow> None)"

lemma run_ids_reachable:
  assumes "\<And>u i. env_ok C u i E"
  shows "ipc_reachable C s \<Longrightarrow> run_ids q E is s = Some s' \<Longrightarrow> ipc_reachable C s'"
proof (induction "is" arbitrary: s)
  case (Cons i "is")
  then obtain t s1 where t: "ip_tasks s i = Some t" "step_task E i t s = Some s1" "run_ids q E is s1 = Some s'"
    by (auto split: step_splits)
  from ipc_reachable.stepped [OF Cons.prems(1) ipc_trans.move [OF t(1) assms t(2)]] Cons.IH t(3) show ?case by blast
qed simp

lemma run_ids_quiet:
  assumes "\<And>u i. env_ok C u i E"
  shows "run_ids True E is s = Some s' \<Longrightarrow> (ipc_trans C False)\<^sup>*\<^sup>* s s'"
proof (induction "is" arbitrary: s)
  case (Cons i "is")
  then obtain t s1 where t: "ip_tasks s i = Some t" "\<not> takes_snapshot t" "step_task E i t s = Some s1"
    "run_ids True E is s1 = Some s'" by (auto split: step_splits)
  from ipc_trans.move [OF t(1) assms t(3)] t(2) have "ipc_trans C False s s1" by simp
  then show ?case using Cons.IH [OF t(4)] by (rule converse_rtranclp_into_rtranclp)
qed simp

definition sample_headers :: "string \<Rightarrow> header_map" where
  "sample_headers a = [(ATTEMPT_ID_HEADER, HeaderText a), (ON_STARTUP_HEADER, HeaderText ''always_connect'')]"

text \<open>A server with a start, an unblock and a cancel that names another attempt.\<close>

definition sample_server :: ipc_state where
  "sample_server =
     goto 2 (CancelArrived (sample_headers ''b''))
       (goto 1 UnblockArrived
         (goto 0 (StartArrived sample_config (sample_headers ''a'')) (bind_with_dirs sample_pm)))"

lemma sample_server_reachable [simp]: "ipc_reachable sample_codecs sample_server"
proof -
  let ?s0 = "bind_with_dirs sample_pm"
  let ?s1 = "goto 0 (StartArrived sample_config (sample_headers ''a'')) ?s0"
  let ?s2 = "goto 1 UnblockArrived ?s1"
  have "ipc_reachable sample_codecs ?s1"
    by (rule ipc_reachable.stepped [OF ipc_reachable.bound ipc_trans.arrive]) (simp_all add: bind_with_dirs_def)
  then have "ipc_reachable sample_codecs ?s2"
    by (rule ipc_reachable.stepped [OF _ ipc_trans.arrive]) (simp_all add: bind_with_dirs_def)
  then show ?thesis unfolding sample_server_def
    by (rule ipc_reachable.stepped [OF _ ipc_trans.arrive]) (simp_all add: bind_with_dirs_def)
qed

text \<open>The start has its session, the unblock has recorded its target and not yet announced itself.\<close>

definition sample_race :: ipc_state where
  "sample_race = the (run_ids False sample_ipc_env [0, 0, 0, 0, 1, 1, 1, 1] sample_server)"

definition sample_committed :: ipc_state where
  "sample_committed = the (step_task sample_ipc_env 1 UnblockBump sample_race)"

definition sample_settled :: ipc_state where
  "sample_settled = the (run_ids True sample_ipc_env [1, 1, 1, 0, 0, 0, 0, 0, 0, 0] sample_committed)"

lemma sample_race_run: "run_ids False sample_ipc_env [0, 0, 0, 0, 1, 1, 1, 1] sample_server = Some sample_race"
proof -
  have "run_ids False sample_ipc_env [0, 0, 0, 0, 1, 1, 1, 1] sample_server \<noteq> None" by code_simp
  then show ?thesis by (simp add: sample_race_def)
qed

lemma sample_race_at_bump: "ip_tasks sample_race 1 = Some UnblockBump"
  by code_simp

lemma sample_settled_run: "run_ids True sample_ipc_env [1, 1, 1, 0, 0, 0, 0, 0, 0, 0] sample_committed = Some sample_settled"
proof -
  have "run_ids True sample_ipc_env [1, 1, 1, 0, 0, 0, 0, 0, 0, 0] sample_committed \<noteq> None" by code_simp
  then show ?thesis by (simp add: sample_settled_def)
qed

lemma sample_settled_tasks:
  "(ip_tasks sample_settled 1, ip_tasks sample_settled 0, ip_unblocks sample_settled) = (Some (Done Ack), Some (Done Ack), 1)"
  by code_simp

section \<open>Properties\<close>

text \<open>
  C6. An unblock wins over every start that was already under way. Once the unblock has announced
  itself, and as long as no start or reload takes its snapshot of the counter afterwards, every
  interleaving of the requests leaves the recorded target off: no start that snapshotted before it
  writes its connection over it, whenever its session came up. When the unblock has answered, the
  auto-connect candidate is cleared as well, and the next boot connects to nothing. (The counter
  wraps after \<open>2 ^ 64\<close> unblocks, which is the bound of the property.)
\<close>

theorem unblock_wins:
  assumes "codecs_ok C" "ipc_reachable C s0" "ip_tasks s0 u = Some UnblockBump" "step_task E u UnblockBump s0 = Some s1"
    "(ipc_trans C False)\<^sup>*\<^sup>* s1 s2" "ip_unblocks s2 < 2 ^ 64"
  shows "dir_target C (ip_dir s2) = Some Off \<and>
    (ip_tasks s2 u = Some (Done Ack) \<longrightarrow>
       (\<exists>p. dir_pref C (ip_dir s2) = Some p \<and> candidate p = None \<and>
          resolve_startup_target Off (on_startup p) (candidate p) = Off))"
proof -
  from committed_run [OF assms(1,5) commit_committed [OF assms(1-4)] assms(6)]
  have com: "committed C (ip_unblocks s0) u s2" .
  obtain p where p: "dir_pref C (ip_dir s2) = Some p"
    using observe_record_file [of Decision STARTUP_PREFERENCE_FILE_NAME "ic_pref C" no_faults "ip_dir s2"]
    by (auto simp: dir_pref_def load_startup_preference_def startup_schema_def)
  moreover have "resolve_startup_target Off b None = Off" for b :: startup_behavior by (cases b) simp_all
  ultimately show ?thesis using com by (auto simp: committed_def candidate_pref(1))
qed

theorem unblock_wins_witness:
  "dir_target sample_codecs (ip_dir sample_settled) = Some Off \<and> dir_candidate sample_codecs (ip_dir sample_settled) = None"
proof -
  have r: "ipc_reachable sample_codecs sample_race"
    by (rule run_ids_reachable [OF sample_ipc_env_ok sample_server_reachable sample_race_run])
  have s: "step_task sample_ipc_env 1 UnblockBump sample_race = Some sample_committed"
    by (simp add: sample_committed_def)
  have q: "(ipc_trans sample_codecs False)\<^sup>*\<^sup>* sample_committed sample_settled"
    by (rule run_ids_quiet [OF sample_ipc_env_ok sample_settled_run])
  from sample_settled_tasks have "ip_unblocks sample_settled < 2 ^ 64" "ip_tasks sample_settled 1 = Some (Done Ack)" by simp_all
  with unblock_wins [OF sample_codecs_ok r sample_race_at_bump s q] show ?thesis
    by (auto simp: candidate_pref(1))
qed

text \<open>
  C17. A cancel reaches the attempt it names and no other. In every state of the server, a token
  becomes cancelled only by a cancel that names, with an id that is not empty, the attempt of the
  start holding the slot with that token; a pre-arm is set only by a cancel that names it while no
  start of that attempt is under way; a start is refused as cancelled exactly when the pre-arm names
  it, and a start refused as concurrent leaves the pre-arm as it was. No cancel that carries an id is
  lost: it cancels its start or arms for it.
\<close>

theorem cancel_is_by_name:
  assumes "ipc_reachable C s" "ip_tasks s i = Some t" "step_task E i t s = Some s'"
  shows "(\<forall>k. k \<in> set (ip_cancelled s') \<and> k \<notin> set (ip_cancelled s) \<longrightarrow>
       (\<exists>h v. t = CancelArrived h \<and> attempt_id_from h \<noteq> [] \<and> ip_tasks s k = Some v \<and> slot_of v = Some (attempt_id_from h))) \<and>
    (\<forall>a. pre_armed (ip_start_cancel s') = Some a \<and> pre_armed (ip_start_cancel s) \<noteq> Some a \<longrightarrow>
       a \<noteq> [] \<and> (\<exists>h. t = CancelArrived h \<and> attempt_id_from h = a) \<and>
       (\<forall>k v. ip_tasks s k = Some v \<longrightarrow> slot_of v \<noteq> Some a)) \<and>
    (\<forall>cfg h. t = StartArrived cfg h \<longrightarrow>
       (ip_tasks s' i = Some (Done (StartFailure StartCancelled)) \<longleftrightarrow>
          attempt_id_from h \<noteq> [] \<and> pre_armed (ip_start_cancel s) = Some (attempt_id_from h)) \<and>
       (ip_tasks s' i = Some (Done StartConflict) \<longrightarrow> ip_start_cancel s' = ip_start_cancel s)) \<and>
    (\<forall>h. t = CancelArrived h \<and> attempt_id_from h \<noteq> [] \<longrightarrow>
       (\<exists>k v. ip_tasks s k = Some v \<and> slot_of v = Some (attempt_id_from h) \<and> k \<in> set (ip_cancelled s')) \<or>
       pre_armed (ip_start_cancel s') = Some (attempt_id_from h))"
proof -
  have slot: "in_flight (ip_start_cancel s) = Some (a, k) \<longleftrightarrow> (\<exists>v. ip_tasks s k = Some v \<and> slot_of v = Some a)" for a k
    using inv_ipc_reachable [OF assms(1)] unfolding ipc_inv_def slot_held_def by blast
  show ?thesis
  proof (cases t)
    case (StartArrived c h)
    with assms(3) show ?thesis by (auto simp: Let_def register_start_def split: step_splits)
  next
    case (CancelArrived h)
    show ?thesis
    proof (cases "in_flight (ip_start_cancel s)")
      case None
      with slot have "ip_tasks s k = Some v \<Longrightarrow> slot_of v \<noteq> Some a" for k v a by fastforce
      with None CancelArrived assms(3) show ?thesis by (auto simp: handle_cancel_def split: step_splits)
    next
      case (Some x)
      obtain b k where x: "x = (b, k)" by force
      with Some slot [of b k] obtain v where v: "ip_tasks s k = Some v" "slot_of v = Some b" by auto
      have other: "a \<noteq> b \<Longrightarrow> ip_tasks s j = Some w \<Longrightarrow> slot_of w \<noteq> Some a" for j w a
        using slot [of a j] Some x by auto
      let ?a = "attempt_id_from h"
      consider (named) "?a \<noteq> []" "?a = b" | (armed) "?a \<noteq> []" "?a \<noteq> b" | (none) "?a = []" by blast
      then show ?thesis
      proof cases
        case named
        with v Some x CancelArrived assms(3) show ?thesis
          by (auto simp: handle_cancel_def intro!: exI [of _ k])
      next
        case armed
        with other Some x CancelArrived assms(3) show ?thesis by (auto simp: handle_cancel_def)
      next
        case none
        with Some x CancelArrived assms(3) show ?thesis by (auto simp: handle_cancel_def)
      qed
    qed
  next
    case (ClearSlot j r)
    with assms(3) show ?thesis by (auto simp: clear_in_flight_def split: step_splits)
  qed (use assms(3) in \<open>auto split: step_splits\<close>)
qed

theorem cancel_is_by_name_witness:
  "ip_cancelled (the (step_task sample_ipc_env 2 (CancelArrived (sample_headers ''b'')) sample_server)) = [] \<and>
   pre_armed (ip_start_cancel (the (step_task sample_ipc_env 2 (CancelArrived (sample_headers ''b'')) sample_server))) = Some ''b''"
proof -
  have st: "step_task sample_ipc_env 2 (CancelArrived (sample_headers ''b'')) sample_server \<noteq> None"
    "ip_cancelled (the (step_task sample_ipc_env 2 (CancelArrived (sample_headers ''b'')) sample_server)) = []"
    "attempt_id_from (sample_headers ''b'') = ''b''"
    by code_simp+
  then obtain s' where s': "step_task sample_ipc_env 2 (CancelArrived (sample_headers ''b'')) sample_server = Some s'" by auto
  have t: "ip_tasks sample_server 2 = Some (CancelArrived (sample_headers ''b''))" by (simp add: sample_server_def)
  from cancel_is_by_name [OF sample_server_reachable t s'] st(3)
  have "(\<exists>k v. ip_tasks sample_server k = Some v \<and> slot_of v = Some ''b'' \<and> k \<in> set (ip_cancelled s')) \<or>
      pre_armed (ip_start_cancel s') = Some ''b''" by simp
  with st(2) s' show ?thesis by simp
qed

text \<open>
  C18. The start slot and the two mutexes over every interleaving. The slot is occupied by exactly
  the start that stands between its registration and its clearing, so at most one start is under way
  and the assertion at the clearing never fails; the proxy manager and the ordering of the records
  are each held by at most one task, the one whose handler stands where it holds them.
\<close>

theorem start_slot_single:
  assumes "ipc_reachable C s"
  shows "(\<forall>i a. in_flight (ip_start_cancel s) = Some (a, i) \<longleftrightarrow> (\<exists>t. ip_tasks s i = Some t \<and> slot_of t = Some a)) \<and>
    (\<forall>i t k u. ip_tasks s i = Some t \<and> ip_tasks s k = Some u \<and>
       (slot_of t \<noteq> None \<and> slot_of u \<noteq> None \<or> holds_proxy t \<and> holds_proxy u \<or> holds_persist t \<and> holds_persist u) \<longrightarrow>
       i = k) \<and>
    (\<forall>i. ip_tasks s i \<noteq> Some (Done Panicked))"
proof -
  note inv = inv_ipc_reachable [OF assms]
  then have slot: "\<forall>i a. in_flight (ip_start_cancel s) = Some (a, i) \<longleftrightarrow> (\<exists>t. ip_tasks s i = Some t \<and> slot_of t = Some a)"
    by (simp add: ipc_inv_def slot_held_def)
  have "i = k" if "ip_tasks s i = Some t" "ip_tasks s k = Some u" "slot_of t = Some a" "slot_of u = Some b" for i k t u a b
    using slot that by (metis option.inject prod.inject)
  moreover have "i = k" if "ip_tasks s i = Some t" "ip_tasks s k = Some u"
    "holds_proxy t \<and> holds_proxy u \<or> holds_persist t \<and> holds_persist u" for i k t u
    using inv proxy_mutex.exclusive persist_mutex.exclusive that unfolding ipc_inv_def by blast
  moreover have "ip_tasks s i \<noteq> Some (Done Panicked)" for i
    using inv by (force simp: ipc_inv_def sound_task_def)
  ultimately show ?thesis using slot by blast
qed

theorem start_slot_single_witness: "ip_tasks sample_race 0 \<noteq> Some (Done Panicked)"
  using start_slot_single [OF run_ids_reachable [OF sample_ipc_env_ok sample_server_reachable sample_race_run]] by blast





text \<open>Run by itself, a task that decided takes \<^verbatim>\<open>persist_after_start\<close> in at most three steps.\<close>

lemma persist_steps:
  assumes "ip_tasks s i = Some (PersistDecide j snapshot result)"
  shows "\<exists>n \<le> 3. ip_tasks (run_task (replicate n E) i s) i = Some (UnlockPersist j result) \<and>
    ip_dir (run_task (replicate n E) i s) =
      fst (persist_after_start E (jb_config j) (jb_on_startup j) (result = None) snapshot (ip_generation s) (ip_dir s))"
proof (cases result)
  case (Some e)
  show ?thesis
  proof (cases "jb_on_startup j")
    case None
    with Some assms show ?thesis by (intro exI [of _ 1]) (simp add: persist_after_start_def)
  next
    case (Some b)
    with \<open>result = Some e\<close> assms show ?thesis
      by (intro exI [of _ 2]) (simp add: persist_after_start_def numeral_2_eq_2 split: prod.splits)
  qed
next
  case None
  obtain w1 b1 where t: "write_start_target E (jb_config j) (ip_dir s) = (w1, b1)" by force
  consider "ip_generation s \<noteq> snapshot" | "ip_generation s = snapshot" b1 | "ip_generation s = snapshot" "\<not> b1" by blast
  then show ?thesis
  proof cases
    case 3
    with None t assms show ?thesis
      by (intro exI [of _ 2]) (simp add: persist_after_start_def write_start_records_def numeral_2_eq_2)
  qed (use None t assms in \<open>intro exI [of _ 3], simp add: persist_after_start_def write_start_records_def
         numeral_3_eq_3 split: prod.splits\<close>)+
qed

lemma preference_candidate:
  assumes "codec_roundtrips (ic_pref C)" "ie_pref_codec E = ic_pref C" "write_preference E f w = (w', saved)"
    "\<And>p. candidate (f p) = candidate p"
  shows "dir_candidate C w' = dir_candidate C w \<or> dir_candidate C w' = None"
  using write_preference_effect [OF assms(1-3)] assms(4)
  by (auto simp: dir_candidate_def split: if_splits option.splits)

lemma start_preference_sel:
  "on_startup (start_preference cfg push d p) = (case push of Some b \<Rightarrow> b | None \<Rightarrow> on_startup p)"
  "candidate (start_preference cfg push d p) = (if d then candidate p else Some cfg)"
  by (simp_all add: start_preference_def Let_def split: option.splits)

text \<open>A start that records no session writes the preference at most, and of it only what was pushed.\<close>

lemma quiet_persist_cases:
  assumes "persist_after_start E cfg push succeeded snapshot generation w = (w', saved)"
    "\<not> succeeded \<or> generation \<noteq> snapshot"
  obtains (nothing) "w' = w" "\<not> succeeded" "push = None"
  | (pushed) f where "write_preference E f w = (w', saved)" "\<And>p. candidate (f p) = candidate p"
      "\<And>p. on_startup (f p) = (case push of Some b \<Rightarrow> b | None \<Rightarrow> on_startup p)"
proof (cases succeeded)
  case True
  with assms have "write_preference E (start_preference cfg push True) w = (w', saved)"
    by (simp add: persist_after_start_def write_start_records_def)
  then show thesis by (rule pushed) (simp_all add: start_preference_sel)
next
  case False
  show thesis
  proof (cases push)
    case (Some b)
    with False assms(1) have "write_preference E (\<lambda>p. p\<lparr>on_startup := b\<rparr>) w = (w', saved)"
      by (simp add: persist_after_start_def)
    then show thesis by (rule pushed) (simp_all add: Some)
  next
    case None
    with False assms(1) have "w' = w" by (simp add: persist_after_start_def)
    then show thesis using False None by (rule nothing)
  qed
qed

lemma connected_persist:
  assumes "codecs_ok C" "env_codecs C E" "persist_after_start E cfg push True snapshot snapshot w = (w', True)"
  shows "dir_target C w' = Some (Connected cfg) \<and>
    (\<exists>p. (dir_pref C w = Some p \<or> p = preference_default) \<and> dir_pref C w' = Some (start_preference cfg push False p))"
proof -
  have c: "codec_roundtrips (ic_target C)" "codec_roundtrips (ic_pref C)" using assms(1) by (simp_all add: codecs_ok_def)
  have e: "e_target_codec (ie_pm E) = ic_target C" "ie_pref_codec E = ic_pref C" using assms(2) by (simp_all add: env_codecs_def)
  obtain w1 where w1: "write_start_target E cfg w = (w1, True)" and
    wr: "write_preference E (start_preference cfg push False) w1 = (w', True)"
    using assms(3) by (auto simp: persist_after_start_def write_start_records_def split: prod.splits bool.splits)
  from w1 obtain r where r: "apply_target (ic_target C) (ie_fs_target E) (\<lambda>_. Connected cfg) w = (w1, r)" "update_ok r"
    by (auto simp: write_start_target_def e split: prod.splits)
  from write_target_effect [OF c(1) r(1)] r(2)
  have "dir_pref C w1 = dir_pref C w" "dir_target C w1 = Some (Connected cfg)" by simp_all
  with write_preference_effect [OF c(2) e(2) wr] show ?thesis by auto
qed



end
