(* ===== verification/Image_Swap.thy ===== *)
theory Image_Swap
  imports Versioned_File
begin

text \<open>
  Swapping the images of an update: the Windows driver over the installed binaries
  (crates/bridge/src/cutover/os/windows.rs), the macOS driver over the bundle and its helper
  (crates/bridge/src/platform/swap.rs) and the sequence both run in
  (crates/bridge/src/cutover/os.rs).

  A volume is a partial map from paths to contents, a bundle being one entry. A rename replaces what
  is at its destination; every rename may fail for a reason outside the map, which the environment
  says, and one of a missing source fails by itself. The service control manager, launchd and the
  volume probe are answers of the environment.
\<close>

section \<open>Renames\<close>

type_synonym volume = "string \<Rightarrow> bytes option"

definition fs_rename :: "io_kind option \<Rightarrow> string \<Rightarrow> string \<Rightarrow> volume \<Rightarrow> volume \<times> io_kind option" where
  "fs_rename fault src dst v =
     (case fault of
        Some k \<Rightarrow> (v, Some k)
      | None \<Rightarrow>
          (case v src of
             None \<Rightarrow> (v, Some NotFound)
           | Some c \<Rightarrow> (if src = dst then v else v(dst \<mapsto> c, src := None), None)))"

definition rename_swap :: "io_kind option \<Rightarrow> string \<Rightarrow> string \<Rightarrow> volume \<Rightarrow> volume \<times> io_kind option" where
  "rename_swap fault src dst v =
     (case fault of
        Some k \<Rightarrow> (v, Some k)
      | None \<Rightarrow>
          (case (v src, v dst) of
             (Some a, Some b) \<Rightarrow> (v(dst \<mapsto> a, src \<mapsto> b), None)
           | _ \<Rightarrow> (v, Some NotFound)))"

section \<open>The Windows driver (os/windows.rs)\<close>

record image_move =
  im_installed :: string
  im_staged :: string

text \<open>The image's index says which of its renames meets which fault.\<close>

record swap_faults =
  sf_rename_away :: "nat \<Rightarrow> io_kind option"
  sf_move_in :: "nat \<Rightarrow> io_kind option"
  sf_restore :: "nat \<Rightarrow> io_kind option"
  sf_undo_new :: "nat \<Rightarrow> io_kind option"
  sf_undo_old :: "nat \<Rightarrow> io_kind option"
  sf_remove_old :: "nat \<Rightarrow> bool"

definition old_name :: "string \<Rightarrow> string \<Rightarrow> string" where
  "old_name installed target_version = installed @ ''.old-'' @ target_version"

record completed_swap =
  cp_installed :: string
  cp_staged :: string
  cp_old :: string

definition restore_half_swapped :: "swap_faults \<Rightarrow> nat \<Rightarrow> string \<Rightarrow> string \<Rightarrow> volume \<Rightarrow> volume" where
  "restore_half_swapped F index old installed v = fst (fs_rename (sf_restore F index) old installed v)"

definition undo_swap :: "swap_faults \<Rightarrow> nat \<Rightarrow> string \<Rightarrow> string \<Rightarrow> string \<Rightarrow> volume \<Rightarrow> volume" where
  "undo_swap F index installed staged old v =
     fst (fs_rename (sf_undo_old F index) old installed (fst (fs_rename (sf_undo_new F index) installed staged v)))"

definition remove_old :: "swap_faults \<Rightarrow> nat \<Rightarrow> string \<Rightarrow> volume \<Rightarrow> volume" where
  "remove_old F index old v = (if sf_remove_old F index then v else v(old := None))"

definition undo_all :: "swap_faults \<Rightarrow> completed_swap list \<Rightarrow> volume \<Rightarrow> volume" where
  "undo_all F cs v =
     foldl (\<lambda>v (index, c). undo_swap F index (cp_installed c) (cp_staged c) (cp_old c) v) v (rev (enumerate 0 cs))"

fun swap_images_from :: "swap_faults \<Rightarrow> string \<Rightarrow> nat \<Rightarrow> image_move list \<Rightarrow> completed_swap list \<Rightarrow> volume \<Rightarrow>
    volume \<times> (io_kind, completed_swap list) result" where
  "swap_images_from F ver index [] completed v = (v, Ok completed)"
| "swap_images_from F ver index (img # imgs) completed v =
     (let old = old_name (im_installed img) ver
      in case fs_rename (sf_rename_away F index) (im_installed img) old v of
           (v1, Some e) \<Rightarrow> (undo_all F completed v1, Err e)
         | (v1, None) \<Rightarrow>
             (case fs_rename (sf_move_in F index) (im_staged img) (im_installed img) v1 of
                (v2, Some e) \<Rightarrow>
                  (undo_all F completed (restore_half_swapped F index old (im_installed img) v2), Err e)
              | (v2, None) \<Rightarrow>
                  swap_images_from F ver (Suc index) imgs
                    (completed @ [\<lparr>cp_installed = im_installed img, cp_staged = im_staged img, cp_old = old\<rparr>]) v2))"

definition execute_image_swaps :: "swap_faults \<Rightarrow> string \<Rightarrow> image_move list \<Rightarrow> volume \<Rightarrow>
    volume \<times> io_kind option" where
  "execute_image_swaps F ver images v =
     (case swap_images_from F ver 0 images [] v of
        (v1, Err e) \<Rightarrow> (v1, Some e)
      | (v1, Ok cs) \<Rightarrow> (foldl (\<lambda>v (index, c). remove_old F index (cp_old c) v) v1 (enumerate 0 cs), None))"

section \<open>The macOS driver (swap.rs)\<close>

datatype swap_primitive = RenameSwap | PlainRename

record image_swap =
  is_staging :: string
  is_dest :: string
  is_primitive :: swap_primitive
  is_delete_swapped_out :: bool

record swap_plan =
  sp_app :: image_swap
  sp_helper :: image_swap

definition plan_swap :: "string \<Rightarrow> string \<Rightarrow> string \<Rightarrow> string \<Rightarrow> swap_plan" where
  "plan_swap app_staging app_dest helper_staging helper_dest =
     \<lparr>sp_app = \<lparr>is_staging = app_staging, is_dest = app_dest, is_primitive = RenameSwap, is_delete_swapped_out = True\<rparr>,
      sp_helper = \<lparr>is_staging = helper_staging, is_dest = helper_dest, is_primitive = PlainRename,
        is_delete_swapped_out = False\<rparr>\<rparr>"

datatype rename_swap_support = SwapSupported | SwapUnsupported | SwapProbeFailed

fun rename_swap_gate :: "rename_swap_support \<Rightarrow> io_kind option" where
  "rename_swap_gate SwapSupported = None"
| "rename_swap_gate SwapProbeFailed = None"
| "rename_swap_gate SwapUnsupported = Some Unsupported"

record mac_faults =
  mf_dev :: "string \<Rightarrow> (io_kind, nat) result"
  mf_swap :: "nat \<Rightarrow> io_kind option"
  mf_reswap :: "nat \<Rightarrow> io_kind option"
  mf_delete :: "nat \<Rightarrow> bool"

text \<open>\<open>mf_dev\<close> is the device of a path's parent directory.\<close>

definition same_volume :: "nat \<Rightarrow> nat \<Rightarrow> bool" where
  "same_volume a_dev b_dev = (a_dev = b_dev)"

definition swap_one :: "mac_faults \<Rightarrow> image_swap \<Rightarrow> nat \<Rightarrow> volume \<Rightarrow> volume \<times> io_kind option" where
  "swap_one F img index v =
     (case (mf_dev F (is_staging img), mf_dev F (is_dest img)) of
        (Ok sdev, Ok ddev) \<Rightarrow>
          if \<not> same_volume sdev ddev then (v, Some (OtherKind 0))
          else (case is_primitive img of
                  RenameSwap \<Rightarrow> rename_swap (mf_swap F index) (is_staging img) (is_dest img) v
                | PlainRename \<Rightarrow> fs_rename (mf_swap F index) (is_staging img) (is_dest img) v)
      | (Err e, _) \<Rightarrow> (v, Some e)
      | (_, Err e) \<Rightarrow> (v, Some e))"

definition reswap :: "mac_faults \<Rightarrow> image_swap \<Rightarrow> nat \<Rightarrow> volume \<Rightarrow> volume" where
  "reswap F img index v =
     (case is_primitive img of
        RenameSwap \<Rightarrow> fst (rename_swap (mf_reswap F index) (is_dest img) (is_staging img) v)
      | PlainRename \<Rightarrow> v)"

definition delete_staging :: "mac_faults \<Rightarrow> image_swap \<Rightarrow> nat \<Rightarrow> volume \<Rightarrow> volume" where
  "delete_staging F img index v = (if mf_delete F index then v else v(is_staging img := None))"

text \<open>
  \<^verbatim>\<open>execute_plan\<close>: swap in order, roll the committed ones back in reverse on a failure, and delete
  what was swapped out only when all are in place. The first \<open>None\<close> is the failed \<^verbatim>\<open>debug_assert\<close>.
\<close>

fun swap_plan_from :: "mac_faults \<Rightarrow> image_swap list \<Rightarrow> nat \<Rightarrow> image_swap list \<Rightarrow> volume \<Rightarrow>
    volume \<times> io_kind option" where
  "swap_plan_from F images index [] v = (v, None)"
| "swap_plan_from F images index (img # rest) v =
     (case swap_one F img index v of
        (v1, Some e) \<Rightarrow> (foldl (\<lambda>v done. reswap F (images ! done) done v) v1 (rev [0..<index]), Some e)
      | (v1, None) \<Rightarrow> swap_plan_from F images (Suc index) rest v1)"

definition execute_plan :: "mac_faults \<Rightarrow> swap_plan \<Rightarrow> volume \<Rightarrow> (volume \<times> io_kind option) option" where
  "execute_plan F plan v =
     (let images = [sp_app plan, sp_helper plan]
      in if \<not> list_all (\<lambda>img. is_primitive img = RenameSwap) (butlast images) then None
         else case swap_plan_from F images 0 images v of
                (v1, Some e) \<Rightarrow> Some (v1, Some e)
              | (v1, None) \<Rightarrow>
                  Some (foldl (\<lambda>v index. if is_delete_swapped_out (images ! index)
                                   then delete_staging F (images ! index) index v else v) v1 [0..<length images], None))"

section \<open>The sequence (os.rs)\<close>

datatype cutover_action = HoldService | StopService | SwapImages | RestoreHold | RepairStartType | StartService

datatype cutover_outcome = CutoverStarted | CutoverLeftDisabled

fun leaves_marker_for_new_bridge :: "cutover_outcome \<Rightarrow> bool" where
  "leaves_marker_for_new_bridge CutoverStarted = True"
| "leaves_marker_for_new_bridge CutoverLeftDisabled = False"

record cutover_os =
  co_hold :: "io_kind option"
  co_stop :: "io_kind option"
  co_swap :: "volume \<Rightarrow> volume \<times> io_kind option"
  co_repair :: "(io_kind, bool) result"
  co_start :: "io_kind option"

text \<open>The actions in the order they are taken, the volume, and how it ended.\<close>

definition run_cutover_windows :: "cutover_os \<Rightarrow> volume \<Rightarrow>
    cutover_action list \<times> volume \<times> (io_kind, cutover_outcome) result" where
  "run_cutover_windows os v =
     (case co_hold os of
        Some e \<Rightarrow> ([HoldService], v, Err e)
      | None \<Rightarrow>
          (let (tr, v1, failed) =
             (case co_stop os of
                Some e \<Rightarrow> ([HoldService, StopService], v, Some e)
              | None \<Rightarrow> (case co_swap os v of (v1, r) \<Rightarrow> ([HoldService, StopService, SwapImages], v1, r)));
             tr1 = tr @ [RestoreHold]
           in case failed of
                Some e \<Rightarrow> (tr1, v1, Err e)
              | None \<Rightarrow>
                  (case co_repair os of
                     Err e \<Rightarrow> (tr1 @ [RepairStartType], v1, Err e)
                   | Ok False \<Rightarrow> (tr1 @ [RepairStartType], v1, Ok CutoverLeftDisabled)
                   | Ok True \<Rightarrow>
                       (tr1 @ [RepairStartType, StartService], v1,
                        case co_start os of Some e \<Rightarrow> Err e | None \<Rightarrow> Ok CutoverStarted))))"

definition run_cutover_macos :: "cutover_os \<Rightarrow> volume \<Rightarrow>
    cutover_action list \<times> volume \<times> (io_kind, cutover_outcome) result" where
  "run_cutover_macos os v =
     (case co_swap os v of
        (v1, Some e) \<Rightarrow> ([SwapImages], v1, Err e)
      | (v1, None) \<Rightarrow>
          (case co_stop os of
             Some e \<Rightarrow> ([SwapImages, StopService], v1, Err e)
           | None \<Rightarrow> ([SwapImages, StopService], v1, Ok CutoverStarted)))"

end
