(* ===== verification/Swap_Safety.thy ===== *)
theory Swap_Safety
  imports Image_Swap
begin

text \<open>
  The image swaps of \<open>Image_Swap\<close> are all or nothing: an update that fails half way leaves the
  installed set it found. Both drivers are the same loop over swaps that can be undone; the locale
  below says what a swap has to satisfy for that loop to be all or nothing, and the Windows and the
  macOS swaps are instances of it.
\<close>

section \<open>A loop of swaps that can be undone\<close>

fun drive :: "('i \<Rightarrow> 's \<Rightarrow> 's \<times> 'e option) \<Rightarrow> ('i \<Rightarrow> 's \<Rightarrow> 's) \<Rightarrow> 'i list \<Rightarrow> 'i list \<Rightarrow> 's \<Rightarrow> 's \<times> 'e option" where
  "drive swap undo ds [] s = (s, None)"
| "drive swap undo ds (i # xs) s =
     (case swap i s of
        (s', Some e) \<Rightarrow> (foldl (\<lambda>s i. undo i s) s' (rev ds), Some e)
      | (s', None) \<Rightarrow> drive swap undo (ds @ [i]) xs s')"

text \<open>
  A swap that fails changes nothing; one that is undone restores what it found; it leaves the images
  it is apart from ready. Only a swap that is not the last has to be invertible.
\<close>

locale reversible_swaps =
  fixes swap :: "'i \<Rightarrow> 's \<Rightarrow> 's \<times> 'e option" and undo :: "'i \<Rightarrow> 's \<Rightarrow> 's"
    and ready :: "'i \<Rightarrow> 's \<Rightarrow> bool" and apart :: "'i \<Rightarrow> 'i \<Rightarrow> bool" and invertible :: "'i \<Rightarrow> bool"
  assumes failed_swap: "ready i s \<Longrightarrow> swap i s = (s', Some e) \<Longrightarrow> s' = s"
    and undone: "invertible i \<Longrightarrow> ready i s \<Longrightarrow> swap i s = (s', None) \<Longrightarrow> undo i s' = s"
    and ready_kept: "apart i j \<Longrightarrow> ready j s \<Longrightarrow> swap i s = (s', None) \<Longrightarrow> ready j s'"
begin

lemma rolled_back:
  assumes "drive swap undo ds xs s = (s', Some e)" "foldl (\<lambda>s i. undo i s) s (rev ds) = s0"
    "list_all (\<lambda>i. ready i s) xs" "sorted_wrt apart xs" "list_all invertible (butlast xs)"
  shows "s' = s0"
  using assms
proof (induction xs arbitrary: ds s)
  case (Cons i xs)
  obtain s1 r where sw: "swap i s = (s1, r)" by force
  show ?case
  proof (cases r)
    case (Some x)
    with failed_swap [of i s s1 x] Cons.prems sw show ?thesis by simp
  next
    case None
    with Cons.prems(1) sw have d: "drive swap undo (ds @ [i]) xs s1 = (s', Some e)" by simp
    then have "xs \<noteq> []" by auto
    with Cons.prems None sw have "undo i s1 = s" by (intro undone) auto
    then have "foldl (\<lambda>s i. undo i s) s1 (rev (ds @ [i])) = s0" using Cons.prems(2) by simp
    moreover have "list_all (\<lambda>j. ready j s1) xs"
      using Cons.prems(3,4) ready_kept [of i _ s s1] sw None by (auto simp: list_all_iff)
    ultimately show ?thesis using Cons.IH [OF d] Cons.prems(4,5) \<open>xs \<noteq> []\<close> by simp
  qed
qed simp

lemma all_or_nothing:
  "drive swap undo [] xs s = (s', Some e) \<Longrightarrow> list_all (\<lambda>i. ready i s) xs \<Longrightarrow> sorted_wrt apart xs \<Longrightarrow>
    list_all invertible (butlast xs) \<Longrightarrow> s' = s"
  using rolled_back [of "[]" xs s s' e s] by simp

end

section \<open>Windows\<close>

text \<open>The paths of an image; an image is ready when nothing is left at its old name.\<close>

definition image_paths :: "string \<Rightarrow> image_move \<Rightarrow> string list" where
  "image_paths ver img = [im_installed img, im_staged img, old_name (im_installed img) ver]"

definition rollback_works :: "swap_faults \<Rightarrow> bool" where
  "rollback_works F \<longleftrightarrow> (\<forall>n. sf_restore F n = None \<and> sf_undo_new F n = None \<and> sf_undo_old F n = None)"

definition win_swap :: "swap_faults \<Rightarrow> string \<Rightarrow> nat \<times> image_move \<Rightarrow> volume \<Rightarrow> volume \<times> io_kind option" where
  "win_swap F ver x v =
     (let (index, img) = x; old = old_name (im_installed img) ver
      in case fs_rename (sf_rename_away F index) (im_installed img) old v of
           (v1, Some e) \<Rightarrow> (v1, Some e)
         | (v1, None) \<Rightarrow>
             (case fs_rename (sf_move_in F index) (im_staged img) (im_installed img) v1 of
                (v2, Some e) \<Rightarrow> (restore_half_swapped F index old (im_installed img) v2, Some e)
              | (v2, None) \<Rightarrow> (v2, None)))"

definition win_undo :: "swap_faults \<Rightarrow> string \<Rightarrow> nat \<times> image_move \<Rightarrow> volume \<Rightarrow> volume" where
  "win_undo F ver x v =
     (let (index, img) = x
      in undo_swap F index (im_installed img) (im_staged img) (old_name (im_installed img) ver) v)"

definition win_ready :: "swap_faults \<Rightarrow> string \<Rightarrow> nat \<times> image_move \<Rightarrow> volume \<Rightarrow> bool" where
  "win_ready F ver x v \<longleftrightarrow> rollback_works F \<and> distinct (image_paths ver (snd x)) \<and>
     v (old_name (im_installed (snd x)) ver) = None"

definition win_apart :: "string \<Rightarrow> nat \<times> image_move \<Rightarrow> nat \<times> image_move \<Rightarrow> bool" where
  "win_apart ver x y \<longleftrightarrow> set (image_paths ver (snd x)) \<inter> set (image_paths ver (snd y)) = {}"

lemma rename_Some: "fs_rename f p q v = (v', Some e) \<Longrightarrow> v' = v"
  by (auto simp: fs_rename_def split: option.splits)

lemma rename_None:
  "p \<noteq> q \<Longrightarrow> fs_rename f p q v = (v', None) \<longleftrightarrow> f = None \<and> (\<exists>c. v p = Some c \<and> v' = v(q \<mapsto> c, p := None))"
  by (auto simp: fs_rename_def split: option.splits)

lemma win_swap_None:
  assumes "distinct (image_paths ver img)" "win_swap F ver (n, img) v = (v', None)"
  obtains a b where "v (im_installed img) = Some a" "v (im_staged img) = Some b"
    "v' = v(old_name (im_installed img) ver \<mapsto> a, im_installed img \<mapsto> b, im_staged img := None)"
proof -
  let ?i = "im_installed img" and ?s = "im_staged img" and ?o = "old_name (im_installed img) ver"
  have d: "?i \<noteq> ?o" "?s \<noteq> ?i" "?s \<noteq> ?o" using assms(1) by (auto simp: image_paths_def)
  obtain v1 r where 1: "fs_rename (sf_rename_away F n) ?i ?o v = (v1, r)" by force
  obtain v2 q where 2: "fs_rename (sf_move_in F n) ?s ?i v1 = (v2, q)" by force
  from assms(2) 1 2 have "r = None" "q = None" "v' = v2"
    by (cases r; cases q; simp add: win_swap_def Let_def)+
  with 1 2 d that show thesis by (auto simp: rename_None)
qed

lemma undo_works:
  assumes "distinct [i, s, o']" "v o' = None" "v i = Some a" "v s = Some b"
    "sf_undo_new F n = None" "sf_undo_old F n = None"
  shows "undo_swap F n i s o' (v(o' \<mapsto> a, i \<mapsto> b, s := None)) = v"
proof -
  let ?v = "v(o' \<mapsto> a, i \<mapsto> b, s := None)"
  have "fs_rename None i s ?v = (?v(s \<mapsto> b, i := None), None)"
    using assms(1) by (simp add: fs_rename_def)
  moreover have "fs_rename None o' i (?v(s \<mapsto> b, i := None)) = (?v(s \<mapsto> b, i := None, i \<mapsto> a, o' := None), None)"
    using assms(1) by (auto simp: fs_rename_def)
  moreover have "?v(s \<mapsto> b, i := None, i \<mapsto> a, o' := None) = v"
    using assms(1-4) by (auto simp: fun_eq_iff)
  ultimately show ?thesis using assms(5,6) by (simp add: undo_swap_def)
qed

interpretation win_swaps: reversible_swaps "win_swap F ver" "win_undo F ver" "win_ready F ver" "win_apart ver" "\<lambda>_. True"
proof unfold_locales
  fix x v v' and e :: io_kind
  assume ready: "win_ready F ver x v" and sw: "win_swap F ver x v = (v', Some e)"
  obtain n img where x: "x = (n, img)" by force
  let ?i = "im_installed img" and ?o = "old_name (im_installed img) ver"
  have d: "?i \<noteq> ?o" "v ?o = None" "sf_restore F n = None"
    using ready x by (auto simp: win_ready_def image_paths_def rollback_works_def)
  show "v' = v"
  proof (cases "fs_rename (sf_rename_away F n) ?i ?o v")
    case (Pair v1 r)
    show ?thesis
    proof (cases r)
      case (Some k)
      with Pair sw x rename_Some [of _ _ _ v v1 k] show ?thesis by (auto simp: win_swap_def)
    next
      case None
      with Pair d obtain a where a: "v ?i = Some a" "v1 = v(?o \<mapsto> a, ?i := None)" by (auto simp: rename_None)
      obtain v2 q where mv: "fs_rename (sf_move_in F n) (im_staged img) ?i v1 = (v2, q)" by force
      with sw x Pair None have q: "q = Some e" "v' = restore_half_swapped F n ?o ?i v2"
        by (cases q; auto simp: win_swap_def)+
      from mv q rename_Some [of _ _ _ v1 v2 e] have "v2 = v1" by simp
      with q a d show ?thesis
        by (auto simp: restore_half_swapped_def fs_rename_def fun_eq_iff)
    qed
  qed
next
  fix x v v'
  assume ready: "win_ready F ver x v" and sw: "win_swap F ver x v = (v', None :: io_kind option)"
  obtain n img where x: "x = (n, img)" by force
  have d: "distinct (image_paths ver img)" "v (old_name (im_installed img) ver) = None" "rollback_works F"
    using ready x by (auto simp: win_ready_def)
  from win_swap_None [OF d(1) sw [unfolded x]] obtain a b where
    "v (im_installed img) = Some a" "v (im_staged img) = Some b"
    "v' = v(old_name (im_installed img) ver \<mapsto> a, im_installed img \<mapsto> b, im_staged img := None)" .
  with d undo_works [of "im_installed img" "im_staged img" "old_name (im_installed img) ver" v a b F n]
  show "win_undo F ver x v' = v" by (simp add: x win_undo_def rollback_works_def image_paths_def)
next
  fix x y v v'
  assume apart: "win_apart ver x y" and ready: "win_ready F ver y v" and sw: "win_swap F ver x v = (v', None :: io_kind option)"
  obtain n img where x: "x = (n, img)" by force
  have "v' p = v p" if "p \<notin> set (image_paths ver img)" for p
    using sw that by (auto simp: x win_swap_def Let_def fs_rename_def image_paths_def split: option.splits if_splits)
  moreover have "old_name (im_installed (snd y)) ver \<notin> set (image_paths ver img)"
    using apart x by (auto simp: win_apart_def image_paths_def)
  ultimately show "win_ready F ver y v'" using ready by (simp add: win_ready_def)
qed

lemma undo_all_drive:
  "undo_all F (map (\<lambda>img. \<lparr>cp_installed = im_installed img, cp_staged = im_staged img,
       cp_old = old_name (im_installed img) ver\<rparr>) imgs) v =
     foldl (\<lambda>v x. win_undo F ver x v) v (rev (enumerate 0 imgs))"
proof -
  let ?c = "\<lambda>img. \<lparr>cp_installed = im_installed img, cp_staged = im_staged img, cp_old = old_name (im_installed img) ver\<rparr>"
  have "enumerate 0 (map ?c imgs) = map (\<lambda>(n, img). (n, ?c img)) (enumerate 0 imgs)"
    by (simp add: enumerate_map_upt enumerate_eq_zip zip_map2)
  moreover have "rev (map f xs) = map f (rev xs)" for f :: "nat \<times> image_move \<Rightarrow> nat \<times> completed_swap" and xs by (rule rev_map)
  ultimately show ?thesis
    by (simp add: undo_all_def foldl_map case_prod_beta win_undo_def)
qed

text \<open>The loop of the code is the loop above, with the completed images kept for the cleanup.\<close>

lemma swap_images_drive:
  "swap_images_from F ver (length ds) imgs (map (\<lambda>img. \<lparr>cp_installed = im_installed img, cp_staged = im_staged img,
       cp_old = old_name (im_installed img) ver\<rparr>) ds) v =
     (case drive (win_swap F ver) (win_undo F ver) (enumerate 0 ds) (enumerate (length ds) imgs) v of
        (v', Some e) \<Rightarrow> (v', Err e)
      | (v', None) \<Rightarrow> (v', Ok (map (\<lambda>img. \<lparr>cp_installed = im_installed img, cp_staged = im_staged img,
            cp_old = old_name (im_installed img) ver\<rparr>) (ds @ imgs))))"
proof (induction imgs arbitrary: ds v)
  case (Cons img imgs)
  let ?o = "old_name (im_installed img) ver" and ?n = "length ds"
  obtain v1 r where 1: "fs_rename (sf_rename_away F ?n) (im_installed img) ?o v = (v1, r)" by force
  obtain v2 q where 2: "fs_rename (sf_move_in F ?n) (im_staged img) (im_installed img) v1 = (v2, q)" by force
  have e: "enumerate 0 ds @ [(?n, img)] = enumerate 0 (ds @ [img])"
    by (simp add: enumerate_append_eq)
  show ?case
    using Cons.IH [of "ds @ [img]" v2] 1 2
    by (cases r; cases q) (simp_all add: win_swap_def Let_def undo_all_drive e)
qed simp

lemma win_all_in_place:
  assumes "drive (win_swap F ver) (win_undo F ver) ds (enumerate n imgs) v = (v', None)"
    "distinct (concat (map (image_paths ver) imgs))"
  shows "(\<forall>img \<in> set imgs. v (im_staged img) \<noteq> None \<and> v' (im_installed img) = v (im_staged img) \<and>
      v' (im_staged img) = None) \<and> (\<forall>p. p \<notin> set (concat (map (image_paths ver) imgs)) \<longrightarrow> v' p = v p)"
  using assms
proof (induction imgs arbitrary: ds n v)
  case (Cons img imgs)
  obtain v1 r where sw: "win_swap F ver (n, img) v = (v1, r)" by force
  with Cons.prems(1) have "r = None"
    and d: "drive (win_swap F ver) (win_undo F ver) (ds @ [(n, img)]) (enumerate (Suc n) imgs) v1 = (v', None)"
    by (cases r; simp)+
  have dist: "distinct (image_paths ver img)" "distinct (concat (map (image_paths ver) imgs))"
    "set (image_paths ver img) \<inter> set (concat (map (image_paths ver) imgs)) = {}" using Cons.prems(2) by auto
  from win_swap_None [OF dist(1)] sw \<open>r = None\<close> obtain a b where
    v: "v (im_installed img) = Some a" "v (im_staged img) = Some b"
    "v1 = v(old_name (im_installed img) ver \<mapsto> a, im_installed img \<mapsto> b, im_staged img := None)" by metis
  from Cons.IH [OF d dist(2)] have later: "\<forall>x \<in> set imgs. v1 (im_staged x) \<noteq> None \<and> v' (im_installed x) = v1 (im_staged x) \<and>
      v' (im_staged x) = None" and rest: "\<And>p. p \<notin> set (concat (map (image_paths ver) imgs)) \<Longrightarrow> v' p = v1 p" by auto
  have keep: "v1 p = v p" if "p \<notin> set (image_paths ver img)" for p
    using that v by (simp add: image_paths_def)
  have own: "v' p = v1 p" if "p \<in> set (image_paths ver img)" for p
    using dist(3) that by (intro rest) blast
  have "v' (im_installed img) = v1 (im_installed img)" "v' (im_staged img) = v1 (im_staged img)"
    by (rule own; simp add: image_paths_def)+
  then have "v' (im_installed img) = v (im_staged img)" "v' (im_staged img) = None"
    using v dist(1) by (simp_all add: image_paths_def)
  moreover have "v1 (im_staged x) = v (im_staged x)" if "x \<in> set imgs" for x
    using dist(3) that by (intro keep) (auto simp: image_paths_def)
  moreover have "v' p = v p" if "p \<notin> set (concat (map (image_paths ver) (img # imgs)))" for p
    using that rest [of p] keep [of p] by simp
  ultimately show ?case using later v(2) by simp
qed simp

lemma images_apart:
  "distinct (concat (map (image_paths ver) imgs)) \<Longrightarrow> sorted_wrt (win_apart ver) (enumerate n imgs)"
proof (induction imgs arbitrary: n)
  case (Cons img imgs)
  have "win_apart ver (n, img) x" if "x \<in> set (enumerate (Suc n) imgs)" for x
  proof -
    from that have "snd x \<in> set imgs" using nth_mem [of "fst x - Suc n" imgs] by (auto simp: in_set_enumerate_eq)
    then have "set (image_paths ver (snd x)) \<subseteq> set (concat (map (image_paths ver) imgs))" by auto
    with Cons.prems show ?thesis by (auto simp: win_apart_def)
  qed
  with Cons show ?case by simp
qed simp

lemma images_distinct:
  "distinct (concat (map (image_paths ver) imgs)) \<Longrightarrow> x \<in> set imgs \<Longrightarrow> distinct (image_paths ver x)"
  by (induction imgs) auto

lemma old_names_apart:
  assumes "distinct (concat (map (image_paths ver) imgs))" "x \<in> set imgs"
  shows "im_installed x \<notin> (\<lambda>img. old_name (im_installed img) ver) ` set imgs"
    and "im_staged x \<notin> (\<lambda>img. old_name (im_installed img) ver) ` set imgs"
proof -
  have "set (image_paths ver a) \<inter> set (image_paths ver b) = {}" if "a \<in> set imgs" "b \<in> set imgs" "a \<noteq> b" for a b
    using assms(1) that
  proof (induction imgs)
    case (Cons c imgs)
    then show ?case by (cases "a = c"; cases "b = c") fastforce+
  qed simp
  moreover have "distinct (image_paths ver x)" by (rule images_distinct [OF assms])
  ultimately show "im_installed x \<notin> (\<lambda>img. old_name (im_installed img) ver) ` set imgs"
    "im_staged x \<notin> (\<lambda>img. old_name (im_installed img) ver) ` set imgs"
    using assms(2) by (fastforce simp: image_paths_def)+
qed

lemma remove_olds:
  "p \<notin> cp_old ` set cs \<Longrightarrow> foldl (\<lambda>v (index, c). remove_old F index (cp_old c) v) v (enumerate n cs) p = v p"
  by (induction cs arbitrary: n v) (auto simp: remove_old_def)

section \<open>macOS\<close>

definition reswap_works :: "mac_faults \<Rightarrow> bool" where
  "reswap_works F \<longleftrightarrow> (\<forall>n. mf_reswap F n = None)"

lemma rename_swap_back:
  assumes "rename_swap f p q v = (v', None)"
  shows "rename_swap None q p v' = (v, None)"
proof -
  from assms obtain a b where "v p = Some a" "v q = Some b" and v': "v' = v(q \<mapsto> a, p \<mapsto> b)"
    by (auto simp: rename_swap_def split: option.splits)
  moreover from this have "v(q \<mapsto> a, p \<mapsto> b, p \<mapsto> a, q \<mapsto> b) = v" by (intro ext) auto
  ultimately show ?thesis by (cases "p = q") (simp_all add: rename_swap_def fun_upd_idem)
qed

lemma rename_swap_Some: "rename_swap f p q v = (v', Some e) \<Longrightarrow> v' = v"
  by (auto simp: rename_swap_def split: option.splits)

interpretation mac_swaps: reversible_swaps "\<lambda>(n, img). swap_one F img n" "\<lambda>(n, img). reswap F img n"
  "\<lambda>_ _. reswap_works F" "\<lambda>_ _. True" "\<lambda>(n, img). is_primitive img = RenameSwap"
proof unfold_locales
  fix x :: "nat \<times> image_swap" and v v' and e :: io_kind
  assume "(case x of (n, img) \<Rightarrow> swap_one F img n) v = (v', Some e)"
  then show "v' = v"
    by (auto simp: swap_one_def split: prod.splits sum.splits if_splits swap_primitive.splits
        dest: rename_Some rename_swap_Some)
next
  fix x :: "nat \<times> image_swap" and v v'
  assume "case x of (n, img) \<Rightarrow> is_primitive img = RenameSwap" "reswap_works F"
    "(case x of (n, img) \<Rightarrow> swap_one F img n) v = (v', None :: io_kind option)"
  moreover obtain n img where x: "x = (n, img)" by force
  ultimately have "is_primitive img = RenameSwap" "mf_reswap F n = None"
    "rename_swap (mf_swap F n) (is_staging img) (is_dest img) v = (v', None)"
    by (auto simp: swap_one_def reswap_works_def split: sum.splits if_splits)
  with rename_swap_back [OF this(3)] show "(case x of (n, img) \<Rightarrow> reswap F img n) v' = v"
    by (simp add: x reswap_def)
qed

lemma execute_plan_drive:
  assumes "is_primitive (sp_app plan) = RenameSwap"
  shows "execute_plan F plan v =
    Some (case drive (\<lambda>(n, img). swap_one F img n) (\<lambda>(n, img). reswap F img n) [] [(0, sp_app plan), (1, sp_helper plan)] v of
      (v1, Some e) \<Rightarrow> (v1, Some e)
    | (v1, None) \<Rightarrow>
        (let v2 = (if is_delete_swapped_out (sp_app plan) then delete_staging F (sp_app plan) 0 v1 else v1)
         in (if is_delete_swapped_out (sp_helper plan) then delete_staging F (sp_helper plan) 1 v2 else v2, None)))"
  using assms by (auto simp: execute_plan_def Let_def upt_rec split: prod.splits option.splits)

section \<open>Properties\<close>

text \<open>
  C11. The Windows image swap is all or nothing. Over any set of images whose paths are apart, with
  nothing left at their old names, and whichever rename fails first: when the driver answers an error
  every path of the volume, staged images included, holds what it held before (provided the renames of
  the rollback itself go through), and when it answers success every installed path holds the bytes
  that were staged for it and nothing else changed.
\<close>

theorem windows_swap_all_or_nothing:
  assumes "rollback_works F" "distinct (concat (map (image_paths ver) images))"
    "\<forall>img \<in> set images. v (old_name (im_installed img) ver) = None"
    "execute_image_swaps F ver images v = (v', r)"
  shows "(case r of
      Some e \<Rightarrow> v' = v
    | None \<Rightarrow> (\<forall>img \<in> set images. v (im_staged img) \<noteq> None \<and> v' (im_installed img) = v (im_staged img) \<and>
        v' (im_staged img) = None) \<and>
        (\<forall>p. p \<notin> set (concat (map (image_paths ver) images)) \<longrightarrow> v' p = v p))"
proof -
  let ?c = "\<lambda>img. \<lparr>cp_installed = im_installed img, cp_staged = im_staged img, cp_old = old_name (im_installed img) ver\<rparr>"
  obtain v1 q where d: "drive (win_swap F ver) (win_undo F ver) [] (enumerate 0 images) v = (v1, q)" by force
  with swap_images_drive [of F ver "[]" images v]
  have sw: "swap_images_from F ver 0 images [] v = (case q of Some e \<Rightarrow> (v1, Err e) | None \<Rightarrow> (v1, Ok (map ?c images)))"
    by (cases q) simp_all
  show ?thesis
  proof (cases q)
    case (Some e)
    have "list_all (\<lambda>x. win_ready F ver x v) (enumerate 0 images)"
      using assms(1,3) images_distinct [OF assms(2)] by (auto simp: list_all_iff win_ready_def in_set_enumerate_eq)
    with win_swaps.all_or_nothing [OF d [unfolded Some] this images_apart [OF assms(2)]] have "v1 = v" by (simp add: list_all_iff)
    with Some sw assms(4) show ?thesis by (auto simp: execute_image_swaps_def)
  next
    case None
    let ?v = "foldl (\<lambda>v (index, c). remove_old F index (cp_old c) v) v1 (enumerate 0 (map ?c images))"
    have v': "v' = ?v" "r = None" using None sw assms(4) by (simp_all add: execute_image_swaps_def)
    have keep: "?v p = v1 p" if "p \<notin> (\<lambda>img. old_name (im_installed img) ver) ` set images" for p
      using that by (intro remove_olds) (auto simp: image_image)
    have "v' (im_installed x) = v1 (im_installed x) \<and> v' (im_staged x) = v1 (im_staged x)" if "x \<in> set images" for x
      unfolding v'(1) using old_names_apart [OF assms(2) that] by (intro conjI keep) auto
    moreover have "v' p = v1 p" if "p \<notin> set (concat (map (image_paths ver) images))" for p
      unfolding v'(1) using that by (intro keep) (auto simp: image_paths_def)
    ultimately show ?thesis using win_all_in_place [OF d [unfolded None] assms(2)] v'(2) by simp
  qed
qed

theorem windows_swap_all_or_nothing_witness:
  "fst (execute_image_swaps \<lparr>sf_rename_away = \<lambda>_. None, sf_move_in = \<lambda>n. if n = 1 then Some Unsupported else None,
       sf_restore = \<lambda>_. None, sf_undo_new = \<lambda>_. None, sf_undo_old = \<lambda>_. None, sf_remove_old = \<lambda>_. False\<rparr> ''2''
     [\<lparr>im_installed = ''a'', im_staged = ''s/a''\<rparr>, \<lparr>im_installed = ''b'', im_staged = ''s/b''\<rparr>]
     [''a'' \<mapsto> ''1'', ''b'' \<mapsto> ''1'', ''s/a'' \<mapsto> ''2'', ''s/b'' \<mapsto> ''2'']) = [''a'' \<mapsto> ''1'', ''b'' \<mapsto> ''1'', ''s/a'' \<mapsto> ''2'', ''s/b'' \<mapsto> ''2'']"
  (is "fst (execute_image_swaps ?F ?ver ?imgs ?v) = ?v")
proof -
  obtain v' r where x: "execute_image_swaps ?F ?ver ?imgs ?v = (v', r)" by force
  have "rollback_works ?F" by (simp add: rollback_works_def)
  moreover have "distinct (concat (map (image_paths ?ver) ?imgs))" by (simp add: image_paths_def old_name_def)
  moreover have "\<forall>img \<in> set ?imgs. ?v (old_name (im_installed img) ?ver) = None" by (simp add: old_name_def)
  ultimately have "case r of Some e \<Rightarrow> v' = ?v | None \<Rightarrow> True"
    using windows_swap_all_or_nothing [of ?F ?ver ?imgs ?v v' r] x by (simp split: option.splits)
  moreover have "snd (execute_image_swaps ?F ?ver ?imgs ?v) \<noteq> None" by code_simp
  ultimately show ?thesis using x by (auto split: option.splits)
qed

text \<open>
  C20. The macOS image swap is all or nothing too, over the plan the code makes. The assertion that
  only the last image is swapped by a plain rename holds of that plan; when the swap of either image
  fails, the bundle and the helper, installed and staged, are what they were (provided the exchange
  back goes through); when both succeed the bundle and the helper are the staged ones, in lockstep,
  and no other path changed.
\<close>

theorem macos_swap_all_or_nothing:
  assumes "reswap_works F" "distinct [app_staging, app_dest, helper_staging, helper_dest]"
  shows "\<exists>v' r. execute_plan F (plan_swap app_staging app_dest helper_staging helper_dest) v = Some (v', r) \<and>
    (case r of
       Some e \<Rightarrow> v' = v
     | None \<Rightarrow> v app_staging \<noteq> None \<and> v' app_dest = v app_staging \<and> v helper_staging \<noteq> None \<and>
         v' helper_dest = v helper_staging \<and>
         (\<forall>p. p \<notin> {app_staging, app_dest, helper_staging, helper_dest} \<longrightarrow> v' p = v p))"
proof -
  let ?plan = "plan_swap app_staging app_dest helper_staging helper_dest"
  obtain v1 q where d: "drive (\<lambda>(n, img). swap_one F img n) (\<lambda>(n, img). reswap F img n) []
      [(0, sp_app ?plan), (1, sp_helper ?plan)] v = (v1, q)" by force
  have app: "is_primitive (sp_app ?plan) = RenameSwap" by (simp add: plan_swap_def)
  show ?thesis
  proof (cases q)
    case (Some e)
    have "v1 = v" by (rule mac_swaps.all_or_nothing [OF d [unfolded Some]]) (simp_all add: assms(1) app)
    with execute_plan_drive [OF app, of F v] d Some show ?thesis by simp
  next
    case None
    obtain w x where w: "swap_one F (sp_app ?plan) 0 v = (w, x)" by force
    with d None have "x = None" and h: "swap_one F (sp_helper ?plan) 1 w = (v1, None)"
      by (cases x; simp split: prod.splits option.splits)+
    with w have "rename_swap (mf_swap F 0) app_staging app_dest v = (w, None)"
      by (auto simp: swap_one_def plan_swap_def split: sum.splits if_splits)
    then obtain a b where a: "v app_staging = Some a" "v app_dest = Some b" "w = v(app_dest \<mapsto> a, app_staging \<mapsto> b)"
      by (auto simp: rename_swap_def split: option.splits)
    from h have "fs_rename (mf_swap F 1) helper_staging helper_dest w = (v1, None)"
      by (auto simp: swap_one_def plan_swap_def split: sum.splits if_splits)
    with assms(2) a obtain c where "v helper_staging = Some c" "v1 = w(helper_dest \<mapsto> c, helper_staging := None)"
      by (auto simp: rename_None)
    with a assms(2) execute_plan_drive [OF app, of F v] d None show ?thesis
      by (auto simp: plan_swap_def delete_staging_def)
  qed
qed

theorem macos_swap_all_or_nothing_witness:
  "map_option fst (execute_plan \<lparr>mf_dev = \<lambda>_. Ok 1, mf_swap = \<lambda>_. None, mf_reswap = \<lambda>_. None, mf_delete = \<lambda>_. False\<rparr>
     (plan_swap ''s'' ''a'' ''t'' ''h'') [''a'' \<mapsto> ''1'', ''s'' \<mapsto> ''2'', ''h'' \<mapsto> ''1'']) = Some [''a'' \<mapsto> ''1'', ''s'' \<mapsto> ''2'', ''h'' \<mapsto> ''1'']"
  (is "map_option fst (execute_plan ?F ?p ?v) = _")
proof -
  have "reswap_works ?F" by (simp add: reswap_works_def)
  moreover have "distinct [''s'', ''a'', ''t'', ''h'']" by simp
  ultimately show ?thesis
    using macos_swap_all_or_nothing [of ?F "''s''" "''a''" "''t''" "''h''" ?v] by (auto split: option.splits)
qed

text \<open>
  The order of a cutover. On Windows the images are swapped only after the service was held and its
  stop confirmed, the hold is put back on every path that took it, and the service is started only
  over a swap that succeeded; an outcome is reported only when the images are in place.
\<close>

theorem windows_cutover_order:
  assumes "run_cutover_windows os v = (tr, v', r)"
  shows "(SwapImages \<in> set tr \<longrightarrow> co_hold os = None \<and> co_stop os = None \<and> v' = fst (co_swap os v)) \<and>
    (SwapImages \<notin> set tr \<longrightarrow> v' = v) \<and>
    (co_hold os = None \<longleftrightarrow> RestoreHold \<in> set tr) \<and>
    (StartService \<in> set tr \<longrightarrow> snd (co_swap os v) = None \<and> RestoreHold \<in> set tr) \<and>
    (\<forall>x. r = Ok x \<longrightarrow> SwapImages \<in> set tr \<and> snd (co_swap os v) = None \<and> (x = CutoverStarted \<longleftrightarrow> StartService \<in> set tr))"
  using assms
  by (auto simp: run_cutover_windows_def Let_def split: option.splits sum.splits bool.splits prod.splits)

end
