(* ===== verification/Update_Apply.thy ===== *)
theory Update_Apply
  imports Proxy_Manager
begin

text \<open>
  Applying an update: the verification of a release payload (crates/common/src/verify.rs), the marker
  that claims a cutover (crates/common/src/update\_marker.rs), the destination check
  (crates/bridge/src/cutover/app\_dest.rs), the gate, the staging and the spawn of the actor
  (crates/bridge/src/cutover/apply.rs and extract.rs), and the request that sequences them
  (\<^verbatim>\<open>handle_update_apply\<close>, crates/bridge/src/ipc.rs).

  Requests are tasks as in \<open>Ipc\<close>: a task's constructor is the point its handler reached, and a step
  runs to the next point another request can see. The private staging directory is one fixed
  directory for all of them. The caller's payload file is read once, while it is copied; what it
  holds before and after is the caller's business and not part of the state.

  Parameters: minisign and SHA-256 (\<open>crypto\<close>), the serializers of the marker, process identities
  (numbers), the unpacking of an archive and the operating system's process calls. The detached
  actor runs beside the server; what it does to the images is modelled in \<open>Image_Swap\<close>, and here it
  may end by clearing the marker, as it does when it fails before the restart.
\<close>

section \<open>Verifying a payload (verify.rs)\<close>

record crypto =
  cr_minisign :: "bytes \<Rightarrow> bytes \<Rightarrow> bytes \<Rightarrow> bool"
  cr_sha256 :: "bytes \<Rightarrow> bytes"

text \<open>\<open>cr_minisign key data signature\<close>: the key, the signature text and the verification all succeed.\<close>

datatype verify_error =
    SignatureInvalid
  | HashMismatch bytes bytes
  | AssetNotInManifest bytes
  | VerifyIo io_kind

definition MINISIGN_PUBLIC_KEY :: bytes where
  "MINISIGN_PUBLIC_KEY = ''RWR/A9sHYSwUIYkFXgNc9NcHSP+aoWCHusziW4Kwl3vsbApsqy4Wte1Z''"

definition hex_digit :: "nat \<Rightarrow> char" where
  "hex_digit d = (if d < 10 then char_of (48 + d) else char_of (87 + d))"

definition hex_encode :: "bytes \<Rightarrow> bytes" where
  "hex_encode bs = concat (map (\<lambda>b. [hex_digit (of_char b div 16), hex_digit (of_char b mod 16)]) bs)"

definition is_ascii_hexdigit :: "char \<Rightarrow> bool" where
  "is_ascii_hexdigit c =
     (let n = of_char c :: nat in 48 \<le> n \<and> n \<le> 57 \<or> 65 \<le> n \<and> n \<le> 70 \<or> 97 \<le> n \<and> n \<le> 102)"

text \<open>The first two words of a line: \<^verbatim>\<open>split_whitespace\<close> asked twice.\<close>

definition first_two_words :: "bytes \<Rightarrow> (bytes \<times> bytes) option" where
  "first_two_words line =
     (case first_word line of
        None \<Rightarrow> None
      | Some a \<Rightarrow> map_option (Pair a) (first_word (drop (length a) (trim_start line))))"

fun find_hash_in_lines :: "bytes \<Rightarrow> bytes list \<Rightarrow> (verify_error, bytes) result" where
  "find_hash_in_lines asset_name [] = Err (AssetNotInManifest asset_name)"
| "find_hash_in_lines asset_name (line # rest) =
     (case first_two_words (trim_end_char (CHR 0x0D) line) of
        None \<Rightarrow> find_hash_in_lines asset_name rest
      | Some (hash, name) \<Rightarrow>
          if name = asset_name \<and> length hash = 64 \<and> list_all is_ascii_hexdigit hash then Ok hash
          else find_hash_in_lines asset_name rest)"

definition find_hash_in_sha256sums :: "bytes \<Rightarrow> bytes \<Rightarrow> (verify_error, bytes) result" where
  "find_hash_in_sha256sums content asset_name = find_hash_in_lines asset_name (lines content)"

definition verify_sha256_hash :: "crypto \<Rightarrow> (io_kind, bytes) result \<Rightarrow> bytes \<Rightarrow> (verify_error, unit) result" where
  "verify_sha256_hash K asset expected_hex =
     (case asset of
        Err k \<Rightarrow> Err (VerifyIo k)
      | Ok bs \<Rightarrow>
          (let actual_hex = hex_encode (cr_sha256 K bs)
           in if actual_hex \<noteq> to_ascii_lowercase expected_hex then Err (HashMismatch expected_hex actual_hex) else Ok ()))"

definition verify_payload_offline_with_key :: "crypto \<Rightarrow> (io_kind, bytes) result \<Rightarrow> bytes \<Rightarrow> bytes \<Rightarrow> bytes \<Rightarrow> bytes \<Rightarrow>
    (verify_error, unit) result" where
  "verify_payload_offline_with_key K payload asset_name sha256sums minisig public_key =
     (if \<not> cr_minisign K public_key sha256sums minisig then Err SignatureInvalid
      else case find_hash_in_sha256sums sha256sums asset_name of
             Err e \<Rightarrow> Err e
           | Ok expected \<Rightarrow> verify_sha256_hash K payload expected)"

definition verify_payload_offline :: "crypto \<Rightarrow> (io_kind, bytes) result \<Rightarrow> bytes \<Rightarrow> bytes \<Rightarrow> bytes \<Rightarrow>
    (verify_error, unit) result" where
  "verify_payload_offline K payload asset_name sha256sums minisig =
     verify_payload_offline_with_key K payload asset_name sha256sums minisig MINISIGN_PUBLIC_KEY"

section \<open>The marker (update\_marker.rs)\<close>

type_synonym process_id = nat

record marker_info =
  mi_driver :: process_id

definition MARKER_FILE :: string where
  "MARKER_FILE = ''update-in-progress.json''"

definition marker_file :: "marker_info codec \<Rightarrow> marker_info schema" where
  "marker_file C =
     \<lparr>FILE_NAME = MARKER_FILE, ROLE = Claim, VERSION = 3, UNVERSIONED_AS = None, sc_json = cd_json C,
      sc_from_slice = cd_from_slice C, sc_to_vec = cd_to_vec C, sc_prev = obsolete_chain 2\<rparr>"

datatype marker = MarkerAbsent | MarkerUnreadable | MarkerIndeterminate | MarkerPresent marker_info

fun marker_of :: "marker_info loaded \<Rightarrow> marker" where
  "marker_of Absent = MarkerAbsent"
| "marker_of (Current value _) = MarkerPresent value"
| "marker_of (Obsolete _ _) = MarkerUnreadable"
| "marker_of (Newer _ _) = MarkerUnreadable"
| "marker_of (Corrupt _ _) = MarkerUnreadable"
| "marker_of (Unreadable _ AtDirectory) = MarkerIndeterminate"
| "marker_of (Unreadable _ NotAFile) = MarkerIndeterminate"
| "marker_of (Unreadable _ AtFile) = MarkerUnreadable"
| "marker_of (Unreadable _ Unprobed) = MarkerIndeterminate"

text \<open>The observation cannot panic (the schema is linked), so the last case is never used.\<close>

definition marker_read :: "marker_info codec \<Rightarrow> fs_env \<Rightarrow> world \<Rightarrow> marker" where
  "marker_read C F w =
     (case observe (marker_file C) F w of Some ob \<Rightarrow> marker_of (obs_loaded ob) | None \<Rightarrow> MarkerIndeterminate)"

definition marker_is_present :: "marker_info codec \<Rightarrow> fs_env \<Rightarrow> world \<Rightarrow> bool" where
  "marker_is_present C F w =
     (case marker_read C F w of MarkerUnreadable \<Rightarrow> True | MarkerPresent _ \<Rightarrow> True | _ \<Rightarrow> False)"

definition marker_claim :: "marker_info codec \<Rightarrow> fs_env \<Rightarrow> marker_info \<Rightarrow> world \<Rightarrow>
    world \<times> (store_error, create_outcome) result option" where
  "marker_claim C F info w = create_new (marker_file C) F info w"

definition marker_clear :: "marker_info codec \<Rightarrow> fs_env \<Rightarrow> world \<Rightarrow> world \<times> bool" where
  "marker_clear C F w =
     (case vf_update (marker_file C) F (\<lambda>_. (Remove, ())) w of
        (w', UOk _ Removed) \<Rightarrow> (w', True)
      | (w', UOk _ NothingThere) \<Rightarrow> (w', True)
      | (w', _) \<Rightarrow> (w', False))"

definition stamp_change :: "process_id \<Rightarrow> marker_info observed \<Rightarrow> marker_info change \<times> unit" where
  "stamp_change driver observed =
     (case obs_loaded observed of Current _ _ \<Rightarrow> (Store \<lparr>mi_driver = driver\<rparr>, ()) | _ \<Rightarrow> (Keep, ()))"

definition stamp_driver :: "marker_info codec \<Rightarrow> fs_env \<Rightarrow> process_id \<Rightarrow> world \<Rightarrow> world \<times> bool" where
  "stamp_driver C F driver w =
     (case vf_update (marker_file C) F (stamp_change driver) w of
        (w', UOk _ Stored) \<Rightarrow> (w', True)
      | (w', _) \<Rightarrow> (w', False))"

section \<open>The destination (app\_dest.rs)\<close>

text \<open>
  The components of a path and its extension, as \<^verbatim>\<open>std::path\<close> has them on unix: empty components
  and single dots are skipped.
\<close>

fun split_slash :: "bytes \<Rightarrow> bytes \<Rightarrow> bytes list" where
  "split_slash acc [] = [rev acc]"
| "split_slash acc (c # cs) = (if c = CHR ''/'' then rev acc # split_slash [] cs else split_slash (c # acc) cs)"

definition path_components :: "bytes \<Rightarrow> bytes list" where
  "path_components p = filter (\<lambda>c. c \<noteq> [] \<and> c \<noteq> ''.'') (split_slash [] p)"

definition is_absolute :: "bytes \<Rightarrow> bool" where
  "is_absolute p = starts_with p ''/''"

definition path_starts_with :: "bytes \<Rightarrow> bytes \<Rightarrow> bool" where
  "path_starts_with p base \<longleftrightarrow> is_absolute p = is_absolute base \<and>
     take (length (path_components base)) (path_components p) = path_components base"

definition path_extension :: "bytes \<Rightarrow> bytes option" where
  "path_extension p =
     (case rev (path_components p) of
        [] \<Rightarrow> None
      | file # _ \<Rightarrow>
          if file = ''..'' then None
          else (let ext = rev (takeWhile (\<lambda>c. c \<noteq> CHR ''.'') (rev file));
                    stem = take (length file - Suc (length ext)) file
                in if CHR ''.'' \<in> set file \<and> stem \<noteq> [] then Some ext else None))"

definition HOLE_BUNDLE_ID :: bytes where
  "HOLE_BUNDLE_ID = ''com.hole.app''"

definition TRANSLOCATION_PREFIX :: bytes where
  "TRANSLOCATION_PREFIX = ''/private/var/folders/''"

datatype dest_error = Translocated | NotAnApp | DestMissing | PlistUnreadable | NoBundleId | ForeignBundle bytes
  | NoDest | NoSwapSupport

text \<open>\<open>plist dest\<close> is the parsed property list's identifier: unreadable, without one, or the string.\<close>

datatype bundle_id = PlistFailed | PlistWithoutId | PlistId bytes

definition validate_app_dest :: "(bytes \<Rightarrow> bool) \<Rightarrow> (bytes \<Rightarrow> bundle_id) \<Rightarrow> bytes \<Rightarrow> dest_error option" where
  "validate_app_dest exists plist dest =
     (if path_starts_with dest TRANSLOCATION_PREFIX then Some Translocated
      else if path_extension dest \<noteq> Some ''app'' then Some NotAnApp
      else if \<not> exists dest then Some DestMissing
      else case plist dest of
             PlistFailed \<Rightarrow> Some PlistUnreadable
           | PlistWithoutId \<Rightarrow> Some NoBundleId
           | PlistId i \<Rightarrow> if i \<noteq> HOLE_BUNDLE_ID then Some (ForeignBundle i) else None)"

section \<open>State and environment\<close>

record update_request =
  ur_file_name :: "bytes option"
  ur_asset_name :: bytes
  ur_sha256sums :: bytes
  ur_minisig :: bytes
  ur_consent :: bool
  ur_app_dest :: "bytes option"

datatype update_event =
    Staged update_request bytes
  | Extracted update_request bool bytes
  | ChildResumed process_id
  | ChildKilled process_id
  | ActorStarted update_request

datatype update_task =
    UpdateArrived update_request
  | UpdateConsent update_request
  | UpdatePreflight update_request bool
  | UpdateClaim update_request bool "bytes option"
  | UpdateStage update_request bool "bytes option"
  | UpdateVerify update_request bool "bytes option" bytes
  | UpdateExtract update_request bool "bytes option" bytes
  | UpdateSpawn update_request bool "bytes option"
  | UpdateClear nat bool
  | UpdateRemove nat
  | UpdateDone nat

text \<open>\<open>up_private\<close> is the staging directory: absent, or the files in it by name.\<close>

record update_state =
  up_pm :: pm
  up_log :: world
  up_private :: "(bytes \<times> bytes) list option"
  up_actors :: nat
  up_events :: "update_event list"
  up_tasks :: "nat \<Rightarrow> update_task option"

record update_env =
  ue_macos :: bool
  ue_pm :: pm_env
  ue_log_fs :: fs_env
  ue_exists :: "bytes \<Rightarrow> bool"
  ue_plist :: "bytes \<Rightarrow> bundle_id"
  ue_volume_swaps :: "bool option"
  ue_driver :: "process_id option"
  ue_private_dir :: bool
  ue_remove_dir :: "io_kind option"
  ue_create_dir :: "io_kind option"
  ue_source :: "(io_kind, bytes) result"
  ue_copy_fault :: "(io_kind \<times> bytes) option"
  ue_read_fault :: "io_kind option"
  ue_unpack :: "bytes \<Rightarrow> io_kind option"
  ue_spawn :: "(io_kind, process_id) result"
  ue_resolves :: bool
  ue_resume :: "io_kind option"

section \<open>The helpers of the request (apply.rs, extract.rs)\<close>

definition consent_gate :: "bool \<Rightarrow> bool \<Rightarrow> bool" where
  "consent_gate lockdown_on consent = (\<not> (\<not> lockdown_on \<and> \<not> consent))"

definition cutover_in_progress :: "marker_info codec \<Rightarrow> update_env \<Rightarrow> world \<Rightarrow> bool" where
  "cutover_in_progress C E w = marker_is_present C (ue_log_fs E) w"

text \<open>\<open>ue_volume_swaps\<close>: the volume's capability, \<open>None\<close> when the probe failed.\<close>

definition preflight_app_dest :: "update_env \<Rightarrow> bytes option \<Rightarrow> (dest_error, bytes) result" where
  "preflight_app_dest E app_dest =
     (case app_dest of
        None \<Rightarrow> Err NoDest
      | Some dest \<Rightarrow>
          (case validate_app_dest (ue_exists E) (ue_plist E) dest of
             Some e \<Rightarrow> Err e
           | None \<Rightarrow> if ue_volume_swaps E = Some False then Err NoSwapSupport else Ok dest))"

text \<open>
  \<^verbatim>\<open>stage_payload\<close>: a leftover directory is cleared first; the copy may break off, leaving a part.
\<close>

definition stage_payload :: "update_env \<Rightarrow> bytes option \<Rightarrow> (bytes \<times> bytes) list option \<Rightarrow>
    (bytes \<times> bytes) list option \<times> (io_kind, bytes \<times> bytes) result" where
  "stage_payload E file_name private =
     (case (if private \<noteq> None then ue_remove_dir E else None) of
        Some k \<Rightarrow> (private, Err k)
      | None \<Rightarrow>
          (case ue_create_dir E of
             Some k \<Rightarrow> (None, Err k)
           | None \<Rightarrow>
               (case file_name of
                  None \<Rightarrow> (Some [], Err (OtherKind 22))
                | Some name \<Rightarrow>
                    (case ue_source E of
                       Err k \<Rightarrow> (Some [], Err k)
                     | Ok bs \<Rightarrow>
                         (case ue_copy_fault E of
                            Some (k, part) \<Rightarrow> (Some [(name, part)], Err k)
                          | None \<Rightarrow> (Some [(name, bs)], Ok (name, bs)))))))"

text \<open>Reading the copy back, for the verification and again for the extraction.\<close>

definition read_copy :: "update_env \<Rightarrow> (bytes \<times> bytes) list option \<Rightarrow> bytes \<Rightarrow> (io_kind, bytes) result" where
  "read_copy E private name =
     (case ue_read_fault E of
        Some k \<Rightarrow> Err k
      | None \<Rightarrow>
          (case private of
             None \<Rightarrow> Err NotFound
           | Some files \<Rightarrow> (case map_of files name of None \<Rightarrow> Err NotFound | Some bs \<Rightarrow> Ok bs)))"

definition reverify :: "crypto \<Rightarrow> (io_kind, bytes) result \<Rightarrow> update_request \<Rightarrow> (verify_error, unit) result" where
  "reverify K payload rq = verify_payload_offline K payload (ur_asset_name rq) (ur_sha256sums rq) (ur_minisig rq)"

text \<open>
  \<^verbatim>\<open>spawn_actor\<close> on Windows: a suspended child is stamped into the marker before it is resumed, and
  killed when either fails; on macOS a detached task. The new log directory, the events and whether
  an actor runs.
\<close>

definition spawn_windows :: "marker_info codec \<Rightarrow> update_env \<Rightarrow> world \<Rightarrow> world \<times> update_event list \<times> bool" where
  "spawn_windows C E w =
     (case ue_spawn E of
        Err _ \<Rightarrow> (w, [], False)
      | Ok child \<Rightarrow>
          (let (w1, recorded) = (if ue_resolves E then stamp_driver C (ue_log_fs E) child w else (w, False))
           in if recorded \<and> ue_resume E = None then (w1, [ChildResumed child], True)
              else (w1, [ChildKilled child], False)))"

definition spawn_actor :: "marker_info codec \<Rightarrow> update_env \<Rightarrow> bytes option \<Rightarrow> world \<Rightarrow>
    world \<times> update_event list \<times> bool" where
  "spawn_actor C E app_dest w =
     (if ue_macos E then (w, [], app_dest \<noteq> None) else spawn_windows C E w)"

section \<open>The request (\<open>handle_update_apply\<close>)\<close>

definition up_goto :: "nat \<Rightarrow> update_task \<Rightarrow> update_state \<Rightarrow> update_state" where
  "up_goto i t s = s\<lparr>up_tasks := (up_tasks s)(i \<mapsto> t)\<rparr>"

fun update_step :: "crypto \<Rightarrow> marker_info codec \<Rightarrow> update_env \<Rightarrow> nat \<Rightarrow> update_task \<Rightarrow> update_state \<Rightarrow> update_state" where
  "update_step K C E i (UpdateArrived rq) s =
     up_goto i (if cutover_in_progress C E (up_log s) then UpdateDone 409 else UpdateConsent rq) s"
| "update_step K C E i (UpdateConsent rq) s =
     (let lockdown_on = standing_cover_expected (ue_pm E) (up_pm s)
      in up_goto i (if consent_gate lockdown_on (ur_consent rq) then UpdatePreflight rq lockdown_on else UpdateDone 403) s)"
| "update_step K C E i (UpdatePreflight rq lockdown_on) s =
     (if ue_macos E
      then (case preflight_app_dest E (ur_app_dest rq) of
              Err _ \<Rightarrow> up_goto i (UpdateDone 400) s
            | Ok dest \<Rightarrow> up_goto i (UpdateClaim rq lockdown_on (Some dest)) s)
      else up_goto i (UpdateClaim rq lockdown_on None) s)"
| "update_step K C E i (UpdateClaim rq lockdown_on dest) s =
     (case ue_driver E of
        None \<Rightarrow> up_goto i (UpdateDone 500) s
      | Some driver \<Rightarrow>
          (case marker_claim C (ue_log_fs E) \<lparr>mi_driver = driver\<rparr> (up_log s) of
             (w, Some (Ok Created)) \<Rightarrow> up_goto i (UpdateStage rq lockdown_on dest) (s\<lparr>up_log := w\<rparr>)
           | (w, Some (Ok Taken)) \<Rightarrow> up_goto i (UpdateDone 409) (s\<lparr>up_log := w\<rparr>)
           | (w, _) \<Rightarrow> up_goto i (UpdateDone 500) (s\<lparr>up_log := w\<rparr>)))"
| "update_step K C E i (UpdateStage rq lockdown_on dest) s =
     (if \<not> ue_private_dir E then up_goto i (UpdateClear 500 False) s
      else case stage_payload E (ur_file_name rq) (up_private s) of
             (p, Err _) \<Rightarrow> up_goto i (UpdateClear 500 True) (s\<lparr>up_private := p\<rparr>)
           | (p, Ok (name, bs)) \<Rightarrow>
               up_goto i (UpdateVerify rq lockdown_on dest name)
                 (s\<lparr>up_private := p, up_events := up_events s @ [Staged rq bs]\<rparr>))"
| "update_step K C E i (UpdateVerify rq lockdown_on dest name) s =
     (case reverify K (read_copy E (up_private s) name) rq of
        Err _ \<Rightarrow> up_goto i (UpdateClear 422 True) s
      | Ok _ \<Rightarrow> up_goto i (UpdateExtract rq lockdown_on dest name) s)"
| "update_step K C E i (UpdateExtract rq lockdown_on dest name) s =
     (case read_copy E (up_private s) name of
        Err _ \<Rightarrow> up_goto i (UpdateClear 500 True) s
      | Ok bs \<Rightarrow>
          (case ue_unpack E bs of
             Some _ \<Rightarrow> up_goto i (UpdateClear 500 True) s
           | None \<Rightarrow> up_goto i (UpdateSpawn rq lockdown_on dest) (s\<lparr>up_events := up_events s @ [Extracted rq lockdown_on bs]\<rparr>)))"
| "update_step K C E i (UpdateSpawn rq lockdown_on dest) s =
     (case spawn_actor C E dest (up_log s) of
        (w, evs, False) \<Rightarrow> up_goto i (UpdateClear 500 True) (s\<lparr>up_log := w, up_events := up_events s @ evs\<rparr>)
      | (w, evs, True) \<Rightarrow>
          up_goto i (UpdateRemove 200)
            (s\<lparr>up_log := w, up_actors := Suc (up_actors s), up_events := up_events s @ evs @ [ActorStarted rq]\<rparr>))"
| "update_step K C E i (UpdateClear code remove_dir) s =
     (case marker_clear C (ue_log_fs E) (up_log s) of
        (w, _) \<Rightarrow> up_goto i (if remove_dir then UpdateRemove code else UpdateDone code) (s\<lparr>up_log := w\<rparr>))"
| "update_step K C E i (UpdateRemove code) s =
     up_goto i (UpdateDone code) (if ue_remove_dir E = None then s\<lparr>up_private := None\<rparr> else s)"
| "update_step K C E i (UpdateDone code) s = s"

text \<open>A detached actor that ends without the restart clears the marker.\<close>

definition actor_fails :: "marker_info codec \<Rightarrow> update_env \<Rightarrow> update_state \<Rightarrow> update_state" where
  "actor_fails C E s = s\<lparr>up_log := fst (marker_clear C (ue_log_fs E) (up_log s)), up_actors := up_actors s - 1\<rparr>"

inductive update_trans :: "crypto \<Rightarrow> marker_info codec \<Rightarrow> update_state \<Rightarrow> update_state \<Rightarrow> bool" for K C where
  requested: "up_tasks s i = None \<Longrightarrow> update_trans K C s (up_goto i (UpdateArrived rq) s)"
| handled: "up_tasks s i = Some t \<Longrightarrow> update_trans K C s (update_step K C E i t s)"
| actor_ended: "0 < up_actors s \<Longrightarrow> update_trans K C s (actor_fails C E s)"

definition update_bound :: "pm \<Rightarrow> world \<Rightarrow> (bytes \<times> bytes) list option \<Rightarrow> update_state" where
  "update_bound proxy log private =
     \<lparr>up_pm = proxy, up_log = log, up_private = private, up_actors = 0, up_events = [], up_tasks = Map.empty\<rparr>"

inductive update_reachable :: "crypto \<Rightarrow> marker_info codec \<Rightarrow> update_state \<Rightarrow> bool" for K C where
  up_bound: "update_reachable K C (update_bound proxy log private)"
| up_stepped: "update_reachable K C s \<Longrightarrow> update_trans K C s s' \<Longrightarrow> update_reachable K C s'"

end
