(* ===== verification/Update_Safety.thy ===== *)
theory Update_Safety
  imports Update_Apply Proxy_Safety
begin

text \<open>
  What the update requests of \<open>Update_Apply\<close> guarantee over every interleaving: the marker admits one
  request at a time to the shared staging directory, and nothing is installed but bytes that were
  verified against the embedded key, with the consent the gate asks for.
\<close>

section \<open>The marker as a claim\<close>

definition claimed :: "world \<Rightarrow> bool" where
  "claimed w \<longleftrightarrow> file_at w MARKER_FILE \<noteq> None"

lemma marker_file_sel [simp]: "FILE_NAME (marker_file C) = MARKER_FILE" "ROLE (marker_file C) = Claim"
  by (simp_all add: marker_file_def)

lemma marker_file_linked [simp]: "schema_linked (marker_file C)"
  by (simp add: schema_linked_def marker_file_def obsolete_chain_def total_chain_def)

lemma load_node_Absent: "load_node S nd = Some Absent \<longleftrightarrow> nd = None"
  by (auto simp: load_node_def from_read_def split: option.splits node.splits sum.splits decoded.splits)

lemma claimed_read: "claimed w \<longleftrightarrow> clean_read (marker_file C) w \<noteq> Some Absent"
  using load_node_Absent [of "marker_file C"] by (simp add: claimed_def clean_read_node)

lemma claim_result:
  assumes "marker_claim C F info w = (w', r)"
  shows "(claimed w \<longrightarrow> claimed w') \<and> (r = Some (Ok Created) \<longrightarrow> \<not> claimed w \<and> claimed w')"
  using create_new_never_replaces [OF assms [unfolded marker_claim_def]] by (auto simp: claimed_def)

lemma stamp_keeps_claim:
  assumes "stamp_driver C F d w = (w', b)" "claimed w"
  shows "claimed w'"
proof -
  obtain r where u: "vf_update (marker_file C) F (stamp_change d) w = (w', r)"
    using assms(1) by (auto simp: stamp_driver_def split: prod.splits update_result.splits update_outcome.splits)
  have "snd (vf_update (marker_file C) F (stamp_change d) w) \<noteq> UPanic" by (rule update_no_panic) simp
  with u have "r \<noteq> UPanic" by simp
  moreover have "fst (stamp_change d ob) = Keep \<or> (\<exists>v. fst (stamp_change d ob) = Store v)" for ob
    by (simp add: stamp_change_def split: loaded.splits)
  ultimately have "clean_read (marker_file C) w' = clean_read (marker_file C) w \<or>
      (\<exists>s n. clean_read (marker_file C) w' = Some (Current s n))"
    using vf.old_or_new [OF u] by blast
  with assms(2) show ?thesis by (auto simp: claimed_read [of _ C])
qed

lemma spawn_keeps_claim: "spawn_actor C E dest w = (w', evs, b) \<Longrightarrow> claimed w \<Longrightarrow> claimed w'"
  by (auto simp: spawn_actor_def spawn_windows_def Let_def split: if_splits sum.splits prod.splits
      dest: stamp_keeps_claim)

section \<open>The invariant\<close>

fun in_section :: "update_task \<Rightarrow> bool" where
  "in_section (UpdateStage _ _ _) = True"
| "in_section (UpdateVerify _ _ _ _) = True"
| "in_section (UpdateExtract _ _ _ _) = True"
| "in_section (UpdateSpawn _ _ _) = True"
| "in_section (UpdateClear _ _) = True"
| "in_section _ = False"

fun gated :: "update_task \<Rightarrow> bool" where
  "gated (UpdatePreflight rq l) = (l \<or> ur_consent rq)"
| "gated (UpdateClaim rq l _) = (l \<or> ur_consent rq)"
| "gated (UpdateStage rq l _) = (l \<or> ur_consent rq)"
| "gated (UpdateVerify rq l _ _) = (l \<or> ur_consent rq)"
| "gated (UpdateExtract rq l _ _) = (l \<or> ur_consent rq)"
| "gated (UpdateSpawn rq l _) = (l \<or> ur_consent rq)"
| "gated _ = True"

text \<open>What the staging directory holds for the request in it: its copy alone, or nothing at all.\<close>

fun copy_ok :: "crypto \<Rightarrow> (bytes \<times> bytes) list option \<Rightarrow> update_task \<Rightarrow> bool" where
  "copy_ok K private (UpdateVerify rq _ _ name) = (private = None \<or> (\<exists>bs. private = Some [(name, bs)]))"
| "copy_ok K private (UpdateExtract rq _ _ name) =
     (private = None \<or> (\<exists>bs. private = Some [(name, bs)] \<and> reverify K (Ok bs) rq = Ok ()))"
| "copy_ok K private _ = True"

fun event_ok :: "crypto \<Rightarrow> update_event \<Rightarrow> bool" where
  "event_ok K (Extracted rq l bs) = (reverify K (Ok bs) rq = Ok () \<and> (l \<or> ur_consent rq))"
| "event_ok K _ = True"

fun extracted_for :: "update_event list \<Rightarrow> update_task \<Rightarrow> bool" where
  "extracted_for evs (UpdateSpawn rq l _) = (\<exists>bs. Extracted rq l bs \<in> set evs)"
| "extracted_for evs _ = True"

definition started_ok :: "update_event list \<Rightarrow> bool" where
  "started_ok evs \<longleftrightarrow> (\<forall>rq. ActorStarted rq \<in> set evs \<longrightarrow> (\<exists>l bs. Extracted rq l bs \<in> set evs))"

definition exclusive :: "update_state \<Rightarrow> bool" where
  "exclusive s \<longleftrightarrow>
     (\<forall>i t k u. up_tasks s i = Some t \<longrightarrow> in_section t \<longrightarrow> up_tasks s k = Some u \<longrightarrow> in_section u \<longrightarrow> i = k) \<and>
     up_actors s \<le> 1 \<and>
     (\<forall>i t. up_tasks s i = Some t \<longrightarrow> in_section t \<longrightarrow> up_actors s = 0 \<and> claimed (up_log s)) \<and>
     (0 < up_actors s \<longrightarrow> claimed (up_log s))"

definition update_inv :: "crypto \<Rightarrow> update_state \<Rightarrow> bool" where
  "update_inv K s \<longleftrightarrow> exclusive s \<and> started_ok (up_events s) \<and> list_all (event_ok K) (up_events s) \<and>
     (\<forall>i t. up_tasks s i = Some t \<longrightarrow> gated t \<and> copy_ok K (up_private s) t \<and> extracted_for (up_events s) t)"

lemma up_goto_sel [simp]:
  "up_tasks (up_goto i t s) = (up_tasks s)(i \<mapsto> t)" "up_log (up_goto i t s) = up_log s"
  "up_private (up_goto i t s) = up_private s" "up_actors (up_goto i t s) = up_actors s"
  "up_events (up_goto i t s) = up_events s" "up_pm (up_goto i t s) = up_pm s"
  by (simp_all add: up_goto_def)

text \<open>A step of one request, seen by the others.\<close>

lemma update_step_shape:
  assumes "up_tasks s i = Some t"
  shows "\<exists>t' evs. up_tasks (update_step K C E i t s) = (up_tasks s)(i \<mapsto> t') \<and>
    up_events (update_step K C E i t s) = up_events s @ evs \<and>
    (in_section t' \<longrightarrow> in_section t \<or> \<not> claimed (up_log s) \<and> claimed (up_log (update_step K C E i t s)) \<and> (\<exists>rq l d. t' = UpdateStage rq l d)) \<and>
    (in_section t \<and> in_section t' \<longrightarrow> (claimed (up_log s) \<longrightarrow> claimed (up_log (update_step K C E i t s)))) \<and>
    (\<not> in_section t \<longrightarrow> claimed (up_log s) \<longrightarrow> claimed (up_log (update_step K C E i t s))) \<and>
    (up_actors (update_step K C E i t s) = up_actors s \<or>
       up_actors (update_step K C E i t s) = Suc (up_actors s) \<and> in_section t \<and> \<not> in_section t' \<and>
       (claimed (up_log s) \<longrightarrow> claimed (up_log (update_step K C E i t s)))) \<and>
    (up_private (update_step K C E i t s) = up_private s \<or> up_private (update_step K C E i t s) = None \<or> in_section t)"
proof (cases t)
  case (UpdateClaim rq l d)
  show ?thesis
  proof (cases "ue_driver E")
    case (Some dr)
    obtain w r where c: "marker_claim C (ue_log_fs E) \<lparr>mi_driver = dr\<rparr> (up_log s) = (w, r)" by force
    with claim_result [OF c] Some UpdateClaim show ?thesis
      by (auto split: option.splits sum.splits create_outcome.splits)
  qed (use UpdateClaim in \<open>auto intro: exI [of _ "UpdateDone 500"]\<close>)
next
  case (UpdateSpawn rq l d)
  obtain w evs b where sp: "spawn_actor C E d (up_log s) = (w, evs, b)" by (cases "spawn_actor C E d (up_log s)")
  with spawn_keeps_claim [OF sp] UpdateSpawn show ?thesis by (cases b) auto
next
  case (UpdateDone c)
  with assms show ?thesis by (intro exI [of _ "UpdateDone c"] exI [of _ "[]"]) (simp add: fun_upd_idem)
qed (auto simp: Let_def split: prod.splits sum.splits option.splits)

lemma exclusive_step:
  assumes ex: "exclusive s" and t: "up_tasks s i = Some t"
  shows "exclusive (update_step K C E i t s)"
proof -
  let ?s = "update_step K C E i t s"
  from update_step_shape [OF t, of K C E] obtain t' where
    ts: "up_tasks ?s = (up_tasks s)(i \<mapsto> t')" and
    enter: "in_section t' \<Longrightarrow> in_section t \<or> \<not> claimed (up_log s) \<and> claimed (up_log ?s)" and
    stay: "in_section t \<Longrightarrow> in_section t' \<Longrightarrow> claimed (up_log s) \<Longrightarrow> claimed (up_log ?s)" and
    keep: "\<not> in_section t \<Longrightarrow> claimed (up_log s) \<Longrightarrow> claimed (up_log ?s)" and
    actors: "up_actors ?s = up_actors s \<or>
       up_actors ?s = Suc (up_actors s) \<and> in_section t \<and> \<not> in_section t' \<and> (claimed (up_log s) \<longrightarrow> claimed (up_log ?s))" by blast
  have sec: "up_actors s = 0 \<and> claimed (up_log s)" if "up_tasks s k = Some u" "in_section u" for k u
    using ex that unfolding exclusive_def by blast
  have uniq: "k = j" if "up_tasks s k = Some u" "in_section u" "up_tasks s j = Some x" "in_section x" for k j u x
    using ex that unfolding exclusive_def by blast
  have alone: "\<not> in_section u" if "in_section t'" "up_tasks s k = Some u" "k \<noteq> i" for k u
    using enter [OF that(1)] sec [OF that(2)] uniq [OF t _ that(2)] that(3) by blast
  have act: "claimed (up_log s)" if "0 < up_actors s" using ex that by (auto simp: exclusive_def)
  have "up_actors ?s \<le> 1" using ex actors sec [OF t] by (auto simp: exclusive_def)
  moreover have "up_actors ?s = 0 \<and> claimed (up_log ?s)" if "up_tasks ?s k = Some u" "in_section u" for k u
  proof (cases "k = i")
    case True
    with that ts have u: "in_section t'" by simp
    from enter [OF u] stay [OF _ u] sec [OF t] act actors u show ?thesis by auto
  next
    case False
    with that ts have k: "up_tasks s k = Some u" by simp
    have "\<not> in_section t" using uniq [OF t _ k that(2)] False by blast
    with sec [OF k that(2)] keep actors show ?thesis by auto
  qed
  moreover have "claimed (up_log ?s)" if "0 < up_actors ?s"
  proof (cases "in_section t")
    case True
    with sec [OF t] actors that show ?thesis by auto
  next
    case False
    with keep act actors that show ?thesis by auto
  qed
  moreover have "k = j" if "up_tasks ?s k = Some u" "in_section u" "up_tasks ?s j = Some x" "in_section x" for k j u x
    using that ts uniq alone by (metis fun_upd_apply option.inject)
  ultimately show ?thesis unfolding exclusive_def by blast
qed

lemma stage_result:
  assumes "stage_payload E n p = (p', r)"
  shows "(case r of Ok (name, bs) \<Rightarrow> p' = Some [(name, bs)] | Err _ \<Rightarrow> True)"
  using assms by (auto simp: stage_payload_def split: if_splits option.splits sum.splits prod.splits)

lemma read_copy_Ok: "read_copy E (Some [(name, bs)]) name = Ok x \<Longrightarrow> x = bs"
  by (auto simp: read_copy_def split: option.splits)

lemma read_copy_None [simp]: "read_copy E None name \<noteq> Ok x"
  by (simp add: read_copy_def split: option.splits)

lemma reverify_Err [simp]: "reverify K (Err k) rq \<noteq> Ok ()"
  by (auto simp: reverify_def verify_payload_offline_def verify_payload_offline_with_key_def verify_sha256_hash_def
      split: sum.splits)

text \<open>The point a request moves to keeps the request's own part of the invariant.\<close>

lemma own_step:
  assumes "gated t" "copy_ok K (up_private s) t" "extracted_for (up_events s) t"
    "up_tasks (update_step K C E i t s) i = Some t'" "up_tasks s i = Some t"
  shows "gated t' \<and> copy_ok K (up_private (update_step K C E i t s)) t' \<and>
    extracted_for (up_events (update_step K C E i t s)) t'"
proof (cases t)
  case (UpdateStage rq l d)
  obtain p r where st: "stage_payload E (ur_file_name rq) (up_private s) = (p, r)" by force
  with stage_result [OF st] UpdateStage assms show ?thesis
    by (auto split: if_splits sum.splits prod.splits)
next
  case (UpdateVerify rq l d name)
  show ?thesis
  proof (cases "reverify K (read_copy E (up_private s) name) rq")
    case (Inr x)
    then obtain bs where bs: "read_copy E (up_private s) name = Ok bs" by (cases "read_copy E (up_private s) name") auto
    with Inr UpdateVerify assms show ?thesis by (auto dest: read_copy_Ok)
  qed (use UpdateVerify assms in auto)
next
  case (UpdateClaim rq l d)
  with assms show ?thesis by (auto split: option.splits prod.splits sum.splits create_outcome.splits)
next
  case (UpdateSpawn rq l d)
  with assms show ?thesis by (auto split: prod.splits bool.splits)
next
  case (UpdateConsent rq)
  with assms show ?thesis by (auto simp: Let_def consent_gate_def split: if_splits)
qed (use assms in \<open>auto simp: Let_def split: if_splits option.splits sum.splits prod.splits\<close>)

lemma started_ok_app:
  assumes "started_ok evs" "\<And>rq. ActorStarted rq \<in> set later \<Longrightarrow> \<exists>l bs. Extracted rq l bs \<in> set evs"
  shows "started_ok (evs @ later)"
  using assms unfolding started_ok_def set_append by blast

lemma events_step:
  assumes "gated t" "copy_ok K (up_private s) t" "extracted_for (up_events s) t"
    "started_ok (up_events s)" "list_all (event_ok K) (up_events s)"
  shows "started_ok (up_events (update_step K C E i t s)) \<and> list_all (event_ok K) (up_events (update_step K C E i t s))"
proof (cases t)
  case (UpdateExtract rq l d name)
  show ?thesis
  proof (cases "read_copy E (up_private s) name")
    case (Inr x)
    with UpdateExtract assms(2) have "reverify K (Ok x) rq = Ok ()" by (auto dest: read_copy_Ok)
    with UpdateExtract Inr assms show ?thesis by (auto intro!: started_ok_app split: option.splits)
  qed (use UpdateExtract assms in simp)
next
  case (UpdateSpawn rq l d)
  obtain w evs b where sp: "spawn_actor C E d (up_log s) = (w, evs, b)" by (cases "spawn_actor C E d (up_log s)")
  have "set evs \<subseteq> range ChildResumed \<union> range ChildKilled"
    using sp by (auto simp: spawn_actor_def spawn_windows_def Let_def split: if_splits sum.splits prod.splits)
  then have "list_all (event_ok K) evs" "\<And>q. ActorStarted q \<notin> set evs" by (auto simp: list_all_iff)
  moreover have ex: "\<exists>l bs. Extracted rq l bs \<in> set (up_events s)" using UpdateSpawn assms(3) by auto
  ultimately have "started_ok (up_events s @ evs)" "started_ok (up_events s @ evs @ [ActorStarted rq])"
    by (intro started_ok_app [OF assms(4)]; fastforce)+
  with \<open>list_all (event_ok K) evs\<close> UpdateSpawn sp assms(5) show ?thesis by (cases b) simp_all
qed (use assms in \<open>auto simp: Let_def started_ok_def split: if_splits option.splits sum.splits prod.splits create_outcome.splits\<close>)

text \<open>The request that is not moved keeps its part: the staging directory is its own while it is in it.\<close>

lemma extracted_for_mono: "extracted_for evs t \<Longrightarrow> extracted_for (evs @ later) t"
  by (cases t) auto

lemma copy_ok_None [simp]: "copy_ok K None t"
  by (cases t) auto

lemma copy_ok_outside: "\<not> in_section t \<Longrightarrow> copy_ok K p t"
  by (cases t) auto

lemma other_step:
  assumes inv: "update_inv K s" and t: "up_tasks s i = Some t" and u: "up_tasks s k = Some u" and ne: "k \<noteq> i"
  shows "copy_ok K (up_private (update_step K C E i t s)) u \<and> extracted_for (up_events (update_step K C E i t s)) u"
proof -
  let ?s = "update_step K C E i t s"
  obtain evs where ev: "up_events ?s = up_events s @ evs" and
    pr: "up_private ?s = up_private s \<or> up_private ?s = None \<or> in_section t"
    using update_step_shape [OF t, of K C E] by blast
  have own: "copy_ok K (up_private s) u" "extracted_for (up_events s) u"
    using inv u unfolding update_inv_def by blast+
  have "\<not> in_section u" if "in_section t"
    using inv t u ne that unfolding update_inv_def exclusive_def by blast
  with pr own(1) have "copy_ok K (up_private ?s) u" by (auto intro: copy_ok_outside)
  with ev own(2) show ?thesis by (simp add: extracted_for_mono)
qed

lemma step_inv:
  assumes inv: "update_inv K s" and t: "up_tasks s i = Some t"
  shows "update_inv K (update_step K C E i t s)"
proof -
  let ?s = "update_step K C E i t s"
  have own: "gated t" "copy_ok K (up_private s) t" "extracted_for (up_events s) t" and
    ev: "started_ok (up_events s)" "list_all (event_ok K) (up_events s)" and ex: "exclusive s"
    using inv t unfolding update_inv_def by blast+
  obtain t' where ts: "up_tasks ?s = (up_tasks s)(i \<mapsto> t')" using update_step_shape [OF t, of K C E] by blast
  have "gated u \<and> copy_ok K (up_private ?s) u \<and> extracted_for (up_events ?s) u" if k: "up_tasks ?s k = Some u" for k u
  proof (cases "k = i")
    case True
    with k show ?thesis using own_step [OF own _ t] by blast
  next
    case False
    with k ts have "up_tasks s k = Some u" by simp
    with other_step [OF inv t this False] inv show ?thesis unfolding update_inv_def by blast
  qed
  with exclusive_step [OF ex t] events_step [OF own ev] show ?thesis unfolding update_inv_def by blast
qed

lemma requested_inv:
  assumes inv: "update_inv K s" and none: "up_tasks s i = None"
  shows "update_inv K (up_goto i (UpdateArrived rq) s)"
proof -
  have "exclusive (up_goto i (UpdateArrived rq) s)"
    using inv unfolding update_inv_def exclusive_def by (auto split: if_splits)
  with inv show ?thesis unfolding update_inv_def by (auto split: if_splits)
qed

lemma actor_inv:
  assumes inv: "update_inv K s" and run: "0 < up_actors s"
  shows "update_inv K (actor_fails C E s)"
proof -
  have "\<not> in_section t" if "up_tasks s i = Some t" for i t
    using inv run that unfolding update_inv_def exclusive_def by (metis less_numeral_extra(3))
  moreover have "up_actors s = 1" using inv run unfolding update_inv_def exclusive_def by linarith
  ultimately have "exclusive (actor_fails C E s)" unfolding exclusive_def actor_fails_def by auto
  with inv show ?thesis unfolding update_inv_def actor_fails_def by simp
qed

lemma reachable_inv: "update_reachable K C s \<Longrightarrow> update_inv K s"
proof (induction rule: update_reachable.induct)
  case (up_bound proxy log staging)
  then show ?case by (simp add: update_bound_def update_inv_def exclusive_def started_ok_def)
next
  case (up_stepped s s')
  from up_stepped.hyps(2) up_stepped.IH show ?case
    by (cases) (auto intro: step_inv requested_inv actor_inv)
qed

section \<open>Runs\<close>

fun update_run :: "crypto \<Rightarrow> marker_info codec \<Rightarrow> (update_env \<times> nat) list \<Rightarrow> update_state \<Rightarrow> update_state" where
  "update_run K C [] s = s"
| "update_run K C ((E, i) # es) s =
     update_run K C es (case up_tasks s i of None \<Rightarrow> s | Some t \<Rightarrow> update_step K C E i t s)"

lemma update_run_reachable: "update_reachable K C s \<Longrightarrow> update_reachable K C (update_run K C es s)"
proof (induction es arbitrary: s)
  case (Cons e es)
  obtain E i where e: "e = (E, i)" by (cases e)
  have "update_reachable K C (case up_tasks s i of None \<Rightarrow> s | Some t \<Rightarrow> update_step K C E i t s)"
    using Cons.prems by (auto intro: up_stepped handled split: option.splits)
  with Cons.IH e show ?case by simp
qed simp

text \<open>A release of one asset, a codec of one driver and a Windows host without faults.\<close>

definition sample_crypto :: crypto where
  "sample_crypto = \<lparr>cr_minisign = \<lambda>key data sig. sig = ''ok'', cr_sha256 = \<lambda>bs. replicate 32 (if bs = ''new'' then CHR 0x00 else CHR 0x11)\<rparr>"

definition sample_marker :: "marker_info codec" where
  "sample_marker =
     \<lparr>cd_json = sample_json,
      cd_from_slice = (\<lambda>bs. if bs = ''37'' then Ok \<lparr>mi_driver = 7\<rparr> else Err (framing ''data'')),
      cd_to_vec = (\<lambda>v x. Ok ''37'')\<rparr>"

definition sample_update :: "bytes \<Rightarrow> update_request" where
  "sample_update sig =
     \<lparr>ur_file_name = Some ''p'', ur_asset_name = ''hole.zip'', ur_sha256sums = replicate 64 (CHR ''0'') @ ''  hole.zip'',
      ur_minisig = sig, ur_consent = True, ur_app_dest = None\<rparr>"

definition sample_update_env :: update_env where
  "sample_update_env =
     \<lparr>ue_macos = False, ue_pm = sample_env, ue_log_fs = no_faults, ue_exists = \<lambda>_. True, ue_plist = \<lambda>_. PlistFailed,
      ue_volume_swaps = None, ue_driver = Some 7, ue_private_dir = True, ue_remove_dir = None, ue_create_dir = None,
      ue_source = Ok ''new'', ue_copy_fault = None, ue_read_fault = None, ue_unpack = \<lambda>_. None, ue_spawn = Ok 7,
      ue_resolves = True, ue_resume = None\<rparr>"

text \<open>Two requests arrived: a genuine one, and one whose signature is not.\<close>

definition sample_arrived :: update_state where
  "sample_arrived =
     up_goto 1 (UpdateArrived (sample_update ''ok''))
       (up_goto 0 (UpdateArrived (sample_update ''forged'')) (update_bound sample_pm \<lparr>w_dir = Some [], w_gen = 0\<rparr> None))"

lemma sample_arrived_reachable: "update_reachable sample_crypto sample_marker sample_arrived"
proof -
  let ?s0 = "update_bound sample_pm \<lparr>w_dir = Some [], w_gen = 0\<rparr> None"
  have "update_reachable sample_crypto sample_marker (up_goto 0 (UpdateArrived (sample_update ''forged'')) ?s0)"
    by (rule up_stepped [OF up_bound requested]) (simp add: update_bound_def)
  then show ?thesis unfolding sample_arrived_def
    by (rule up_stepped [OF _ requested]) (simp add: update_bound_def)
qed

text \<open>The forged request runs to its answer, then the genuine one up to its actor.\<close>

definition sample_updated :: update_state where
  "sample_updated =
     update_run sample_crypto sample_marker (replicate 8 (sample_update_env, 0) @ replicate 8 (sample_update_env, 1)) sample_arrived"

lemma sample_updated_events:
  "up_events sample_updated =
     [Staged (sample_update ''forged'') ''new'', Staged (sample_update ''ok'') ''new'',
      Extracted (sample_update ''ok'') False ''new'', ChildResumed 7, ActorStarted (sample_update ''ok'')]"
  by code_simp

section \<open>Properties\<close>

lemma reverify_Ok:
  "reverify K (Ok bs) rq = Ok () \<longleftrightarrow>
     cr_minisign K MINISIGN_PUBLIC_KEY (ur_sha256sums rq) (ur_minisig rq) \<and>
     (\<exists>hash. find_hash_in_sha256sums (ur_sha256sums rq) (ur_asset_name rq) = Ok hash \<and>
        hex_encode (cr_sha256 K bs) = to_ascii_lowercase hash)"
  by (auto simp: reverify_def verify_payload_offline_def verify_payload_offline_with_key_def verify_sha256_hash_def
      Let_def split: sum.splits)

text \<open>
  C7. Only verified bytes are installed. However requests to apply an update interleave, whatever
  their callers do to the payload files, and whatever calls fail: the bytes unpacked for a request are
  bytes whose SHA-256 is the one listed for its asset in a manifest signed with the embedded key,
  and they are unpacked only when lockdown covers the gap or the request carries consent; an actor
  runs only for a request whose bytes were unpacked that way. At most one request is past the claim
  of the marker at a time, never beside a running actor, and the marker is there for as long as it is.
\<close>

theorem update_installs_verified_only:
  assumes "update_reachable K C s"
  shows "(\<forall>rq lockdown_on bs. Extracted rq lockdown_on bs \<in> set (up_events s) \<longrightarrow>
      cr_minisign K MINISIGN_PUBLIC_KEY (ur_sha256sums rq) (ur_minisig rq) \<and>
      (\<exists>hash. find_hash_in_sha256sums (ur_sha256sums rq) (ur_asset_name rq) = Ok hash \<and>
         hex_encode (cr_sha256 K bs) = to_ascii_lowercase hash) \<and>
      (lockdown_on \<or> ur_consent rq)) \<and>
    (\<forall>rq. ActorStarted rq \<in> set (up_events s) \<longrightarrow> (\<exists>l bs. Extracted rq l bs \<in> set (up_events s))) \<and>
    (\<forall>i t. up_tasks s i = Some t \<longrightarrow> in_section t \<longrightarrow>
      up_actors s = 0 \<and> file_at (up_log s) MARKER_FILE \<noteq> None \<and>
      (\<forall>k u. up_tasks s k = Some u \<longrightarrow> in_section u \<longrightarrow> k = i))"
proof -
  from reachable_inv [OF assms] have ex: "exclusive s" and st: "started_ok (up_events s)" and
    ev: "list_all (event_ok K) (up_events s)" unfolding update_inv_def by blast+
  have "event_ok K (Extracted rq l bs)" if "Extracted rq l bs \<in> set (up_events s)" for rq l bs
    using ev that by (auto simp: list_all_iff)
  then have "reverify K (Ok bs) rq = Ok () \<and> (l \<or> ur_consent rq)" if "Extracted rq l bs \<in> set (up_events s)" for rq l bs
    using that by simp
  with st ex show ?thesis unfolding reverify_Ok started_ok_def exclusive_def claimed_def by blast
qed

theorem update_installs_verified_only_witness:
  "cr_minisign sample_crypto MINISIGN_PUBLIC_KEY (ur_sha256sums (sample_update ''ok'')) (ur_minisig (sample_update ''ok'')) \<and>
   Extracted (sample_update ''ok'') False ''new'' \<in> set (up_events sample_updated)"
proof -
  have "update_reachable sample_crypto sample_marker sample_updated"
    unfolding sample_updated_def by (rule update_run_reachable [OF sample_arrived_reachable])
  note update_installs_verified_only [OF this]
  moreover have "Extracted (sample_update ''ok'') False ''new'' \<in> set (up_events sample_updated)"
    by (simp add: sample_updated_events)
  ultimately show ?thesis by blast
qed

text \<open>
  The clean-up after a failure is not under the claim: the marker is cleared first and the staging
  directory removed after it. In the run below the forged request clears the marker, the genuine one
  claims it, stages its copy and verifies it, and the clean-up of the first then deletes that copy:
  the genuine request fails (500). Nothing unverified is installed, but a verified update is lost.
\<close>

lemma cleanup_deletes_next_payload:
  "up_tasks (update_run sample_crypto sample_marker
     (replicate 7 (sample_update_env, 0) @ replicate 6 (sample_update_env, 1) @ [(sample_update_env, 0)] @
      replicate 3 (sample_update_env, 1)) sample_arrived) 1 = Some (UpdateDone 500)"
  by code_simp

end
