(* ===== verification/Spec2Isabelle.thy ===== *)
theory Spec2Isabelle
  imports Router Boot Route_Safety Wfp_Safety Pf_Safety Dns_Boot_Safety Ipc_Safety Swap_Safety Update_Safety
begin

text \<open>
  A verification library for Hole, a censorship-circumvention VPN client. The program is a
  desktop application and a privileged service, the bridge. The bridge owns a TUN device, a
  shadowsocks proxy, a chain of plugins, the routing table entries that steer traffic into the
  tunnel, the system resolver, and two firewall covers: a transient one that blocks the host
  while a covered connect is under way, and a standing one (lockdown) that outlives sessions.
  What it must never do is leak: send traffic in the clear, open a cover nobody asked to open,
  or lose the record of what it changed on the host.

  \<^bold>\<open>Theories and the code they model\<close> (paths below src/crates).

  \<^item> \<open>Prelude\<close>: the result type, strings and bytes, lists, words.
  \<^item> \<open>Net_Addr\<close>: the addresses of the standard library and their parser.
  \<^item> \<open>Filter_Engine\<close>: bridge/src/filter (engine, matcher, rules). The rule set is compiled from
    the user's list, scanned from the end, and decides by the last rule that matches. The locale
    \<open>decision_source\<close> states what a client relies on; it is interpreted on the compiled rules.
  \<^item> \<open>Sniffer\<close>: bridge/src/filter/sniffer: the HTTP host and TLS server name of a flow.
  \<^item> \<open>Router\<close>: bridge/src/hole\_router.rs: which endpoint serves a flow, and the drop records.
  \<^item> \<open>Versioned_File\<close>: util/src/versioned\_file: the state files every component persists
    through. The directory is explicit, every file-system call may fail, and the locale
    \<open>state_file\<close> is the interface the clients use.
  \<^item> \<open>Lockdown\<close>: tun-engine/src/routing/failclosed/lockdown\_state.rs, the recorded intent, and
    the table of routing.rs that decides what a boot does with a cover it finds.
  \<^item> \<open>Target_State\<close>: bridge/src/target.rs: the persisted target and startup preference.
  \<^item> \<open>Reconciler\<close>: bridge/src/reconciler.rs: the steps for cover and tunnel and their order.
  \<^item> \<open>Plugin_Options\<close>: garter/src/sip003.rs: a plugin's environment and its options string.
  \<^item> \<open>Plugin_Directives\<close>: bridge/src/proxy/plugin.rs and dns/ech.rs: whose ECH resolver wins, which
    configurations ex-ray refuses, and the string the plugin is started with.
  \<^item> \<open>Proxy_Manager\<close>, \<open>Proxy_Safety\<close>: bridge/src/proxy\_manager.rs and the stop
    phases of service\_stop.rs. The state is a record; every call the manager makes on the
    operating system is appended to a trace, and what the call answers is given by the
    environment as a function of the trace so far, so every interleaving of failures and of a
    cancellation is covered by quantifying over the environment.
  \<^item> \<open>Boot\<close>: bridge/src/boot.rs, route\_recovery.rs and \<^verbatim>\<open>reconcile_once\<close>.
  \<^item> \<open>Routes\<close>, \<open>Route_Safety\<close>: tun-engine/src/routing.rs and routing/state.rs: the provenance
    record, its schema history, the install with its checkpoints and rollback, recovery.
  \<^item> \<open>Clearance\<close>: tun-engine/src/routing/failclosed.rs and boottime\_witness.rs: what a sweep of the
    covers proved, and the record of a boot-time filter that may outlive it.
  \<^item> \<open>Wfp_Cover\<close>, \<open>Wfp_Safety\<close>: tun-engine/src/routing/failclosed/windows.rs with readback.rs: the
    filters of the two covers, their keys, the engage transactions, the sweeps, the presence
    probe, startup recovery. The Windows Filtering Platform is a record of its calls; what is
    relied on is \<open>fwpm_laws\<close>, and which flow a set of filters lets out is the specification
    \<open>allows\<close>.
  \<^item> \<open>Pf_Rules\<close>, \<open>Pf_Cover\<close>, \<open>Pf_Safety\<close>: tun-engine/src/routing/failclosed/macos.rs with the two state
    files beside it: the rule texts of the covers and the parsing of what pfctl prints, the engages,
    the disengage, startup recovery, the presence probe and the release. pfctl is a record of its
    calls under \<open>pf_laws\<close>; which packet a text lets out is the specification in \<open>Pf_Rules\<close>.
  \<^item> \<open>Addr_Text\<close>: the printed form of addresses and the string operations of the standard library.
  \<^item> \<open>Dns_Wire\<close>, \<open>Dns_Forwarder\<close>, \<open>Dns_Safety\<close>: bridge/src/dns/forwarder.rs and providers.rs: the
    byte formats, one attempt over each of the four transports, the walk over the servers, the
    SERVFAIL made up without a reply, the log throttle. The network is a function of the attempts
    so far.
  \<^item> \<open>Dns_Bootstrap\<close>, \<open>Dns_Boot_Safety\<close>: bridge/src/dns/bootstrap.rs and self\_test.rs: the
    resolution of the server before the tunnel exists, and the gate a start has to pass.
  \<^item> \<open>Ipc\<close>, \<open>Ipc_Safety\<close>: bridge/src/ipc.rs: the requests of the application as tasks that interleave
    at their locks, at the shared counter and at each write of a record. \<open>step_task\<close> takes a request
    from one such point to the next and \<open>ipc_reachable\<close> closes under every order of them. The locale
    \<open>task_mutex\<close> is what holding a lock over several steps gives; it is interpreted for the proxy
    lock and for the lock that orders the records.
  \<^item> \<open>Image_Swap\<close>, \<open>Swap_Safety\<close>: bridge/src/cutover/os.rs, os/windows.rs and platform/swap.rs: the
    exchange of the installed images with its rollback. The locale \<open>reversible_swaps\<close> proves the
    loop all-or-nothing once, for both drivers.
  \<^item> \<open>Update_Apply\<close>, \<open>Update_Safety\<close>: the update request of ipc.rs with cutover/apply.rs, extract.rs,
    app\_dest.rs, common/src/verify.rs and update\_marker.rs, again over every interleaving.

  \<^bold>\<open>What the lemmas show.\<close> The filter refines a declarative last-match specification, and its
  test box mirrors it. The router sends a flow past the tunnel only by an explicit rule, drops
  UDP a proxy cannot carry, and records every drop. State files: nothing that could not be read
  is destroyed, what was stored reads back, a linked schema never panics, the generation tells
  every change. The reconciler converges in one pass and orders its steps so that no uncovered
  window opens. The manager engages the transient cover at most once, holds it exactly while
  it reports being blocked, rolls back everything on a failed start, and enters the phases of a
  stop in order; the resolver its cover permits is the address ex-ray dials with the options it
  is started with. Splitting and joining a plugin's options are inverse, the rewrite changes only
  what Hole owns, and a configuration the gate accepts is in range. An install is crash consistent:
  whatever fails, the record on disk names every route of the run that is in the table. The Windows covers: each lets out exactly the flows it
  names; after any history of engages, sweeps, drops and recoveries a standing cover that engages
  carries no stale permit; a failed engage changes nothing or leaves the whole new cover; a
  release that succeeds leaves no filter; no stranded boot-time filter goes unreported. The macOS
  covers: their texts let out what they name, a blocked Mac has the record that unblocks it, and
  a release that succeeds opens it. DNS: the servers are asked in order and the worst finding is
  reported, an attempt's report is what happened on the network, replies are bounded, well-formed
  replies come through unchanged, the log throttle loses no failure. A secure bootstrap never asks
  the system resolver and does not hide an interception; the gate's report rests on what it saw.
  Requests: whatever a start is doing, an unblock that committed during it has the last word on the
  records; a cancel stops the start it names and no other; the slot of a start has one occupant;
  every request is answered, and an unblock needs neither the proxy lock nor the probe. An update
  installs only bytes verified against the embedded key, one request at a time, and its images are
  exchanged all or not at all.

  \<^bold>\<open>Termination and fuel.\<close> All functions are total. The loops that are not structural (the
  header walk, the search for a free backup name, the walk over a question's labels) have
  termination proofs. Stripping white space uses the length of the text as fuel, which
  \<open>strip_from_done\<close> shows to be enough.

  \<^bold>\<open>Not modelled.\<close> The TUN engine and its packet loop, the settings of the system
  resolver, the plugin processes, the HTTP transport of the requests and the service managers are
  operating-system and network I/O: their answers are the environment of the models. A request
  whose connection is dropped in the middle, the server test and the unpacking of an archive are left
  out; removing the staging directory of an update is one step, done or failed. The macOS route commands have the shape of
  the Windows ones. The desktop application, the diagnostics and the development tools are left
  out. Third-party crates (idna, regex, ipnet, tls\_parser, serde\_json, minisign) are parameters; where
  a law of theirs is needed it is a named hypothesis, with an instance that meets it.
\<close>

end
